(* ===== verification/Go_Prelude.thy ===== *)
theory Go_Prelude
  imports Complex_Main "HOL-Library.Word" "HOL-Library.AList" "HOL-Library.Sublist"
    "HOL-Library.Multiset"
begin

text \<open>
  What the components share: the model of the Go values they are built from.

  \<^item> time: an instant (\<open>time.Time\<close>) is a number of nanoseconds since Go's zero time, so the zero
    value of a \<open>time.Time\<close> field is \<open>0\<close>. A \<open>time.Duration\<close> is a number of nanoseconds; the product
    \<open>time.Duration(n) * time.Second\<close> is a 64-bit signed product (\<open>seconds\<close>), and the difference
    of two instants saturates at the bounds of that type (\<open>time_sub\<close>), as the standard library
    documents. Operations that read the clock take the instant as an argument \<open>now\<close>; the reads
    inside one critical section are given the same instant.
  \<^item> maps: a Go map is an association list whose keys are distinct. The order in which \<open>range\<close>
    visits a map is chosen by the runtime: where it can matter, the loop takes it as an argument (a
    list of keys) and \<open>range_order\<close> says which arguments are possible.
  \<^item> strings: a Go string is a sequence of bytes, \<open>string\<close> in HOL; \<open>len\<close> is \<open>length\<close>.
\<close>

named_theorems time_simps \<open>facts that evaluate instants and durations\<close>
named_theorems gomap_simps \<open>what a lookup returns after each map operation\<close>

section \<open>Time\<close>

type_synonym time = int
type_synonym duration = int

definition wrap64 :: "int \<Rightarrow> int" where
  "wrap64 x = (x + 2 ^ 63) mod 2 ^ 64 - 2 ^ 63"

definition seconds :: "int \<Rightarrow> duration" where
  "seconds n = wrap64 (n * 1000000000)"

definition time_sub :: "time \<Rightarrow> time \<Rightarrow> duration" where
  "time_sub t u = max (- (2 ^ 63)) (min (2 ^ 63 - 1) (t - u))"

abbreviation time_since :: "time \<Rightarrow> time \<Rightarrow> duration" where
  "time_since now t \<equiv> time_sub now t"

section \<open>Numbers\<close>

text \<open>
  \<open>int64(v)\<close>, and \<open>int(v)\<close> on a 64-bit platform, of a float: truncation towards zero. The language
  leaves the result open when it does not fit; \<open>big\<close> stands for it.
\<close>

definition int64_of :: "(real \<Rightarrow> int) \<Rightarrow> real \<Rightarrow> int" where
  "int64_of big v =
     (let t = (if 0 \<le> v then \<lfloor>v\<rfloor> else \<lceil>v\<rceil>)
      in if - (2 ^ 63) \<le> t \<and> t < 2 ^ 63 then t else big v)"

section \<open>Maps\<close>

type_synonym ('k, 'v) gomap = "('k \<times> 'v) list"

abbreviation gm_get :: "('k, 'v) gomap \<Rightarrow> 'k \<Rightarrow> 'v option" where
  "gm_get \<equiv> map_of"

abbreviation gm_set :: "'k \<Rightarrow> 'v \<Rightarrow> ('k, 'v) gomap \<Rightarrow> ('k, 'v) gomap" where
  "gm_set \<equiv> AList.update"

abbreviation gm_del :: "'k \<Rightarrow> ('k, 'v) gomap \<Rightarrow> ('k, 'v) gomap" where
  "gm_del \<equiv> AList.delete"

abbreviation gm_keys :: "('k, 'v) gomap \<Rightarrow> 'k list" where
  "gm_keys m \<equiv> map fst m"

definition gm_wf :: "('k, 'v) gomap \<Rightarrow> bool" where
  "gm_wf m \<longleftrightarrow> distinct (gm_keys m)"

text \<open>A possible order of a \<open>range\<close> loop over \<open>m\<close>, and the pairs visited in that order.\<close>

definition range_order :: "'k list \<Rightarrow> ('k, 'v) gomap \<Rightarrow> bool" where
  "range_order ks m \<longleftrightarrow> distinct ks \<and> set ks = set (gm_keys m)"

definition gm_range :: "'k list \<Rightarrow> ('k, 'v) gomap \<Rightarrow> ('k \<times> 'v) list" where
  "gm_range ks m = List.map_filter (\<lambda>k. map_option (Pair k) (gm_get m k)) ks"

text \<open>\<open>for k, v := range src \{ dst[k] = v \}\<close>\<close>

definition gm_copy_into :: "('k, 'v) gomap \<Rightarrow> ('k, 'v) gomap \<Rightarrow> ('k, 'v) gomap" where
  "gm_copy_into src dst = fold (\<lambda>(k, v). gm_set k v) src dst"

text \<open>A loop over all entries that replaces the value at each key.\<close>

definition gm_map_values :: "('k \<Rightarrow> 'v \<Rightarrow> 'w) \<Rightarrow> ('k, 'v) gomap \<Rightarrow> ('k, 'w) gomap" where
  "gm_map_values f m = map (\<lambda>(k, v). (k, f k v)) m"

section \<open>Strings\<close>

text \<open>
  \<open>strings.TrimSpace\<close> removes the code points of Unicode's White Space property at both ends;
  these are their UTF-8 encodings. An encoding is removed from the left while one is a prefix,
  from the right while one is a suffix.
\<close>

definition space_encodings :: "string list" where
  "space_encodings =
     [[CHR 0x09], [CHR 0x0A], [CHR 0x0B], [CHR 0x0C], [CHR 0x0D], [CHR 0x20],
      [CHR 0xC2, CHR 0x85], [CHR 0xC2, CHR 0xA0], [CHR 0xE1, CHR 0x9A, CHR 0x80],
      [CHR 0xE2, CHR 0x80, CHR 0x80], [CHR 0xE2, CHR 0x80, CHR 0x81],
      [CHR 0xE2, CHR 0x80, CHR 0x82], [CHR 0xE2, CHR 0x80, CHR 0x83],
      [CHR 0xE2, CHR 0x80, CHR 0x84], [CHR 0xE2, CHR 0x80, CHR 0x85],
      [CHR 0xE2, CHR 0x80, CHR 0x86], [CHR 0xE2, CHR 0x80, CHR 0x87],
      [CHR 0xE2, CHR 0x80, CHR 0x88], [CHR 0xE2, CHR 0x80, CHR 0x89],
      [CHR 0xE2, CHR 0x80, CHR 0x8A], [CHR 0xE2, CHR 0x80, CHR 0xA8],
      [CHR 0xE2, CHR 0x80, CHR 0xA9], [CHR 0xE2, CHR 0x80, CHR 0xAF],
      [CHR 0xE2, CHR 0x81, CHR 0x9F], [CHR 0xE3, CHR 0x80, CHR 0x80]]"

function strip_left :: "string list \<Rightarrow> string \<Rightarrow> string" where
  "strip_left encs s =
     (case find (\<lambda>p. p \<noteq> [] \<and> prefix p s) encs of
        None \<Rightarrow> s
      | Some p \<Rightarrow> strip_left encs (drop (length p) s))"
  by pat_completeness auto
termination
  by (relation "measure (\<lambda>(encs, s). length s)")
    (auto simp: find_Some_iff prefix_def)

definition TrimSpace :: "string \<Rightarrow> string" where
  "TrimSpace s =
     rev (strip_left (map rev space_encodings) (rev (strip_left space_encodings s)))"

definition HasPrefix :: "string \<Rightarrow> string \<Rightarrow> bool" where
  "HasPrefix s p \<longleftrightarrow> prefix p s"

definition TrimPrefix :: "string \<Rightarrow> string \<Rightarrow> string" where
  "TrimPrefix s p = (if HasPrefix s p then drop (length p) s else s)"

text \<open>
  \<open>strings.ToLower\<close> maps the ASCII letters of an ASCII string; on other strings it uses the
  Unicode tables, which stay a parameter \<open>ulow\<close>.
\<close>

definition ascii_lower :: "char \<Rightarrow> char" where
  "ascii_lower c =
     (if 65 \<le> (of_char c :: nat) \<and> (of_char c :: nat) \<le> 90
      then char_of ((of_char c :: nat) + 32) else c)"

definition ToLower :: "(string \<Rightarrow> string) \<Rightarrow> string \<Rightarrow> string" where
  "ToLower ulow s =
     (if list_all (\<lambda>c. (of_char c :: nat) < 128) s then map ascii_lower s else ulow s)"

text \<open>The index of the first occurrence of \<open>pat\<close> in \<open>s\<close> (\<open>strings.Index\<close>), and the split there.\<close>

fun str_index :: "string \<Rightarrow> string \<Rightarrow> nat option" where
  "str_index [] pat = (if pat = [] then Some 0 else None)"
| "str_index (c # s) pat =
     (if prefix pat (c # s) then Some 0 else map_option Suc (str_index s pat))"

section \<open>Facts about time\<close>

lemma wrap64_id: "- (2 ^ 63) \<le> x \<Longrightarrow> x < 2 ^ 63 \<Longrightarrow> wrap64 x = x"
  by (simp add: wrap64_def)

lemma seconds_eq [time_simps]:
  "0 \<le> n \<Longrightarrow> n \<le> 9223372036 \<Longrightarrow> seconds n = n * 1000000000"
  by (simp add: seconds_def wrap64_id)

lemma seconds_mono:
  "0 \<le> m \<Longrightarrow> m \<le> n \<Longrightarrow> n \<le> 9223372036 \<Longrightarrow> seconds m \<le> seconds n"
  by (simp add: time_simps)

lemma time_sub_eq [time_simps]:
  "- (2 ^ 63) \<le> t - u \<Longrightarrow> t - u < 2 ^ 63 \<Longrightarrow> time_sub t u = t - u"
  by (simp add: time_sub_def)

lemma time_sub_mono: "t \<le> t' \<Longrightarrow> time_sub t u \<le> time_sub t' u"
  by (auto simp: time_sub_def)

lemma time_sub_antimono: "u \<le> u' \<Longrightarrow> time_sub t u' \<le> time_sub t u"
  by (auto simp: time_sub_def)

lemma time_sub_refl [simp]: "time_sub t t = 0"
  by (simp add: time_sub_def)

section \<open>Facts about maps\<close>

lemma gm_get_set [gomap_simps]: "gm_get (gm_set k v m) = (gm_get m)(k \<mapsto> v)"
  by (simp add: update_conv')

lemma gm_get_del [gomap_simps]: "gm_get (gm_del k m) = (gm_get m)(k := None)"
  by (simp add: delete_conv')

lemma gm_get_map_values [gomap_simps]:
  "gm_get (gm_map_values f m) k = map_option (f k) (gm_get m k)"
  by (induction m) (auto simp: gm_map_values_def)

lemma gm_keys_map_values [simp]: "gm_keys (gm_map_values f m) = gm_keys m"
  by (induction m) (auto simp: gm_map_values_def)

lemma gm_wf_set [intro]: "gm_wf m \<Longrightarrow> gm_wf (gm_set k v m)"
  by (simp add: gm_wf_def distinct_update)

lemma gm_wf_del [intro]: "gm_wf m \<Longrightarrow> gm_wf (gm_del k m)"
  by (simp add: gm_wf_def distinct_delete)

lemma gm_wf_Nil [simp]: "gm_wf []"
  by (simp add: gm_wf_def)

lemma gm_wf_Cons [simp]: "gm_wf ((k, v) # m) \<longleftrightarrow> k \<notin> set (gm_keys m) \<and> gm_wf m"
  by (simp add: gm_wf_def)

lemma gm_wf_filter: "gm_wf m \<Longrightarrow> gm_wf (filter P m)"
  by (simp add: gm_wf_def distinct_map_filter)

lemma gm_get_in_keys: "gm_get m k = Some v \<Longrightarrow> k \<in> set (gm_keys m)"
  by (force dest: map_of_SomeD)

lemma gm_get_None_iff: "gm_get m k = None \<longleftrightarrow> k \<notin> set (gm_keys m)"
  by (simp add: map_of_eq_None_iff)

lemma gm_get_iff: "gm_wf m \<Longrightarrow> gm_get m k = Some v \<longleftrightarrow> (k, v) \<in> set m"
  by (simp add: gm_wf_def)

lemma gm_copy_into_Cons: "gm_copy_into ((k, v) # src) dst = gm_copy_into src (gm_set k v dst)"
  by (simp add: gm_copy_into_def)

lemma gm_get_copy_into [gomap_simps]:
  "gm_wf src \<Longrightarrow> gm_get (gm_copy_into src dst) = gm_get dst ++ gm_get src"
proof (induction src arbitrary: dst)
  case Nil
  then show ?case by (simp add: gm_copy_into_def)
next
  case (Cons kv src)
  obtain k v where kv: "kv = (k, v)" by (cases kv)
  from Cons have "gm_get (gm_copy_into (kv # src) dst) = (gm_get dst)(k \<mapsto> v) ++ gm_get src"
    by (simp add: kv gm_copy_into_Cons gm_get_set)
  moreover from Cons.prems have "gm_get src k = None"
    by (simp add: kv gm_get_None_iff)
  ultimately show ?case
    by (auto simp: kv fun_eq_iff map_add_def split: option.splits)
qed

lemma gm_wf_copy_into [intro]: "gm_wf dst \<Longrightarrow> gm_wf (gm_copy_into src dst)"
  by (induction src arbitrary: dst) (auto simp: gm_copy_into_def)

lemma gm_wf_length_del:
  "gm_wf m \<Longrightarrow> gm_get m k = Some v \<Longrightarrow> Suc (length (gm_del k m)) = length m"
proof (induction m)
  case Nil
  then show ?case by simp
next
  case (Cons kv m)
  obtain k' v' where kv: "kv = (k', v')" by (cases kv)
  show ?case
  proof (cases "k' = k")
    case True
    with Cons.prems have "k \<notin> set (gm_keys m)" by (simp add: kv)
    then have "gm_del k m = m" by (simp add: delete_id)
    then show ?thesis using True by (simp add: kv)
  next
    case False
    with Cons show ?thesis by (simp add: kv)
  qed
qed

lemma gm_length_set_new: "gm_get m k = None \<Longrightarrow> length (gm_set k v m) = Suc (length m)"
  by (induction m) (auto split: if_splits)

lemma gm_range_mem:
  "(k, v) \<in> set (gm_range ks m) \<longleftrightarrow> k \<in> set ks \<and> gm_get m k = Some v"
  by (force simp: gm_range_def List.map_filter_def image_iff)

lemma gm_range_set:
  "range_order ks m \<Longrightarrow> gm_wf m \<Longrightarrow> set (gm_range ks m) = set m"
  by (auto simp: gm_range_mem range_order_def gm_get_iff rev_image_eqI)

lemma gm_range_Nil_iff:
  "range_order ks m \<Longrightarrow> gm_wf m \<Longrightarrow> gm_range ks m = [] \<longleftrightarrow> m = []"
  using gm_range_set [of ks m] by (metis set_empty)

lemma find_SomeD: "find P xs = Some x \<Longrightarrow> x \<in> set xs \<and> P x"
  by (induction xs) (auto split: if_splits)

text \<open>An index filled by a loop: the last element with a key wins.\<close>

lemma gm_get_index:
  "gm_get (fold (\<lambda>x. gm_set (f x) x) xs m) k =
     (case find (\<lambda>x. f x = k) (rev xs) of Some x \<Rightarrow> Some x | None \<Rightarrow> gm_get m k)"
proof (induction xs arbitrary: m rule: rev_induct)
  case Nil
  then show ?case by simp
next
  case (snoc x xs)
  then show ?case by (simp add: gm_get_set)
qed

lemma gm_get_index_SomeD:
  "gm_get (fold (\<lambda>x. gm_set (f x) x) xs []) k = Some x \<Longrightarrow> x \<in> set xs \<and> f x = k"
  by (auto simp: gm_get_index split: option.splits dest: find_SomeD)

lemma gm_get_index_distinct:
  assumes "distinct (map f xs)" and "x \<in> set xs"
  shows "gm_get (fold (\<lambda>x. gm_set (f x) x) xs []) (f x) = Some x"
proof -
  have "find (\<lambda>y. f y = f x) (rev xs) \<noteq> None"
    using assms(2) by (auto simp: find_None_iff)
  then obtain y where y: "gm_get (fold (\<lambda>x. gm_set (f x) x) xs []) (f x) = Some y"
    by (auto simp: gm_get_index)
  then have "y \<in> set xs" "f y = f x" by (auto dest: gm_get_index_SomeD)
  moreover have "inj_on f (set xs)" using assms(1) by (simp add: distinct_map)
  ultimately have "y = x" using assms(2) by (auto dest: inj_onD)
  with y show ?thesis by simp
qed

lemma gm_get_index_mem:
  "x \<in> set xs \<Longrightarrow> \<exists>y \<in> set xs. gm_get (fold (\<lambda>x. gm_set (f x) x) xs []) (f x) = Some y \<and> f y = f x"
proof -
  assume "x \<in> set xs"
  then have "find (\<lambda>y. f y = f x) (rev xs) \<noteq> None" by (auto simp: find_None_iff)
  then obtain y where "gm_get (fold (\<lambda>x. gm_set (f x) x) xs []) (f x) = Some y"
    by (auto simp: gm_get_index)
  then show ?thesis using gm_get_index_SomeD by fastforce
qed

lemma range_order_self [simp]: "gm_wf m \<Longrightarrow> range_order (gm_keys m) m"
  by (simp add: range_order_def gm_wf_def)

section \<open>Facts about strings\<close>

declare strip_left.simps [simp del]

lemma strip_left_suffix: "suffix (strip_left encs s) s"
proof (induction encs s rule: strip_left.induct)
  case (1 encs s)
  show ?case
  proof (cases "find (\<lambda>p. p \<noteq> [] \<and> prefix p s) encs")
    case None
    then show ?thesis by (simp add: strip_left.simps)
  next
    case (Some p)
    from "1.IH" [OF Some] have "suffix (strip_left encs (drop (length p) s)) s"
      by (rule suffix_order.trans) (rule suffix_drop)
    with Some show ?thesis by (simp add: strip_left.simps [of encs s])
  qed
qed

lemma TrimSpace_length: "length (TrimSpace s) \<le> length s"
proof -
  have "length (strip_left encs t) \<le> length t" for encs t
    using strip_left_suffix [of encs t] by (rule suffix_length_le)
  then have "length (strip_left (map rev space_encodings) (rev (strip_left space_encodings s)))
      \<le> length (rev (strip_left space_encodings s))"
    by blast
  also have "\<dots> \<le> length s"
    using suffix_length_le [OF strip_left_suffix [of space_encodings s]] by simp
  finally show ?thesis by (simp add: TrimSpace_def)
qed

lemma TrimSpace_Nil [simp]: "TrimSpace [] = []"
  using TrimSpace_length [of "[]"] by simp

lemma str_index_bound: "str_index s pat = Some i \<Longrightarrow> i + length pat \<le> length s"
  by (induction s arbitrary: i) (auto split: if_splits dest: prefix_length_le)

lemma str_index_prefix: "str_index s pat = Some i \<Longrightarrow> prefix pat (drop i s)"
  by (induction s arbitrary: i) (auto split: if_splits)

end
