(* ===== verification/Backend_State.thy ===== *)
theory Backend_State
  imports Go_Prelude
begin

text \<open>
  The runtime state of one backend (\<open>internal/balancer/state.go\<close>) and its flow statistics
  (\<open>internal/balancer/flow_stats.go\<close>).

  Every method runs under the state's mutex, so a method is one step: a function from the state
  (and the instant it reads) to the new state. Counters of type \<open>int\<close> are unbounded integers (they
  count events one by one), \<open>float64\<close> values are real numbers: rounding is not modelled.
\<close>

section \<open>Flow statistics\<close>

record FlowStats =
  fs_windowSeconds :: int
  fs_dispatched :: int
  fs_completed :: int
  fs_success :: int
  fs_failure :: int
  fs_timeout :: int
  fs_sumTTFTMs :: real
  fs_lastDispatched :: time
  fs_lastCompleted :: time
  fs_lastSuccess :: time

record FlowSnapshot =
  Dispatched :: int
  Completed :: int
  Success :: int
  Failure :: int
  Timeout :: int
  Stalled :: int
  AvgTTFTMs :: real
  SuccessRate :: real
  Throughput :: real
  StalenessFactor :: real

definition NewFlowStats :: "int \<Rightarrow> FlowStats" where
  "NewFlowStats windowSeconds =
     \<lparr>fs_windowSeconds = windowSeconds, fs_dispatched = 0, fs_completed = 0, fs_success = 0,
      fs_failure = 0, fs_timeout = 0, fs_sumTTFTMs = 0, fs_lastDispatched = 0,
      fs_lastCompleted = 0, fs_lastSuccess = 0\<rparr>"

definition flow_Dispatch :: "time \<Rightarrow> FlowStats \<Rightarrow> FlowStats" where
  "flow_Dispatch now fs = fs\<lparr>fs_dispatched := fs_dispatched fs + 1, fs_lastDispatched := now\<rparr>"

definition flow_Complete :: "time \<Rightarrow> bool \<Rightarrow> bool \<Rightarrow> real \<Rightarrow> FlowStats \<Rightarrow> FlowStats" where
  "flow_Complete now success timedOut ttftMs fs =
     (let fs1 = fs\<lparr>fs_completed := fs_completed fs + 1\<rparr>;
          fs2 = (if timedOut then fs1\<lparr>fs_timeout := fs_timeout fs1 + 1\<rparr>
                 else if success
                   then fs1\<lparr>fs_success := fs_success fs1 + 1, fs_lastSuccess := now\<rparr>
                 else fs1\<lparr>fs_failure := fs_failure fs1 + 1\<rparr>)
      in fs2\<lparr>fs_sumTTFTMs := fs_sumTTFTMs fs2 + ttftMs, fs_lastCompleted := now\<rparr>)"

definition flow_GetStats :: "time \<Rightarrow> FlowStats \<Rightarrow> FlowSnapshot" where
  "flow_GetStats now fs =
     (let windowDur = seconds (fs_windowSeconds fs);
          stalled = fs_dispatched fs - fs_completed fs;
          sinceLastSuccess = time_sub now (fs_lastSuccess fs)
      in \<lparr>Dispatched = fs_dispatched fs,
          Completed = fs_completed fs,
          Success = fs_success fs,
          Failure = fs_failure fs,
          Timeout = fs_timeout fs,
          Stalled = (if stalled < 0 then 0 else stalled),
          AvgTTFTMs = (if fs_completed fs > 0 then fs_sumTTFTMs fs / real_of_int (fs_completed fs) else 0),
          SuccessRate = (if fs_completed fs > 0
            then real_of_int (fs_success fs) / real_of_int (fs_completed fs) else 1),
          Throughput = (if fs_windowSeconds fs > 0
            then real_of_int (fs_dispatched fs) / real_of_int (fs_windowSeconds fs) else 0),
          StalenessFactor =
            (if fs_lastSuccess fs \<noteq> 0
             then (if sinceLastSuccess < windowDur
                   then real_of_int sinceLastSuccess / real_of_int windowDur else 1)
             else 1)\<rparr>)"

section \<open>Backend state\<close>

record BackendState =
  ID :: string
  URL :: string
  Weight :: int
  Healthy :: bool
  ConsecutiveFailures :: int
  LastHealthCheck :: time
  LastSuccessAt :: time
  RampingUp :: bool
  RampUpEnd :: time
  UnhealthySince :: time
  RecentFailureUntil :: time
  MetricsAvailable :: bool
  RunningReqs :: int
  WaitingReqs :: int
  KVCachePct :: real
  LastMetricsUpdate :: time
  Flow :: "FlowStats option"
  InFlight :: int

definition NewBackendState :: "string \<Rightarrow> string \<Rightarrow> int \<Rightarrow> int \<Rightarrow> BackendState" where
  "NewBackendState i u weight windowSeconds =
     \<lparr>ID = i, URL = u, Weight = weight, Healthy = True, ConsecutiveFailures = 0,
      LastHealthCheck = 0, LastSuccessAt = 0, RampingUp = False, RampUpEnd = 0,
      UnhealthySince = 0, RecentFailureUntil = 0, MetricsAvailable = False, RunningReqs = 0,
      WaitingReqs = 0, KVCachePct = 0, LastMetricsUpdate = 0,
      Flow = Some (NewFlowStats windowSeconds), InFlight = 0\<rparr>"

definition IsHealthy :: "BackendState \<Rightarrow> bool" where
  "IsHealthy b = Healthy b"

definition IsRampingUp :: "time \<Rightarrow> BackendState \<Rightarrow> bool" where
  "IsRampingUp now b =
     (if \<not> RampingUp b then False else if now > RampUpEnd b then False else True)"

definition FinishRampUp :: "BackendState \<Rightarrow> BackendState" where
  "FinishRampUp b = b\<lparr>RampingUp := False\<rparr>"

definition SetHealthy :: "time \<Rightarrow> int \<Rightarrow> BackendState \<Rightarrow> BackendState" where
  "SetHealthy now rampUpSeconds b =
     (let b1 = b\<lparr>Healthy := True, ConsecutiveFailures := 0, LastHealthCheck := now\<rparr>
      in if rampUpSeconds > 0
         then b1\<lparr>RampingUp := True, RampUpEnd := now + seconds rampUpSeconds\<rparr>
         else b1\<lparr>RampingUp := False\<rparr>)"

definition RecordFailure :: "time \<Rightarrow> int \<Rightarrow> int \<Rightarrow> BackendState \<Rightarrow> BackendState" where
  "RecordFailure now failures threshold b =
     (let b1 = b\<lparr>ConsecutiveFailures := failures\<rparr>;
          threshold' = (if threshold = 0 then 3 else threshold);
          b2 = (if failures \<ge> threshold' \<and> Healthy b1
                then b1\<lparr>Healthy := False, UnhealthySince := now\<rparr> else b1)
      in b2\<lparr>LastHealthCheck := now\<rparr>)"

definition RecordDispatchFailure :: "time \<Rightarrow> int \<Rightarrow> BackendState \<Rightarrow> BackendState" where
  "RecordDispatchFailure now cooldownSeconds b =
     (let cooldown = (if cooldownSeconds \<le> 0 then 10 else cooldownSeconds)
      in b\<lparr>RecentFailureUntil := now + seconds cooldown\<rparr>)"

definition IsFailing :: "time \<Rightarrow> BackendState \<Rightarrow> bool" where
  "IsFailing now b \<longleftrightarrow> now < RecentFailureUntil b"

definition RecordRequestOutcome :: "time \<Rightarrow> bool \<Rightarrow> int \<Rightarrow> int \<Rightarrow> BackendState \<Rightarrow> BackendState" where
  "RecordRequestOutcome now success unhealthyAfter rampUpSeconds b =
     (let b1 = b\<lparr>LastHealthCheck := now\<rparr> in
      if success then
        (let b2 = b1\<lparr>ConsecutiveFailures := 0, LastSuccessAt := now\<rparr> in
         if \<not> Healthy b2 then
           (let b3 = b2\<lparr>Healthy := True\<rparr> in
            if rampUpSeconds > 0
            then b3\<lparr>RampingUp := True, RampUpEnd := now + seconds rampUpSeconds\<rparr>
            else b3\<lparr>RampingUp := False\<rparr>)
         else if RampingUp b2 \<and> now > RampUpEnd b2 then b2\<lparr>RampingUp := False\<rparr>
         else b2)
      else
        (let b2 = b1\<lparr>ConsecutiveFailures := ConsecutiveFailures b1 + 1\<rparr>;
             limit = (if unhealthyAfter \<le> 0 then 3 else unhealthyAfter)
         in if ConsecutiveFailures b2 \<ge> limit \<and> Healthy b2
            then b2\<lparr>Healthy := False, UnhealthySince := now\<rparr>
            else b2))"

definition ShouldRetry :: "time \<Rightarrow> int \<Rightarrow> BackendState \<Rightarrow> bool" where
  "ShouldRetry now retryDelaySec b =
     (if Healthy b then True
      else if retryDelaySec \<le> 0 then True
      else time_since now (UnhealthySince b) \<ge> seconds retryDelaySec)"

definition UpdateMetrics :: "time \<Rightarrow> bool \<Rightarrow> int \<Rightarrow> int \<Rightarrow> real \<Rightarrow> BackendState \<Rightarrow> BackendState" where
  "UpdateMetrics now metricsAvailable running waiting kvCachePct b =
     b\<lparr>MetricsAvailable := metricsAvailable, RunningReqs := running, WaitingReqs := waiting,
       KVCachePct := kvCachePct, LastMetricsUpdate := now\<rparr>"

definition GetEffectiveLoad :: "time \<Rightarrow> duration \<Rightarrow> BackendState \<Rightarrow> real" where
  "GetEffectiveLoad now staleThreshold b =
     (if MetricsAvailable b \<and> time_since now (LastMetricsUpdate b) < staleThreshold
      then real_of_int (RunningReqs b) else real_of_int (InFlight b))"

definition IsOverloadedByMetrics :: "time \<Rightarrow> real \<Rightarrow> duration \<Rightarrow> BackendState \<Rightarrow> bool" where
  "IsOverloadedByMetrics now kvCachePct staleThreshold b =
     (if \<not> MetricsAvailable b \<or> time_since now (LastMetricsUpdate b) > staleThreshold then False
      else kvCachePct > 0 \<and> KVCachePct b \<ge> kvCachePct)"

lemmas state_op_defs =
  SetHealthy_def RecordFailure_def RecordDispatchFailure_def RecordRequestOutcome_def
  UpdateMetrics_def FinishRampUp_def Let_def

lemmas state_read_defs =
  IsHealthy_def IsRampingUp_def IsFailing_def ShouldRetry_def GetEffectiveLoad_def
  IsOverloadedByMetrics_def

section \<open>Identity and counters are framed\<close>

lemma state_ops_ID [simp]:
  "ID (SetHealthy now r b) = ID b" "ID (RecordFailure now f t b) = ID b"
  "ID (RecordDispatchFailure now c b) = ID b" "ID (RecordRequestOutcome now s u r b) = ID b"
  "ID (UpdateMetrics now a x y z b) = ID b" "ID (FinishRampUp b) = ID b"
  by (simp_all add: state_op_defs)

lemma state_ops_InFlight [simp]:
  "InFlight (SetHealthy now r b) = InFlight b" "InFlight (RecordFailure now f t b) = InFlight b"
  "InFlight (RecordDispatchFailure now c b) = InFlight b"
  "InFlight (RecordRequestOutcome now s u r b) = InFlight b"
  "InFlight (UpdateMetrics now a x y z b) = InFlight b" "InFlight (FinishRampUp b) = InFlight b"
  by (simp_all add: state_op_defs)

lemma state_ops_Flow [simp]:
  "Flow (SetHealthy now r b) = Flow b" "Flow (RecordFailure now f t b) = Flow b"
  "Flow (RecordDispatchFailure now c b) = Flow b" "Flow (RecordRequestOutcome now s u r b) = Flow b"
  "Flow (UpdateMetrics now a x y z b) = Flow b" "Flow (FinishRampUp b) = Flow b"
  by (simp_all add: state_op_defs)

section \<open>Flow statistics: the invariant and the derived rates\<close>

definition flow_inv :: "FlowStats \<Rightarrow> bool" where
  "flow_inv fs \<longleftrightarrow>
     0 \<le> fs_success fs \<and> 0 \<le> fs_failure fs \<and> 0 \<le> fs_timeout fs \<and> 0 \<le> fs_dispatched fs \<and>
     fs_completed fs = fs_success fs + fs_failure fs + fs_timeout fs"

lemma flow_inv_new [simp]: "flow_inv (NewFlowStats w)"
  by (simp add: flow_inv_def NewFlowStats_def)

lemma flow_inv_Dispatch: "flow_inv fs \<Longrightarrow> flow_inv (flow_Dispatch now fs)"
  by (simp add: flow_inv_def flow_Dispatch_def)

lemma flow_inv_Complete: "flow_inv fs \<Longrightarrow> flow_inv (flow_Complete now s t m fs)"
  by (auto simp: flow_inv_def flow_Complete_def Let_def)

datatype flow_op = FDispatch time | FComplete time bool bool real

fun flow_exec :: "FlowStats \<Rightarrow> flow_op \<Rightarrow> FlowStats" where
  "flow_exec fs (FDispatch now) = flow_Dispatch now fs"
| "flow_exec fs (FComplete now success timedOut ttftMs) = flow_Complete now success timedOut ttftMs fs"

lemma flow_run_inv: "flow_inv fs \<Longrightarrow> flow_inv (foldl flow_exec fs ops)"
proof (induction ops arbitrary: fs)
  case Nil
  then show ?case by simp
next
  case (Cons op ops)
  then show ?case by (cases op) (simp_all add: flow_inv_Dispatch flow_inv_Complete)
qed

lemma flow_counts:
  "fs_dispatched (foldl flow_exec fs ops) =
     fs_dispatched fs + int (length (filter (\<lambda>op. \<exists>t. op = FDispatch t) ops)) \<and>
   fs_completed (foldl flow_exec fs ops) =
     fs_completed fs + int (length (filter (\<lambda>op. \<exists>t s o' m. op = FComplete t s o' m) ops))"
proof (induction ops arbitrary: fs)
  case Nil
  then show ?case by simp
next
  case (Cons op ops)
  show ?case
    by (cases op) (simp_all add: Cons.IH flow_Dispatch_def flow_Complete_def Let_def)
qed

text \<open>The rates of a snapshot lie in the unit interval.\<close>

lemma SuccessRate_bounds:
  "flow_inv fs \<Longrightarrow> 0 \<le> SuccessRate (flow_GetStats now fs) \<and> SuccessRate (flow_GetStats now fs) \<le> 1"
  by (auto simp: flow_inv_def flow_GetStats_def Let_def divide_le_eq_1)

lemma StalenessFactor_bounds:
  assumes "fs_lastSuccess fs \<le> now"
  shows "0 \<le> StalenessFactor (flow_GetStats now fs) \<and> StalenessFactor (flow_GetStats now fs) \<le> 1"
proof -
  have "0 \<le> time_sub now (fs_lastSuccess fs)"
    using assms by (simp add: time_sub_def)
  then show ?thesis
    by (auto simp: flow_GetStats_def Let_def divide_le_eq_1)
qed

section \<open>Request outcomes drive health\<close>

definition outcomes :: "BackendState \<Rightarrow> (time \<times> bool) list \<Rightarrow> BackendState" where
  "outcomes b os = foldl (\<lambda>b (now, ok). RecordRequestOutcome now ok 3 0 b) b os"

text \<open>The failures at the end of a list of outcomes.\<close>

definition failure_run :: "(time \<times> bool) list \<Rightarrow> nat" where
  "failure_run os = length (takeWhile (\<lambda>(_, ok). \<not> ok) (rev os))"

lemma outcomes_snoc:
  "outcomes b (os @ [(now, ok)]) = RecordRequestOutcome now ok 3 0 (outcomes b os)"
  by (simp add: outcomes_def)

lemma failure_run_snoc:
  "failure_run (os @ [(now, ok)]) = (if ok then 0 else Suc (failure_run os))"
  by (simp add: failure_run_def)

lemma outcomes_health:
  assumes "Healthy b" and "ConsecutiveFailures b = 0"
  shows "ConsecutiveFailures (outcomes b os) = int (failure_run os) \<and>
    Healthy (outcomes b os) = (failure_run os < 3)"
proof (induction os rule: rev_induct)
  case Nil
  with assms show ?case by (simp add: outcomes_def failure_run_def)
next
  case (snoc o' os)
  obtain now ok where o': "o' = (now, ok)" by (cases o')
  from snoc show ?case
    by (auto simp: o' outcomes_snoc failure_run_snoc RecordRequestOutcome_def Let_def)
qed



end
