(* ===== verification/Affinity_Store.thy ===== *)
theory Affinity_Store
  imports Go_Prelude
begin

text \<open>
  The affinity store of \<open>internal/balancer/store.go\<close>: pins from an affinity key to a backend,
  with least-recently-used eviction over a capacity and a time to live.

  The code keeps a map from keys to \<open>*lruNode\<close> and a doubly linked list of the same nodes, and
  mutates a node through either. The model keeps that sharing explicit: nodes live in a heap, the
  map and the list hold their addresses. Each node owns its list element, so an element is named
  by the address of its node. \<open>store_inv\<close> says how map, list and heap agree; \<open>store_abs\<close> reads
  the store as the list of its entries from most to least recently used, and every operation
  refines an operation on that list. The locale \<open>affinity_store\<close> is the contract of the
  \<open>AffinityStore\<close> interface that its clients rely on.
\<close>

section \<open>State and operations\<close>

record AffinityEntry =
  BackendID :: string
  LastSeen :: time

type_synonym addr = nat

record lruNode =
  node_key :: string
  node_entry :: AffinityEntry

record inMemoryStore =
  heap :: "addr \<Rightarrow> lruNode"
  next_addr :: addr
  entries :: "(string, addr) gomap"
  lru :: "addr list"
  ttl :: duration
  maxSize :: int

definition NewInMemoryStore :: "duration \<Rightarrow> int \<Rightarrow> inMemoryStore" where
  "NewInMemoryStore t m =
     \<lparr>heap = (\<lambda>_. \<lparr>node_key = [], node_entry = \<lparr>BackendID = [], LastSeen = 0\<rparr>\<rparr>),
      next_addr = 0, entries = [], lru = [], ttl = t, maxSize = m\<rparr>"

definition store_Get :: "time \<Rightarrow> inMemoryStore \<Rightarrow> string \<Rightarrow> AffinityEntry option" where
  "store_Get now s key =
     (case gm_get (entries s) key of
        None \<Rightarrow> None
      | Some a \<Rightarrow>
          (if time_since now (LastSeen (node_entry (heap s a))) > ttl s then None
           else Some (node_entry (heap s a))))"

text \<open>\<open>list.MoveToFront\<close>, \<open>list.Remove\<close>: no effect on an element that is not in the list.\<close>

definition move_to_front :: "addr \<Rightarrow> addr list \<Rightarrow> addr list" where
  "move_to_front a l = (if a \<in> set l then a # remove1 a l else l)"

function evict_tail :: "inMemoryStore \<Rightarrow> inMemoryStore" where
  "evict_tail s =
     (if int (length (entries s)) > maxSize s
      then (if lru s = [] then s
            else let oldest = last (lru s)
                 in evict_tail
                      (s\<lparr>entries := gm_del (node_key (heap s oldest)) (entries s),
                         lru := butlast (lru s)\<rparr>))
      else s)"
  by pat_completeness auto
termination
  by (relation "measure (\<lambda>s. length (lru s))") auto

definition store_Set :: "time \<Rightarrow> inMemoryStore \<Rightarrow> string \<Rightarrow> AffinityEntry \<Rightarrow> inMemoryStore" where
  "store_Set now s key ent =
     (let ent' = ent\<lparr>LastSeen := now\<rparr> in
      case gm_get (entries s) key of
        Some a \<Rightarrow>
          (let n = heap s a in
           s\<lparr>heap := (heap s)(a := n\<lparr>node_entry := (node_entry n)
                        \<lparr>BackendID := BackendID ent', LastSeen := LastSeen ent'\<rparr>\<rparr>),
             lru := move_to_front a (lru s)\<rparr>)
      | None \<Rightarrow>
          (let a = next_addr s in
           evict_tail
             (s\<lparr>heap := (heap s)(a := \<lparr>node_key = key, node_entry = ent'\<rparr>),
                next_addr := Suc a, lru := a # lru s,
                entries := gm_set key a (entries s)\<rparr>)))"

definition store_Touch :: "time \<Rightarrow> inMemoryStore \<Rightarrow> string \<Rightarrow> inMemoryStore" where
  "store_Touch now s key =
     (case gm_get (entries s) key of
        None \<Rightarrow> s
      | Some a \<Rightarrow>
          (let n = heap s a in
           s\<lparr>heap := (heap s)(a := n\<lparr>node_entry := (node_entry n)\<lparr>LastSeen := now\<rparr>\<rparr>),
             lru := move_to_front a (lru s)\<rparr>))"

definition store_Delete :: "inMemoryStore \<Rightarrow> string \<Rightarrow> inMemoryStore" where
  "store_Delete s key =
     (case gm_get (entries s) key of
        None \<Rightarrow> s
      | Some a \<Rightarrow> s\<lparr>lru := remove1 a (lru s), entries := gm_del key (entries s)\<rparr>)"

text \<open>
  \<open>EvictExpired\<close> and \<open>Migrate\<close> first collect the keys to drop, then drop them one by one; the
  body of the second loop is that of \<open>Delete\<close>.
\<close>

definition store_EvictExpired :: "time \<Rightarrow> inMemoryStore \<Rightarrow> inMemoryStore" where
  "store_EvictExpired now s =
     (let expired = map fst (filter (\<lambda>(key, a).
            time_sub now (LastSeen (node_entry (heap s a))) > ttl s) (entries s))
      in fold (\<lambda>key s'. store_Delete s' key) expired s)"

definition store_Len :: "inMemoryStore \<Rightarrow> nat" where
  "store_Len s = length (entries s)"

definition store_Migrate :: "string list \<Rightarrow> inMemoryStore \<Rightarrow> inMemoryStore" where
  "store_Migrate keptBackends s =
     (let toDelete = map fst (filter (\<lambda>(key, a).
            BackendID (node_entry (heap s a)) \<notin> set keptBackends) (entries s))
      in fold (\<lambda>key s'. store_Delete s' key) toDelete s)"

section \<open>The invariant and the abstract store\<close>

definition store_inv :: "inMemoryStore \<Rightarrow> bool" where
  "store_inv s \<longleftrightarrow>
     gm_wf (entries s) \<and> distinct (lru s) \<and> set (lru s) = snd ` set (entries s) \<and>
     list_all (\<lambda>(key, a). node_key (heap s a) = key) (entries s) \<and>
     list_all (\<lambda>a. a < next_addr s) (lru s)"

definition store_within :: "inMemoryStore \<Rightarrow> bool" where
  "store_within s \<longleftrightarrow> length (entries s) \<le> nat (maxSize s)"

abbreviation store_ok :: "inMemoryStore \<Rightarrow> bool" where
  "store_ok s \<equiv> store_inv s \<and> store_within s"

type_synonym recency = "(string \<times> AffinityEntry) list"

definition node_pair :: "inMemoryStore \<Rightarrow> addr \<Rightarrow> string \<times> AffinityEntry" where
  "node_pair s a = (node_key (heap s a), node_entry (heap s a))"

definition store_abs :: "inMemoryStore \<Rightarrow> recency" where
  "store_abs s = map (node_pair s) (lru s)"

text \<open>The operations of the specification: a list of pins, most recently used first.\<close>

definition pins_get :: "duration \<Rightarrow> time \<Rightarrow> recency \<Rightarrow> string \<Rightarrow> AffinityEntry option" where
  "pins_get t now l key =
     (case gm_get l key of
        None \<Rightarrow> None
      | Some e \<Rightarrow> (if time_since now (LastSeen e) > t then None else Some e))"

definition pins_set :: "int \<Rightarrow> time \<Rightarrow> recency \<Rightarrow> string \<Rightarrow> AffinityEntry \<Rightarrow> recency" where
  "pins_set m now l key ent = take (nat m) ((key, ent\<lparr>LastSeen := now\<rparr>) # gm_del key l)"

definition pins_touch :: "time \<Rightarrow> recency \<Rightarrow> string \<Rightarrow> recency" where
  "pins_touch now l key =
     (case gm_get l key of
        None \<Rightarrow> l
      | Some e \<Rightarrow> (key, e\<lparr>LastSeen := now\<rparr>) # gm_del key l)"

definition pins_expire :: "duration \<Rightarrow> time \<Rightarrow> recency \<Rightarrow> recency" where
  "pins_expire t now l = filter (\<lambda>(_, e). time_sub now (LastSeen e) \<le> t) l"

definition pins_migrate :: "string list \<Rightarrow> recency \<Rightarrow> recency" where
  "pins_migrate kept l = filter (\<lambda>(_, e). BackendID e \<in> set kept) l"

text \<open>Sequences of operations, on the store and on its specification.\<close>

datatype store_op =
    OpSet time string AffinityEntry
  | OpTouch time string
  | OpDelete string
  | OpEvictExpired time
  | OpMigrate "string list"

fun store_exec :: "inMemoryStore \<Rightarrow> store_op \<Rightarrow> inMemoryStore" where
  "store_exec s (OpSet now key e) = store_Set now s key e"
| "store_exec s (OpTouch now key) = store_Touch now s key"
| "store_exec s (OpDelete key) = store_Delete s key"
| "store_exec s (OpEvictExpired now) = store_EvictExpired now s"
| "store_exec s (OpMigrate kept) = store_Migrate kept s"

fun pins_exec :: "duration \<Rightarrow> int \<Rightarrow> recency \<Rightarrow> store_op \<Rightarrow> recency" where
  "pins_exec t m l (OpSet now key e) = pins_set m now l key e"
| "pins_exec t m l (OpTouch now key) = pins_touch now l key"
| "pins_exec t m l (OpDelete key) = gm_del key l"
| "pins_exec t m l (OpEvictExpired now) = pins_expire t now l"
| "pins_exec t m l (OpMigrate kept) = pins_migrate kept l"

section \<open>How map, list and heap agree\<close>

lemma update_append_new: "k \<notin> fst ` set m \<Longrightarrow> gm_set k v m = m @ [(k, v)]"
  by (induction m) auto

lemma node_pair_simps [simp]:
  "fst (node_pair s a) = node_key (heap s a)" "snd (node_pair s a) = node_entry (heap s a)"
  by (simp_all add: node_pair_def)

lemma store_inv_new [simp]: "store_inv (NewInMemoryStore t m)"
  by (simp add: store_inv_def NewInMemoryStore_def)

lemma store_within_new [simp]: "store_within (NewInMemoryStore t m)"
  by (simp add: store_within_def NewInMemoryStore_def)

lemma store_abs_new [simp]: "store_abs (NewInMemoryStore t m) = []"
  by (simp add: store_abs_def NewInMemoryStore_def)

lemma store_inv_mem: "store_inv s \<Longrightarrow> (key, a) \<in> set (entries s) \<Longrightarrow> node_key (heap s a) = key"
  by (auto simp: store_inv_def list_all_iff)

lemma store_inv_entry:
  assumes "store_inv s" and "gm_get (entries s) key = Some a"
  shows "a \<in> set (lru s)" and "node_key (heap s a) = key"
proof -
  from assms have "(key, a) \<in> set (entries s)"
    by (simp add: map_of_SomeD)
  with assms show "a \<in> set (lru s)" and "node_key (heap s a) = key"
    by (auto simp: store_inv_def list_all_iff rev_image_eqI)
qed

lemma store_inv_node:
  assumes "store_inv s" and "a \<in> set (lru s)"
  shows "gm_get (entries s) (node_key (heap s a)) = Some a"
proof -
  from assms obtain key where "(key, a) \<in> set (entries s)"
    by (auto simp: store_inv_def)
  with assms show ?thesis
    by (auto simp: store_inv_def gm_get_iff list_all_iff)
qed

lemma store_inv_key_inj:
  "store_inv s \<Longrightarrow> inj_on (\<lambda>a. node_key (heap s a)) (set (lru s))"
  by (metis (no_types, lifting) inj_onI option.inject store_inv_node)

lemma store_abs_wf: "store_inv s \<Longrightarrow> gm_wf (store_abs s)"
  by (auto simp: gm_wf_def store_abs_def comp_def distinct_map store_inv_key_inj)
    (auto simp: store_inv_def)

lemma store_abs_get:
  assumes inv: "store_inv s"
  shows "gm_get (store_abs s) key =
    map_option (\<lambda>a. node_entry (heap s a)) (gm_get (entries s) key)"
proof (cases "gm_get (entries s) key")
  case (Some a)
  with inv have "a \<in> set (lru s)" and "node_key (heap s a) = key"
    by (auto dest: store_inv_entry)
  then have "(key, node_entry (heap s a)) \<in> set (store_abs s)"
    by (force simp: store_abs_def node_pair_def)
  with inv Some show ?thesis by (simp add: gm_get_iff store_abs_wf)
next
  case None
  have "key \<notin> set (gm_keys (store_abs s))"
    using None inv by (auto simp: store_abs_def dest!: store_inv_node)
  with None show ?thesis by (simp add: gm_get_None_iff [THEN iffD2])
qed

lemma store_abs_absent:
  "store_inv s \<Longrightarrow> gm_get (entries s) key = None \<Longrightarrow> gm_del key (store_abs s) = store_abs s"
proof -
  assume "store_inv s" and "gm_get (entries s) key = None"
  then have "gm_get (store_abs s) key = None" by (simp add: store_abs_get)
  then show "gm_del key (store_abs s) = store_abs s"
    by (simp add: map_of_eq_None_iff delete_id)
qed

lemma entries_length: "store_inv s \<Longrightarrow> length (entries s) = length (lru s)"
proof -
  assume inv: "store_inv s"
  have "inj_on snd (set (entries s))"
    using store_inv_mem [OF inv] by (auto simp: inj_on_def) metis
  then have "card (set (lru s)) = card (set (entries s))"
    using inv by (simp add: store_inv_def card_image)
  moreover from inv have "distinct (lru s)" and "distinct (entries s)"
    by (simp_all add: store_inv_def gm_wf_def distinct_map)
  ultimately show ?thesis by (simp add: distinct_card)
qed

section \<open>Refinement\<close>

text \<open>Dropping one node: the step shared by eviction, \<open>Delete\<close>, \<open>EvictExpired\<close> and \<open>Migrate\<close>.\<close>

definition store_drop :: "inMemoryStore \<Rightarrow> string \<Rightarrow> addr \<Rightarrow> inMemoryStore" where
  "store_drop s key a = s\<lparr>lru := remove1 a (lru s), entries := gm_del key (entries s)\<rparr>"

lemma store_drop_inv:
  assumes inv: "store_inv s" and a: "gm_get (entries s) key = Some a"
  shows "store_inv (store_drop s key a)"
proof -
  from a inv have mem: "(key, a) \<in> set (entries s)" by (simp add: map_of_SomeD)
  have "set (remove1 a (lru s)) = snd ` set (gm_del key (entries s))"
  proof -
    have "b \<noteq> a \<longleftrightarrow> k \<noteq> key" if "(k, b) \<in> set (entries s)" for k b
    proof
      assume "b \<noteq> a"
      with that mem inv show "k \<noteq> key"
        by (auto simp: store_inv_def gm_wf_def dest: eq_key_imp_eq_value)
    next
      assume "k \<noteq> key"
      with that mem inv show "b \<noteq> a" by (auto dest: store_inv_mem)
    qed
    moreover have "set (remove1 a (lru s)) = snd ` set (entries s) - {a}"
      using inv by (simp add: store_inv_def set_remove1_eq)
    ultimately show ?thesis
      by (auto simp: AList.delete_eq image_iff) blast+
  qed
  with inv show ?thesis
    by (auto simp: store_inv_def store_drop_def list_all_iff AList.delete_eq gm_wf_def
        distinct_map_filter notin_set_remove1)
qed

lemma map_node_pair_remove:
  assumes inv: "store_inv s" and a: "a \<in> set (lru s)"
  shows "map (node_pair s) (remove1 a (lru s)) =
    gm_del (node_key (heap s a)) (store_abs s)"
proof -
  have "filter (\<lambda>b. b \<noteq> a) (lru s) =
      filter (\<lambda>b. node_key (heap s a) \<noteq> node_key (heap s b)) (lru s)"
    by (rule filter_cong) (use store_inv_key_inj [OF inv] a in \<open>auto dest: inj_onD\<close>)
  moreover have "remove1 a (lru s) = filter (\<lambda>b. b \<noteq> a) (lru s)"
    using inv by (simp add: store_inv_def distinct_remove1_removeAll removeAll_filter_not_eq
        cong: filter_cong) (metis (mono_tags))
  ultimately show ?thesis
    by (simp add: store_abs_def AList.delete_eq filter_map comp_def node_pair_def)
qed

lemma node_pair_store_drop [simp]: "node_pair (store_drop s key a) = node_pair s"
  by (simp add: fun_eq_iff node_pair_def store_drop_def)

lemma store_drop_abs:
  assumes inv: "store_inv s" and a: "gm_get (entries s) key = Some a"
  shows "store_abs (store_drop s key a) = gm_del key (store_abs s)"
proof -
  have "store_abs (store_drop s key a) = map (node_pair s) (remove1 a (lru s))"
    by (simp add: store_abs_def) (simp add: store_drop_def)
  also have "\<dots> = gm_del key (store_abs s)"
    using store_inv_entry [OF inv a] map_node_pair_remove [OF inv, of a] by simp
  finally show ?thesis .
qed

declare evict_tail.simps [simp del]

lemma remove1_last: "distinct l \<Longrightarrow> l \<noteq> [] \<Longrightarrow> remove1 (last l) l = butlast l"
  by (induction l) auto

lemma evict_tail_step:
  assumes "int (length (entries s)) > maxSize s" and "lru s \<noteq> []" and "distinct (lru s)"
  shows "evict_tail s =
    evict_tail (store_drop s (node_key (heap s (last (lru s)))) (last (lru s)))"
proof -
  have "store_drop s key (last (lru s)) = s\<lparr>entries := gm_del key (entries s), lru := butlast (lru s)\<rparr>"
    for key
    using assms by (cases s) (simp add: store_drop_def remove1_last)
  with assms show ?thesis
    by (simp add: evict_tail.simps [of s] Let_def)
qed

lemma evict_tail_config: "maxSize (evict_tail s) = maxSize s \<and> ttl (evict_tail s) = ttl s"
proof (induction s rule: evict_tail.induct)
  case (1 s)
  then show ?case by (subst (1 2) evict_tail.simps) (simp add: Let_def)
qed

lemma evict_tail_ok:
  "store_inv s \<Longrightarrow> store_ok (evict_tail s) \<and>
     store_abs (evict_tail s) = take (nat (maxSize s)) (store_abs s)"
proof (induction "length (lru s)" arbitrary: s)
  case 0
  then have "entries s = []" by (simp add: store_inv_def)
  with 0 show ?case
    by (simp add: evict_tail.simps store_within_def store_abs_def)
next
  case (Suc n)
  let ?a = "last (lru s)"
  let ?s' = "store_drop s (node_key (heap s ?a)) ?a"
  from Suc.hyps(2) have ne: "lru s \<noteq> []" by auto
  show ?case
  proof (cases "int (length (entries s)) > maxSize s")
    case False
    then show ?thesis
      using Suc.prems
      by (simp add: evict_tail.simps store_within_def store_abs_def entries_length)
  next
    case True
    from ne have a: "?a \<in> set (lru s)" by simp
    have get: "gm_get (entries s) (node_key (heap s ?a)) = Some ?a"
      using Suc.prems a by (rule store_inv_node)
    have abs': "store_abs ?s' = butlast (store_abs s)"
    proof -
      have "store_abs ?s' = map (node_pair s) (remove1 ?a (lru s))"
        by (simp add: store_abs_def) (simp add: store_drop_def)
      moreover have "remove1 ?a (lru s) = butlast (lru s)"
        using Suc.prems ne by (simp add: store_inv_def remove1_last)
      ultimately show ?thesis by (simp add: store_abs_def map_butlast)
    qed
    have "n = length (lru ?s')"
      using Suc.hyps(2) a by (simp add: store_drop_def length_remove1)
    from Suc.hyps(1) [OF this store_drop_inv [OF Suc.prems get]]
    have IH: "store_ok (evict_tail ?s') \<and>
        store_abs (evict_tail ?s') = take (nat (maxSize s)) (store_abs ?s')"
      by (simp add: store_drop_def)
    have "evict_tail s = evict_tail ?s'"
      using True ne Suc.prems by (simp add: evict_tail_step store_inv_def)
    moreover have "take (nat (maxSize s)) (butlast (store_abs s)) = take (nat (maxSize s)) (store_abs s)"
    proof -
      have "nat (maxSize s) < length (store_abs s)"
        using True Suc.prems Suc.hyps(2) by (simp add: entries_length store_abs_def)
      then show ?thesis by (simp add: take_butlast)
    qed
    ultimately show ?thesis using IH abs' by simp
  qed
qed

text \<open>Writing the entry of a pinned key and moving its node to the front (\<open>Set\<close> and \<open>Touch\<close>).\<close>

definition store_refresh :: "inMemoryStore \<Rightarrow> addr \<Rightarrow> AffinityEntry \<Rightarrow> inMemoryStore" where
  "store_refresh s a e =
     s\<lparr>heap := (heap s)(a := (heap s a)\<lparr>node_entry := e\<rparr>), lru := move_to_front a (lru s)\<rparr>"

lemma store_refresh_ok:
  assumes ok: "store_ok s" and a: "gm_get (entries s) key = Some a"
  shows "store_ok (store_refresh s a e)"
    and "store_abs (store_refresh s a e) = (key, e) # gm_del key (store_abs s)"
proof -
  from ok a have mem: "a \<in> set (lru s)" and key: "node_key (heap s a) = key"
    by (auto dest: store_inv_entry)
  with ok show "store_ok (store_refresh s a e)"
    by (auto simp: store_inv_def store_within_def store_refresh_def move_to_front_def
        list_all_iff set_remove1_eq)
  from ok mem have "a \<notin> set (remove1 a (lru s))"
    by (simp add: store_inv_def)
  then have "map (node_pair (store_refresh s a e)) (remove1 a (lru s)) =
      map (node_pair s) (remove1 a (lru s))"
    by (intro map_cong) (auto simp: node_pair_def store_refresh_def)
  with ok mem key show "store_abs (store_refresh s a e) = (key, e) # gm_del key (store_abs s)"
    by (simp add: store_abs_def [of "store_refresh s a e"] map_node_pair_remove)
      (simp add: store_refresh_def move_to_front_def node_pair_def)
qed

lemma store_Get_refines:
  "store_inv s \<Longrightarrow> store_Get now s key = pins_get (ttl s) now (store_abs s) key"
  by (simp add: store_Get_def pins_get_def store_abs_get option.case_eq_if option.map_sel)

lemma store_Set_existing:
  "gm_get (entries s) key = Some a \<Longrightarrow>
     store_Set now s key ent =
       store_refresh s a ((node_entry (heap s a))\<lparr>BackendID := BackendID ent, LastSeen := now\<rparr>)"
  by (simp add: store_Set_def store_refresh_def Let_def)

lemma affinity_entry_eq:
  "e\<lparr>BackendID := BackendID ent, LastSeen := now\<rparr> = ent\<lparr>LastSeen := now\<rparr>"
  for e ent :: AffinityEntry
  by (cases e; cases ent) simp

lemma store_Set_refines:
  assumes ok: "store_ok s"
  shows "store_ok (store_Set now s key ent)"
    and "store_abs (store_Set now s key ent) =
      pins_set (maxSize s) now (store_abs s) key ent"
proof -
  have "store_ok (store_Set now s key ent) \<and>
    store_abs (store_Set now s key ent) = pins_set (maxSize s) now (store_abs s) key ent"
  proof (cases "gm_get (entries s) key")
    case (Some a)
    with ok have "gm_get (store_abs s) key = Some (node_entry (heap s a))"
      by (simp add: store_abs_get)
    with ok have "Suc (length (gm_del key (store_abs s))) = length (store_abs s)"
      by (simp add: gm_wf_length_del store_abs_wf)
    also have "\<dots> \<le> nat (maxSize s)"
      using ok by (auto simp: store_within_def entries_length store_abs_def)
    finally show ?thesis
      using store_refresh_ok [OF ok Some] Some
      by (simp add: store_Set_existing affinity_entry_eq pins_set_def)
  next
    case None
    let ?a = "next_addr s"
    let ?s' = "s\<lparr>heap := (heap s)(?a := \<lparr>node_key = key, node_entry = ent\<lparr>LastSeen := now\<rparr>\<rparr>),
        next_addr := Suc ?a, lru := ?a # lru s, entries := gm_set key ?a (entries s)\<rparr>"
    from ok have below: "\<And>k b. (k, b) \<in> set (entries s) \<Longrightarrow> b < ?a"
      by (fastforce simp: store_inv_def list_all_iff)
    from ok have fresh: "?a \<notin> set (lru s)"
      by (auto simp: store_inv_def dest: below)
    have upd: "gm_set key ?a (entries s) = entries s @ [(key, ?a)]"
      using None by (simp add: gm_get_None_iff update_append_new)
    have "list_all (\<lambda>a. a < Suc ?a) (?a # lru s)"
      using ok by (auto simp: store_inv_def list_all_iff intro: less_SucI)
    moreover have "list_all (\<lambda>(k, b). node_key (heap ?s' b) = k) (entries s @ [(key, ?a)])"
      using ok by (auto simp: list_all_iff dest: below store_inv_mem)
    ultimately have "store_inv ?s'"
      using ok fresh None by (simp add: store_inv_def upd gm_wf_def map_of_eq_None_iff)
    moreover have "store_abs ?s' = (key, ent\<lparr>LastSeen := now\<rparr>) # store_abs s"
      using fresh by (auto simp: store_abs_def node_pair_def)
    moreover have "gm_del key (store_abs s) = store_abs s"
      using ok None by (simp add: store_abs_absent)
    ultimately show ?thesis
      using evict_tail_ok [of ?s'] None by (simp add: store_Set_def Let_def pins_set_def)
  qed
  then show "store_ok (store_Set now s key ent)"
    and "store_abs (store_Set now s key ent) = pins_set (maxSize s) now (store_abs s) key ent"
    by blast+
qed

lemma store_Touch_refines:
  assumes ok: "store_ok s"
  shows "store_ok (store_Touch now s key)"
    and "store_abs (store_Touch now s key) = pins_touch now (store_abs s) key"
proof -
  have "store_Touch now s key = (case gm_get (entries s) key of None \<Rightarrow> s
      | Some a \<Rightarrow> store_refresh s a ((node_entry (heap s a))\<lparr>LastSeen := now\<rparr>))"
    by (simp add: store_Touch_def store_refresh_def Let_def split: option.split)
  then show "store_ok (store_Touch now s key)"
    and "store_abs (store_Touch now s key) = pins_touch now (store_abs s) key"
    using ok store_refresh_ok [OF ok]
    by (simp_all add: store_abs_get pins_touch_def split: option.split)
qed

lemma store_Delete_refines:
  assumes ok: "store_ok s"
  shows "store_ok (store_Delete s key)"
    and "store_abs (store_Delete s key) = gm_del key (store_abs s)"
proof -
  have del: "store_Delete s key = (case gm_get (entries s) key of None \<Rightarrow> s
      | Some a \<Rightarrow> store_drop s key a)"
    by (simp add: store_Delete_def store_drop_def split: option.split)
  have "length (gm_del key (entries s)) \<le> length (entries s)"
    by (rule length_delete_le)
  with ok show "store_ok (store_Delete s key)"
    by (auto simp: del store_drop_inv split: option.splits)
      (auto simp: store_within_def store_drop_def)
  show "store_abs (store_Delete s key) = gm_del key (store_abs s)"
    using ok by (simp add: del store_drop_abs store_abs_absent split: option.split)
qed

text \<open>The two sweeps: dropping the keys of the entries that satisfy a predicate is a filter.\<close>

lemma store_Delete_config [simp]:
  "ttl (store_Delete s key) = ttl s" "maxSize (store_Delete s key) = maxSize s"
  "heap (store_Delete s key) = heap s"
  by (simp_all add: store_Delete_def split: option.split)

lemma fold_Delete_refines:
  "store_ok s \<Longrightarrow> store_ok (fold (\<lambda>key s'. store_Delete s' key) ks s) \<and>
     store_abs (fold (\<lambda>key s'. store_Delete s' key) ks s) =
       filter (\<lambda>p. fst p \<notin> set ks) (store_abs s)"
proof (induction ks arbitrary: s)
  case Nil
  then show ?case by simp
next
  case (Cons k ks)
  have "store_ok (store_Delete s k)" "store_abs (store_Delete s k) = gm_del k (store_abs s)"
    using store_Delete_refines [OF Cons.prems] by blast+
  with Cons.IH [of "store_Delete s k"] show ?case
    by (auto simp: AList.delete_eq intro!: filter_cong)
qed

lemma sweep_refines:
  assumes ok: "store_ok s"
  shows "filter (\<lambda>p. fst p \<notin> set (map fst (filter (\<lambda>(key, a). P (node_entry (heap s a))) (entries s))))
      (store_abs s) = filter (\<lambda>(_, e). \<not> P e) (store_abs s)"
proof (rule filter_cong [OF refl])
  fix p assume "p \<in> set (store_abs s)"
  then obtain a where a: "a \<in> set (lru s)" and p: "p = node_pair s a"
    by (auto simp: store_abs_def)
  from ok a have "gm_get (entries s) (node_key (heap s a)) = Some a"
    by (auto intro: store_inv_node)
  moreover from ok have "gm_wf (entries s)" by (simp add: store_inv_def)
  ultimately have "(node_key (heap s a), b) \<in> set (entries s) \<longleftrightarrow> b = a" for b
    by (auto simp: gm_get_iff [symmetric])
  moreover have "key \<in> set (map fst (filter (\<lambda>(key, a). P (node_entry (heap s a))) (entries s))) \<longleftrightarrow>
      (\<exists>b. (key, b) \<in> set (entries s) \<and> P (node_entry (heap s b)))" for key
    by force
  ultimately show "fst p \<notin> set (map fst (filter (\<lambda>(key, a). P (node_entry (heap s a))) (entries s))) \<longleftrightarrow>
      (case p of (_, e) \<Rightarrow> \<not> P e)"
    by (simp add: p node_pair_def)
qed

lemma store_EvictExpired_refines:
  assumes ok: "store_ok s"
  shows "store_ok (store_EvictExpired now s)"
    and "store_abs (store_EvictExpired now s) = pins_expire (ttl s) now (store_abs s)"
  using fold_Delete_refines [OF ok]
    sweep_refines [OF ok, of "\<lambda>e. time_sub now (LastSeen e) > ttl s"]
  by (simp_all add: store_EvictExpired_def pins_expire_def Let_def not_less)

lemma store_Migrate_refines:
  assumes ok: "store_ok s"
  shows "store_ok (store_Migrate kept s)"
    and "store_abs (store_Migrate kept s) = pins_migrate kept (store_abs s)"
  using fold_Delete_refines [OF ok] sweep_refines [OF ok, of "\<lambda>e. BackendID e \<notin> set kept"]
  by (simp_all add: store_Migrate_def pins_migrate_def Let_def)

lemma store_Len_refines: "store_inv s \<Longrightarrow> store_Len s = length (store_abs s)"
  by (simp add: store_Len_def entries_length store_abs_def)

lemmas store_ok_ops =
  store_Set_refines(1) store_Touch_refines(1) store_Delete_refines(1)
  store_EvictExpired_refines(1) store_Migrate_refines(1)

lemmas store_abs_ops =
  store_Set_refines(2) store_Touch_refines(2) store_Delete_refines(2)
  store_EvictExpired_refines(2) store_Migrate_refines(2)

lemma store_Set_config [simp]:
  "ttl (store_Set now s key ent) = ttl s" "maxSize (store_Set now s key ent) = maxSize s"
  using evict_tail_config by (auto simp: store_Set_def Let_def split: option.split)

lemma store_Touch_config [simp]:
  "ttl (store_Touch now s key) = ttl s" "maxSize (store_Touch now s key) = maxSize s"
  by (simp_all add: store_Touch_def Let_def split: option.split)

section \<open>The contract of the interface\<close>

text \<open>
  What a client of \<open>AffinityStore\<close> may assume: an entry just written or touched is found until it
  expires (when the store has room for one entry), operations on one key never change what is
  stored under another (they may evict it), and a deleted key is gone.
\<close>

locale affinity_store =
  fixes sget :: "time \<Rightarrow> 's \<Rightarrow> string \<Rightarrow> AffinityEntry option"
    and sset :: "time \<Rightarrow> 's \<Rightarrow> string \<Rightarrow> AffinityEntry \<Rightarrow> 's"
    and stouch :: "time \<Rightarrow> 's \<Rightarrow> string \<Rightarrow> 's"
    and sdelete :: "'s \<Rightarrow> string \<Rightarrow> 's"
    and sinv :: "'s \<Rightarrow> bool"
    and sttl :: "'s \<Rightarrow> duration"
    and sroom :: "'s \<Rightarrow> bool"
  assumes sset_inv: "sinv s \<Longrightarrow> sinv (sset now s key e)"
    and stouch_inv: "sinv s \<Longrightarrow> sinv (stouch now s key)"
    and sdelete_inv: "sinv s \<Longrightarrow> sinv (sdelete s key)"
    and sset_frame: "sttl (sset now s key e) = sttl s \<and> sroom (sset now s key e) = sroom s"
    and stouch_frame: "sttl (stouch now s key) = sttl s \<and> sroom (stouch now s key) = sroom s"
    and sget_sset: "sinv s \<Longrightarrow> sroom s \<Longrightarrow> time_sub now' now \<le> sttl s \<Longrightarrow>
      sget now' (sset now s key e) key = Some (e\<lparr>LastSeen := now\<rparr>)"
    and sget_sset_other: "sinv s \<Longrightarrow> key' \<noteq> key \<Longrightarrow> sget now' (sset now s key e) key' = Some e' \<Longrightarrow>
      sget now' s key' = Some e'"
    and sget_stouch: "sinv s \<Longrightarrow> sget now s key = Some e \<Longrightarrow> time_sub now' now \<le> sttl s \<Longrightarrow>
      sget now' (stouch now s key) key = Some (e\<lparr>LastSeen := now\<rparr>)"
    and sget_stouch_other: "sinv s \<Longrightarrow> key' \<noteq> key \<Longrightarrow> sget now' (stouch now s key) key' = sget now' s key'"
    and sget_sdelete: "sinv s \<Longrightarrow> sget now (sdelete s key) key = None"
    and sget_sdelete_other: "sinv s \<Longrightarrow> key' \<noteq> key \<Longrightarrow> sget now (sdelete s key) key' = sget now s key'"

lemma gm_get_take: "gm_get (take n l) k = Some v \<Longrightarrow> gm_get l k = Some v"
  by (metis append_take_drop_id map_add_Some_iff map_of_append option.distinct(1) not_None_eq)

lemma store_Get_Set:
  "store_ok s \<Longrightarrow> 0 < maxSize s \<Longrightarrow> time_sub now' now \<le> ttl s \<Longrightarrow>
     store_Get now' (store_Set now s key e) key = Some (e\<lparr>LastSeen := now\<rparr>)"
  using store_Set_refines [of s now key e]
  by (auto simp: store_Get_refines pins_get_def pins_set_def take_Cons' split: nat.split)

lemma store_Get_Set_other:
  "store_ok s \<Longrightarrow> key' \<noteq> key \<Longrightarrow> store_Get now' (store_Set now s key e) key' = Some e' \<Longrightarrow>
     store_Get now' s key' = Some e'"
  using store_Set_refines [of s now key e]
  by (auto simp: store_Get_refines pins_get_def pins_set_def gomap_simps
      split: option.splits if_splits dest!: gm_get_take)

lemma store_Get_Touch:
  "store_ok s \<Longrightarrow> store_Get now s key = Some e \<Longrightarrow> time_sub now' now \<le> ttl s \<Longrightarrow>
     store_Get now' (store_Touch now s key) key = Some (e\<lparr>LastSeen := now\<rparr>)"
  using store_Touch_refines [of s now key]
  by (auto simp: store_Get_refines pins_get_def pins_touch_def split: option.splits if_splits)

lemma store_Get_Touch_other:
  "store_ok s \<Longrightarrow> key' \<noteq> key \<Longrightarrow>
     store_Get now' (store_Touch now s key) key' = store_Get now' s key'"
  using store_Touch_refines [of s now key]
  by (auto simp: store_Get_refines pins_get_def pins_touch_def gomap_simps split: option.splits)

lemma store_Get_Delete: "store_ok s \<Longrightarrow> store_Get now (store_Delete s key) key = None"
  using store_Delete_refines [of s key]
  by (auto simp: store_Get_refines pins_get_def gomap_simps)

lemma store_Get_Delete_other:
  "store_ok s \<Longrightarrow> key' \<noteq> key \<Longrightarrow> store_Get now (store_Delete s key) key' = store_Get now s key'"
  using store_Delete_refines [of s key]
  by (auto simp: store_Get_refines pins_get_def gomap_simps)

interpretation mem_store: affinity_store store_Get store_Set store_Touch store_Delete
  store_ok ttl "\<lambda>s. 0 < maxSize s"
proof (unfold_locales, goal_cases)
  case 1 then show ?case by (rule store_Set_refines(1))
next
  case 2 then show ?case by (rule store_Touch_refines(1))
next
  case 3 then show ?case by (rule store_Delete_refines(1))
next
  case 4 show ?case by simp
next
  case 5 show ?case by simp
next
  case 6 then show ?case by (rule store_Get_Set)
next
  case 7 then show ?case by (rule store_Get_Set_other)
next
  case 8 then show ?case by (rule store_Get_Touch)
next
  case 9 then show ?case by (rule store_Get_Touch_other)
next
  case 10 then show ?case by (rule store_Get_Delete)
next
  case 11 then show ?case by (rule store_Get_Delete_other)
qed

section \<open>Properties of the store\<close>

lemma fold_Delete_config:
  "ttl (fold (\<lambda>key s'. store_Delete s' key) ks s) = ttl s \<and>
   maxSize (fold (\<lambda>key s'. store_Delete s' key) ks s) = maxSize s"
  by (induction ks arbitrary: s) simp_all

lemma store_exec_config [simp]:
  "ttl (store_exec s op) = ttl s" "maxSize (store_exec s op) = maxSize s"
  by (cases op; simp add: store_EvictExpired_def store_Migrate_def fold_Delete_config Let_def)+

lemma store_exec_refines:
  "store_ok s \<Longrightarrow> store_ok (store_exec s op) \<and>
     store_abs (store_exec s op) = pins_exec (ttl s) (maxSize s) (store_abs s) op"
  by (cases op) (simp_all add: store_ok_ops store_abs_ops)

lemma store_run_ok:
  "store_ok s \<Longrightarrow> store_ok (foldl store_exec s ops) \<and>
     ttl (foldl store_exec s ops) = ttl s \<and> maxSize (foldl store_exec s ops) = maxSize s \<and>
     store_abs (foldl store_exec s ops) = foldl (pins_exec (ttl s) (maxSize s)) (store_abs s) ops"
proof (induction ops arbitrary: s)
  case Nil
  then show ?case by simp
next
  case (Cons op ops)
  from store_exec_refines [OF Cons.prems, of op] Cons.IH [of "store_exec s op"]
  show ?case by simp
qed

text \<open>
  C3: the in-memory store refines the recency list. After any sequence of \<open>Set\<close>, \<open>Touch\<close>,
  \<open>Delete\<close>, \<open>EvictExpired\<close> and \<open>Migrate\<close> on a new store, map, list and heap agree
  (\<open>store_inv\<close>), the contents read from most to least recently used are what the specification
  computes, \<open>Get\<close> and \<open>Len\<close> answer as the specification does, and at most \<open>maxSize\<close> pins are kept.
\<close>

theorem store_run_refines:
  fixes t :: duration and m :: int and ops :: "store_op list"
  defines "s \<equiv> foldl store_exec (NewInMemoryStore t m) ops"
    and "l \<equiv> foldl (pins_exec t m) [] ops"
  shows "store_inv s \<and> store_abs s = l \<and> store_Get now s key = pins_get t now l key \<and>
    store_Len s = length l \<and> store_Len s \<le> nat m"
proof -
  have cfg: "ttl (NewInMemoryStore t m) = t" "maxSize (NewInMemoryStore t m) = m"
    by (simp_all add: NewInMemoryStore_def)
  have "store_ok (NewInMemoryStore t m)" by simp
  from store_run_ok [OF this, of ops] cfg
  have ok: "store_ok s" and "ttl s = t" "maxSize s = m" "store_abs s = l"
    by (simp_all add: s_def l_def)
  then show ?thesis
    by (simp add: store_Get_refines store_Len_refines)
      (metis store_Len_def store_Len_refines store_within_def)
qed

text \<open>
  Eviction is least recently used. Setting a new key on a store that is full drops exactly
  the least recently used pin, keeps every other pin with its entry and puts the new pin in front.
\<close>

theorem store_Set_evicts_lru:
  assumes "store_ok s" and "gm_get (entries s) key = None"
    and "int (store_Len s) = maxSize s" and "0 < maxSize s"
  shows "store_abs (store_Set now s key e) =
    (key, e\<lparr>LastSeen := now\<rparr>) # butlast (store_abs s)"
proof -
  from assms have "length (store_abs s) = nat (maxSize s)"
    by (simp add: store_Len_refines [symmetric] nat_eq_iff)
  with assms show ?thesis
    by (simp add: store_Set_refines pins_set_def store_abs_absent butlast_conv_take take_Cons'
        del: take_eq_Nil)
qed

definition pin :: "string \<Rightarrow> AffinityEntry" where
  "pin b = \<lparr>BackendID = b, LastSeen = 0\<rparr>"

text \<open>Three sessions on a store for two pins: the second write refreshes \<open>a\<close>, so \<open>b\<close> is evicted.\<close>

theorem store_Set_evicts_lru_witness:
  "map fst (store_abs (store_Set 4 (foldl store_exec (NewInMemoryStore 100 2)
     [OpSet 1 ''a'' (pin ''x''), OpSet 2 ''b'' (pin ''y''), OpTouch 3 ''a'']) ''c'' (pin ''x''))) =
   [''c'', ''a'']"
proof -
  let ?s = "foldl store_exec (NewInMemoryStore 100 2)
     [OpSet 1 ''a'' (pin ''x''), OpSet 2 ''b'' (pin ''y''), OpTouch 3 ''a'']"
  have "store_ok ?s"
    by (simp add: store_ok_ops)
  moreover have "gm_get (entries ?s) ''c'' = None" "int (store_Len ?s) = maxSize ?s"
    "0 < maxSize ?s" "map fst (butlast (store_abs ?s)) = [''a'']"
    by (simp_all add: store_Set_def store_Touch_def NewInMemoryStore_def evict_tail.simps
        store_Len_def store_abs_def node_pair_def move_to_front_def)
  ultimately show ?thesis
    using store_Set_evicts_lru [of ?s "''c''" 4 "pin ''x''"] by simp
qed

text \<open>
  A pin that was set is read back with its backend exactly as long as it has not expired, and
  no operation on another key changes it: it can only be evicted.
\<close>

theorem store_pin_roundtrip:
  assumes "store_ok s" and "0 < maxSize s" and "key' \<noteq> key"
  shows "store_Get now' (store_Set now s key e) key =
      (if time_sub now' now \<le> ttl s then Some (e\<lparr>LastSeen := now\<rparr>) else None) \<and>
    store_Get now' (store_Set now s key' e') key \<in> {None, store_Get now' s key}"
proof
  show "store_Get now' (store_Set now s key e) key =
      (if time_sub now' now \<le> ttl s then Some (e\<lparr>LastSeen := now\<rparr>) else None)"
    using store_Set_refines [OF assms(1), of now key e] assms(2)
    by (auto simp: store_Get_refines pins_get_def pins_set_def take_Cons')
  show "store_Get now' (store_Set now s key' e') key \<in> {None, store_Get now' s key}"
    using store_Get_Set_other [OF assms(1), of key key' now' now e'] assms(3) by fastforce
qed

theorem store_pin_roundtrip_witness:
  "store_Get 50 (store_Set 1 (NewInMemoryStore 100 2) ''a'' (pin ''x'')) ''a'' =
     Some \<lparr>BackendID = ''x'', LastSeen = 1\<rparr> \<and>
   store_Get 102 (store_Set 1 (NewInMemoryStore 100 2) ''a'' (pin ''x'')) ''a'' = None"
proof -
  have "store_ok (NewInMemoryStore 100 2)" and "0 < maxSize (NewInMemoryStore 100 2)"
    by (simp_all, simp add: NewInMemoryStore_def)
  from store_pin_roundtrip [OF this, of "''b''" "''a''"] show ?thesis
    by (simp add: NewInMemoryStore_def pin_def time_sub_def)
qed

end
