(* ===== verification/Json_Values.thy ===== *)
theory Json_Values
  imports Go_Prelude
begin

text \<open>
  Decoded JSON bodies and YAML values: Go's \<open>interface\{\}\<close> as \<open>encoding/json\<close> and \<open>yaml.v3\<close>
  produce it. A JSON number is a \<open>float64\<close> (\<open>JNum\<close>); integers of the YAML configuration, and those
  the code itself stores, are Go \<open>int\<close> values (\<open>JInt\<close>), which a type assertion to \<open>float64\<close>
  rejects. An object is a Go map. The type assertions \<open>m[k].(T)\<close> are the functions \<open>get_str\<close>,
  \<open>get_arr\<close>, \dots: they fail on a missing key, on null and on a value of another type.

  The second part is \<open>deepMergeInto\<close> of \<open>internal/proxy/server.go\<close>, which folds a route's
  \<open>inject\<close> block into a body.
\<close>

section \<open>Values and type assertions\<close>

datatype json =
    JNull
  | JBool bool
  | JNum real
  | JInt int
  | JStr string
  | JArr "json list"
  | JObj "(string \<times> json) list"

type_synonym obj = "(string, json) gomap"

fun as_str :: "json option \<Rightarrow> string option" where
  "as_str (Some (JStr s)) = Some s"
| "as_str _ = None"

fun as_arr :: "json option \<Rightarrow> json list option" where
  "as_arr (Some (JArr xs)) = Some xs"
| "as_arr _ = None"

fun as_obj :: "json option \<Rightarrow> obj option" where
  "as_obj (Some (JObj m)) = Some m"
| "as_obj _ = None"

fun as_bool :: "json option \<Rightarrow> bool option" where
  "as_bool (Some (JBool b)) = Some b"
| "as_bool _ = None"

fun as_num :: "json option \<Rightarrow> real option" where
  "as_num (Some (JNum x)) = Some x"
| "as_num _ = None"

abbreviation get_str :: "obj \<Rightarrow> string \<Rightarrow> string option" where
  "get_str m k \<equiv> as_str (gm_get m k)"

abbreviation get_arr :: "obj \<Rightarrow> string \<Rightarrow> json list option" where
  "get_arr m k \<equiv> as_arr (gm_get m k)"

abbreviation get_obj :: "obj \<Rightarrow> string \<Rightarrow> obj option" where
  "get_obj m k \<equiv> as_obj (gm_get m k)"

abbreviation get_bool :: "obj \<Rightarrow> string \<Rightarrow> bool option" where
  "get_bool m k \<equiv> as_bool (gm_get m k)"

abbreviation get_num :: "obj \<Rightarrow> string \<Rightarrow> real option" where
  "get_num m k \<equiv> as_num (gm_get m k)"

text \<open>\<open>v, _ := m[k].(T)\<close>: the zero value when the assertion fails.\<close>

abbreviation or_zero :: "'a option \<Rightarrow> 'a \<Rightarrow> 'a" where
  "or_zero x d \<equiv> case_option d id x"

fun json_wf :: "json \<Rightarrow> bool" where
  "json_wf (JArr xs) = (\<forall>x \<in> set xs. json_wf x)"
| "json_wf (JObj m) = (gm_wf m \<and> (\<forall>kv \<in> set m. json_wf (snd kv)))"
| "json_wf _ = True"

fun is_obj :: "json \<Rightarrow> bool" where
  "is_obj (JObj _) = True"
| "is_obj _ = False"

lemma as_obj_Some: "as_obj v = Some m \<longleftrightarrow> v = Some (JObj m)"
  by (cases v rule: as_obj.cases) auto

lemma as_arr_Some: "as_arr v = Some m \<longleftrightarrow> v = Some (JArr m)"
  by (cases v rule: as_arr.cases) auto

lemma as_str_Some: "as_str v = Some m \<longleftrightarrow> v = Some (JStr m)"
  by (cases v rule: as_str.cases) auto

lemma as_bool_Some: "as_bool v = Some m \<longleftrightarrow> v = Some (JBool m)"
  by (cases v rule: as_bool.cases) auto

lemma as_num_Some: "as_num v = Some m \<longleftrightarrow> v = Some (JNum m)"
  by (cases v rule: as_num.cases) auto

lemmas as_type_Some = as_obj_Some as_arr_Some as_str_Some as_bool_Some as_num_Some

lemma json_wf_get: "json_wf (JObj m) \<Longrightarrow> gm_get m k = Some v \<Longrightarrow> json_wf v"
  by (fastforce dest: map_of_SomeD)

lemma json_wf_set: "json_wf (JObj m) \<Longrightarrow> json_wf v \<Longrightarrow> json_wf (JObj (gm_set k v m))"
proof (induction m)
  case (Cons kv m)
  then show ?case by (cases kv) (auto simp: dom_update)
qed auto

lemma json_wf_del: "json_wf (JObj m) \<Longrightarrow> json_wf (JObj (gm_del k m))"
  by (auto simp: gm_wf_del AList.delete_eq)
    (metis gm_wf_del AList.delete_eq)

section \<open>Deep merge\<close>

fun deepMergeInto :: "obj \<Rightarrow> obj \<Rightarrow> obj" where
  "deepMergeInto dst [] = dst"
| "deepMergeInto dst ((k, JObj srcMap) # src) =
     (case gm_get dst k of
        Some (JObj dstMap) \<Rightarrow>
          deepMergeInto (gm_set k (JObj (deepMergeInto dstMap srcMap)) dst) src
      | _ \<Rightarrow> deepMergeInto (gm_set k (JObj srcMap) dst) src)"
| "deepMergeInto dst ((k, v) # src) = deepMergeInto (gm_set k v dst) src"

text \<open>The value one key of the source leaves in the destination.\<close>

definition merge_value :: "json option \<Rightarrow> json \<Rightarrow> json" where
  "merge_value old v =
     (case v of JObj srcMap \<Rightarrow>
        (case old of Some (JObj dstMap) \<Rightarrow> JObj (deepMergeInto dstMap srcMap) | _ \<Rightarrow> v)
      | _ \<Rightarrow> v)"

lemma deepMergeInto_Cons:
  "deepMergeInto dst ((k, v) # src) = deepMergeInto (gm_set k (merge_value (gm_get dst k) v) dst) src"
  by (cases v) (auto simp: merge_value_def split: option.split json.split)

lemma deepMergeInto_get:
  "gm_wf src \<Longrightarrow> gm_get (deepMergeInto dst src) k =
     (case gm_get src k of
        None \<Rightarrow> gm_get dst k
      | Some v \<Rightarrow> Some (merge_value (gm_get dst k) v))"
proof (induction src arbitrary: dst)
  case Nil
  then show ?case by simp
next
  case (Cons kv src)
  obtain k' v' where kv: "kv = (k', v')" by (cases kv)
  from Cons have "gm_get (deepMergeInto dst (kv # src)) k =
    (case gm_get src k of
        None \<Rightarrow> gm_get (gm_set k' (merge_value (gm_get dst k') v') dst) k
      | Some v \<Rightarrow> Some (merge_value (gm_get (gm_set k' (merge_value (gm_get dst k') v') dst) k) v))"
    by (simp add: kv deepMergeInto_Cons)
  moreover have "gm_get src k' = None"
    using Cons.prems by (simp add: kv gm_get_None_iff)
  ultimately show ?case
    by (auto simp: kv gomap_simps split: option.split)
qed

lemma deepMergeInto_induct [case_names Nil Cons]:
  assumes Nil: "\<And>dst. P dst []"
    and Cons: "\<And>dst k v src.
      \<lbrakk>\<And>dm sm. gm_get dst k = Some (JObj dm) \<Longrightarrow> v = JObj sm \<Longrightarrow> P dm sm;
       P (gm_set k (merge_value (gm_get dst k) v) dst) src\<rbrakk> \<Longrightarrow> P dst ((k, v) # src)"
  shows "P dst src"
proof (induction "size_list (\<lambda>kv. size (snd kv)) src" arbitrary: dst src rule: less_induct)
  case less
  show ?case
  proof (cases src)
    case Nil
    then show ?thesis using assms(1) by simp
  next
    case (Cons kv src')
    obtain k v where kv: "kv = (k, v)" by (cases kv)
    have "P dm sm" if "v = JObj sm" for dm sm
    proof (rule less)
      have "size_list (\<lambda>kv. size (snd kv)) sm \<le> size_list (size_prod (\<lambda>_. 0) size) sm"
      proof (rule size_list_pointwise)
        show "size (snd x) \<le> size_prod (\<lambda>_. 0) size x" for x :: "string \<times> json"
          by (cases x) simp
      qed
      then show "size_list (\<lambda>kv. size (snd kv)) sm < size_list (\<lambda>kv. size (snd kv)) src"
        by (simp add: Cons kv that)
    qed
    moreover have "P (gm_set k (merge_value (gm_get dst k) v) dst) src'"
      by (rule less) (simp add: Cons kv)
    ultimately show ?thesis unfolding Cons kv by (intro assms(2)) auto
  qed
qed

declare json_wf.simps(2) [simp del]

lemma json_wf_obj_Nil [simp]: "json_wf (JObj [])"
  by (simp add: json_wf.simps(2))

lemma json_wf_obj_Cons [simp]:
  "json_wf (JObj ((k, v) # m)) \<longleftrightarrow> k \<notin> fst ` set m \<and> json_wf v \<and> json_wf (JObj m)"
  by (auto simp: json_wf.simps(2))

lemma json_wf_obj_keys: "json_wf (JObj m) \<Longrightarrow> gm_wf m"
  by (simp add: json_wf.simps(2))

lemma deepMergeInto_wf:
  "json_wf (JObj dst) \<Longrightarrow> json_wf (JObj src) \<Longrightarrow> json_wf (JObj (deepMergeInto dst src))"
proof (induction dst src rule: deepMergeInto_induct)
  case (Nil dst)
  then show ?case by simp
next
  case (Cons dst k v src)
  have "json_wf (merge_value (gm_get dst k) v)"
  proof (cases "\<exists>dm sm. gm_get dst k = Some (JObj dm) \<and> v = JObj sm")
    case True
    then obtain dm sm where dm: "gm_get dst k = Some (JObj dm)" and v: "v = JObj sm" by blast
    have "json_wf (JObj (deepMergeInto dm sm))"
      by (rule Cons.IH(1) [OF dm v]) (use json_wf_get [OF Cons.prems(1) dm] Cons.prems(2) v in simp_all)
    then show ?thesis by (simp add: merge_value_def dm v)
  next
    case False
    then have "merge_value (gm_get dst k) v = v"
      by (auto simp: merge_value_def split: json.split option.split)
    with Cons.prems show ?thesis by simp
  qed
  with Cons show ?case by (simp add: deepMergeInto_Cons json_wf_set)
qed

section \<open>Paths\<close>

fun jpath :: "json \<Rightarrow> string list \<Rightarrow> json option" where
  "jpath v [] = Some v"
| "jpath (JObj m) (k # p) = (case gm_get m k of None \<Rightarrow> None | Some v \<Rightarrow> jpath v p)"
| "jpath _ (k # p) = None"

lemma jpath_not_obj: "\<not> is_obj v \<Longrightarrow> jpath v p = Some w \<Longrightarrow> p = [] \<and> w = v"
  by (cases "(v, p)" rule: jpath.cases) auto

text \<open>The source wins at each of its leaves.\<close>

lemma deepMergeInto_leaf:
  assumes "json_wf (JObj src)" and "jpath (JObj src) p = Some v" and "\<not> is_obj v"
  shows "jpath (JObj (deepMergeInto dst src)) p = Some v"
  using assms
proof (induction p arbitrary: dst src)
  case Nil
  then show ?case by auto
next
  case (Cons k p)
  then obtain w where w: "gm_get src k = Some w" and wp: "jpath w p = Some v"
    by (auto split: option.splits)
  have "jpath (merge_value (gm_get dst k) w) p = Some v"
  proof (cases "\<exists>dm sm. gm_get dst k = Some (JObj dm) \<and> w = JObj sm")
    case True
    then obtain dm sm where *: "gm_get dst k = Some (JObj dm)" "w = JObj sm" by blast
    with Cons.IH [of sm dm] Cons.prems w wp show ?thesis
      by (auto simp: merge_value_def dest: json_wf_get)
  next
    case False
    then have "merge_value (gm_get dst k) w = w"
      by (auto simp: merge_value_def split: json.split option.split)
    with wp show ?thesis by simp
  qed
  with w Cons.prems show ?case
    by (simp add: deepMergeInto_get json_wf_obj_keys)
qed

text \<open>Whatever the source does not mention is kept: no prefix of the path is a leaf of the source.\<close>

lemma deepMergeInto_keeps:
  assumes "json_wf (JObj src)" and "jpath (JObj dst) p = Some v"
    and "jpath (JObj src) p = None"
    and "\<And>q w. prefix q p \<Longrightarrow> jpath (JObj src) q = Some w \<Longrightarrow> is_obj w"
  shows "jpath (JObj (deepMergeInto dst src)) p = Some v"
  using assms
proof (induction p arbitrary: dst src)
  case Nil
  then show ?case by auto
next
  case (Cons k p)
  then obtain d where d: "gm_get dst k = Some d" and dp: "jpath d p = Some v"
    by (auto split: option.splits)
  show ?case
  proof (cases "gm_get src k")
    case None
    with Cons.prems d dp show ?thesis by (simp add: deepMergeInto_get json_wf_obj_keys)
  next
    case (Some w)
    then have "is_obj w" using Cons.prems(4) [of "[k]" w] by simp
    then obtain sm where w: "w = JObj sm" by (cases w) auto
    with Some Cons.prems(3) have "jpath (JObj sm) p = None" by simp
    then have "p \<noteq> []" by auto
    then obtain dm where dm: "d = JObj dm"
      using dp by (cases d; cases p) auto
    have "is_obj x" if "prefix q p" "jpath (JObj sm) q = Some x" for q x
      using Cons.prems(4) [of "k # q" x] that Some w by simp
    with Cons.IH [of sm dm] Cons.prems(1) \<open>jpath (JObj sm) p = None\<close> dp dm Some w
    have "jpath (JObj (deepMergeInto dm sm)) p = Some v"
      by (auto dest: json_wf_get)
    then show ?thesis
      using Cons.prems(1) d dm Some w
      by (simp add: deepMergeInto_get json_wf_obj_keys merge_value_def)
  qed
qed

section \<open>Merging again changes nothing\<close>

lemma deepMergeInto_absorbed:
  "(\<And>k v. (k, v) \<in> set src \<Longrightarrow> gm_get dst k = Some (merge_value (gm_get dst k) v)) \<Longrightarrow>
     deepMergeInto dst src = dst"
proof (induction src)
  case Nil
  then show ?case by simp
next
  case (Cons kv src)
  obtain k v where kv: "kv = (k, v)" by (cases kv)
  have "gm_get dst k = Some (merge_value (gm_get dst k) v)"
    by (rule Cons.prems) (simp add: kv)
  then have "gm_set k (merge_value (gm_get dst k) v) dst = dst"
    by (rule update_triv)
  with Cons show ?case by (simp add: kv deepMergeInto_Cons)
qed

lemma merge_value_self: "json_wf v \<Longrightarrow> merge_value (Some v) v = v"
proof (induction v)
  case (JObj m)
  have "gm_get m k = Some (merge_value (gm_get m k) v)" if "(k, v) \<in> set m" for k v
  proof -
    from that JObj.prems have "gm_get m k = Some v"
      by (simp add: gm_get_iff json_wf_obj_keys)
    moreover from this JObj.prems have "json_wf v" by (rule json_wf_get [rotated])
    with JObj.IH [OF that, of v] have "merge_value (Some v) v = v" by simp
    ultimately show ?thesis by simp
  qed
  then have "deepMergeInto m m = m" by (rule deepMergeInto_absorbed)
  then show ?case by (simp add: merge_value_def)
qed (simp_all add: merge_value_def)

lemma merge_value_idem: "json_wf v \<Longrightarrow> merge_value (Some (merge_value old v)) v = merge_value old v"
proof (induction v arbitrary: old)
  case (JObj m)
  show ?case
  proof (cases "\<exists>d. old = Some (JObj d)")
    case False
    then have "merge_value old (JObj m) = JObj m"
      by (auto simp: merge_value_def split: option.split json.split)
    with JObj.prems show ?thesis by (simp add: merge_value_self)
  next
    case True
    then obtain d where d: "old = Some (JObj d)" by blast
    let ?r = "deepMergeInto d m"
    have "gm_get ?r k = Some (merge_value (gm_get ?r k) v)" if "(k, v) \<in> set m" for k v
    proof -
      from that JObj.prems have m: "gm_get m k = Some v"
        by (simp add: gm_get_iff json_wf_obj_keys)
      then have "json_wf v" using JObj.prems by (rule json_wf_get [rotated])
      with JObj.IH [OF that, of v] m JObj.prems show ?thesis
        by (simp add: deepMergeInto_get json_wf_obj_keys)
    qed
    then have "deepMergeInto ?r m = ?r" by (rule deepMergeInto_absorbed)
    with d show ?thesis by (simp add: merge_value_def)
  qed
qed (simp_all add: merge_value_def)

lemma deepMergeInto_idem:
  assumes "json_wf (JObj src)"
  shows "deepMergeInto (deepMergeInto dst src) src = deepMergeInto dst src"
  using merge_value_idem [OF assms, of "Some (JObj dst)"] by (simp add: merge_value_def)

section \<open>Properties\<close>

text \<open>
  C32: injected settings are merged deeply. After merging \<open>src\<close> into \<open>dst\<close>, every scalar or list of
  \<open>src\<close> is found at its path; every value of \<open>dst\<close> at a path that \<open>src\<close> does not reach, and that no
  scalar of \<open>src\<close> cuts off, is still there; and merging the same settings again changes nothing.
\<close>

theorem deepMergeInto_merges:
  assumes "json_wf (JObj src)"
  shows "(\<forall>p v. jpath (JObj src) p = Some v \<and> \<not> is_obj v \<longrightarrow>
       jpath (JObj (deepMergeInto dst src)) p = Some v) \<and>
    (\<forall>p v. jpath (JObj dst) p = Some v \<and> jpath (JObj src) p = None \<and>
       (\<forall>q w. prefix q p \<and> jpath (JObj src) q = Some w \<longrightarrow> is_obj w) \<longrightarrow>
       jpath (JObj (deepMergeInto dst src)) p = Some v) \<and>
    deepMergeInto (deepMergeInto dst src) src = deepMergeInto dst src"
  using deepMergeInto_leaf [OF assms] deepMergeInto_keeps [OF assms] deepMergeInto_idem [OF assms]
  by blast

theorem deepMergeInto_merges_witness:
  "jpath (JObj (deepMergeInto [(''k'', JObj [(''a'', JNum 1), (''b'', JNum 2)])] [(''k'', JObj [(''b'', JNum 3)])]))
     [''k'', ''b''] = Some (JNum 3) \<and>
   jpath (JObj (deepMergeInto [(''k'', JObj [(''a'', JNum 1), (''b'', JNum 2)])] [(''k'', JObj [(''b'', JNum 3)])]))
     [''k'', ''a''] = Some (JNum 1)"
proof -
  let ?dst = "[(''k'', JObj [(''a'', JNum 1), (''b'', JNum 2)])]" and ?src = "[(''k'', JObj [(''b'', JNum 3)])]"
  have "json_wf (JObj ?src)" by simp
  note merges = deepMergeInto_merges [OF this, of ?dst]
  have "is_obj w" if "prefix q [''k'', ''a'']" "jpath (JObj ?src) q = Some w" for q w
    using that by (auto simp: prefix_Cons split: if_splits)
  then show ?thesis
    using merges [THEN conjunct1, rule_format, of "[''k'', ''b'']" "JNum 3"]
      merges [THEN conjunct2, THEN conjunct1, rule_format, of "[''k'', ''a'']" "JNum 1"] by simp
qed

end
