(* ===== verification/Http_Header.thy ===== *)
theory Http_Header
  imports Go_Prelude
begin

text \<open>
  The part of \<open>net/http\<close>'s \<open>Header\<close> that the proxy uses: a map from canonical names to lists of
  values, read and written through names in any capitalisation.
\<close>

type_synonym header = "(string, string list) gomap"

definition ascii_upper :: "char \<Rightarrow> char" where
  "ascii_upper c =
     (if 97 \<le> (of_char c :: nat) \<and> (of_char c :: nat) \<le> 122
      then char_of ((of_char c :: nat) - 32) else c)"

text \<open>The token characters of a header name (RFC 7230).\<close>

definition header_token_char :: "char \<Rightarrow> bool" where
  "header_token_char c \<longleftrightarrow>
     c \<in> set ''!#$%&*+-.^_`|~0123456789abcdefghijklmnopqrstuvwxyzABCDEFGHIJKLMNOPQRSTUVWXYZ'' \<or>
     c = CHR 0x27"

fun canonical_from :: "bool \<Rightarrow> string \<Rightarrow> string" where
  "canonical_from upper [] = []"
| "canonical_from upper (c # cs) =
     (if upper then ascii_upper c else ascii_lower c) # canonical_from (c = CHR ''-'') cs"

definition CanonicalHeaderKey :: "string \<Rightarrow> string" where
  "CanonicalHeaderKey s = (if list_all header_token_char s then canonical_from True s else s)"

definition header_Get :: "header \<Rightarrow> string \<Rightarrow> string" where
  "header_Get h name =
     (case gm_get h (CanonicalHeaderKey name) of
        Some (v # _) \<Rightarrow> v
      | _ \<Rightarrow> '''')"

definition header_Set :: "string \<Rightarrow> string \<Rightarrow> header \<Rightarrow> header" where
  "header_Set name v h = gm_set (CanonicalHeaderKey name) [v] h"

definition header_Add :: "string \<Rightarrow> string \<Rightarrow> header \<Rightarrow> header" where
  "header_Add name v h =
     (let k = CanonicalHeaderKey name in
      gm_set k (case gm_get h k of None \<Rightarrow> [v] | Some vs \<Rightarrow> vs @ [v]) h)"

definition header_Del :: "string \<Rightarrow> header \<Rightarrow> header" where
  "header_Del name h = gm_del (CanonicalHeaderKey name) h"

lemma ascii_case_idem [simp]:
  "ascii_upper (ascii_upper c) = ascii_upper c" "ascii_upper (ascii_lower c) = ascii_upper c"
  "ascii_lower (ascii_upper c) = ascii_lower c" "ascii_lower (ascii_lower c) = ascii_lower c"
  by (auto simp: ascii_upper_def ascii_lower_def)

lemma ascii_case_dash [simp]:
  "ascii_upper c = CHR ''-'' \<longleftrightarrow> c = CHR ''-''" "ascii_lower c = CHR ''-'' \<longleftrightarrow> c = CHR ''-''"
  by (auto simp: ascii_upper_def ascii_lower_def dest: arg_cong [where f = "of_char :: char \<Rightarrow> nat"])

lemma canonical_from_idem: "canonical_from u (canonical_from u s) = canonical_from u s"
  by (induction u s rule: canonical_from.induct) auto

lemma header_Get_Set [simp]:
  "header_Get (header_Set name v h) name' =
     (if CanonicalHeaderKey name' = CanonicalHeaderKey name then v else header_Get h name')"
  by (simp add: header_Get_def header_Set_def gomap_simps)

lemma header_Get_Del [simp]:
  "header_Get (header_Del name h) name' =
     (if CanonicalHeaderKey name' = CanonicalHeaderKey name then '''' else header_Get h name')"
  by (simp add: header_Get_def header_Del_def gomap_simps)

end
