(* ===== verification/Affinity_Key.thy ===== *)
theory Affinity_Key
  imports Json_Values Http_Header "HOL-Library.Word"
begin

text \<open>
  Affinity keys (\<open>internal/balancer/affinity_key.go\<close>): the FNV-64a hash on 64-bit words, the key
  of a conversation computed from its first user message, and the key read from a request header.

  Slicing \<open>content[:maxBytes]\<close> panics for a negative bound: \<open>FirstUserMessageKey\<close> is \<open>None\<close> there.
\<close>

unbundle bit_operations_syntax

section \<open>Definitions\<close>

definition fnv_offset64 :: "64 word" where
  "fnv_offset64 = 14695981039346656037"

definition fnv_prime64 :: "64 word" where
  "fnv_prime64 = 1099511628211"

definition fnv_step :: "64 word \<Rightarrow> char \<Rightarrow> 64 word" where
  "fnv_step h b = (h XOR of_nat (of_char b)) * fnv_prime64"

definition fnv64a :: "string \<Rightarrow> 64 word" where
  "fnv64a data = foldl fnv_step fnv_offset64 data"

text \<open>\<open>strconv.FormatUint(h, 16)\<close>: no padding.\<close>

definition hex_digit :: "nat \<Rightarrow> char" where
  "hex_digit d = (if d < 10 then char_of (48 + d) else char_of (87 + d))"

fun format_hex :: "nat \<Rightarrow> string" where
  "format_hex n = (if n < 16 then [hex_digit n] else format_hex (n div 16) @ [hex_digit (n mod 16)])"

declare format_hex.simps [simp del]

definition FormatUint16 :: "64 word \<Rightarrow> string" where
  "FormatUint16 h = format_hex (unat h)"

definition stringifyContent :: "obj \<Rightarrow> string" where
  "stringifyContent msg =
     (case gm_get msg ''content'' of
        Some (JStr s) \<Rightarrow> s
      | Some (JArr parts) \<Rightarrow>
          concat (map (\<lambda>p. case p of
              JObj part \<Rightarrow>
                (if gm_get part ''type'' = Some (JStr ''text'') then or_zero (get_str part ''text'') '''' else '''')
            | _ \<Rightarrow> '''') parts)
      | _ \<Rightarrow> '''')"

fun first_user_key :: "json list \<Rightarrow> int \<Rightarrow> string option" where
  "first_user_key [] maxBytes = Some ''''"
| "first_user_key (raw # messages) maxBytes =
     (case raw of
        JObj msg \<Rightarrow>
          (if or_zero (get_str msg ''role'') '''' \<noteq> ''user'' then first_user_key messages maxBytes
           else
             (let content = stringifyContent msg in
              if int (length content) > maxBytes
              then (if maxBytes < 0 then None
                    else Some (FormatUint16 (fnv64a (take (nat maxBytes) content))))
              else Some (FormatUint16 (fnv64a content))))
      | _ \<Rightarrow> first_user_key messages maxBytes)"

definition FirstUserMessageKey :: "obj \<Rightarrow> int \<Rightarrow> string option" where
  "FirstUserMessageKey body maxBytes =
     (case get_arr body ''messages'' of
        None \<Rightarrow> Some ''''
      | Some messages \<Rightarrow> (if messages = [] then Some '''' else first_user_key messages maxBytes))"

definition HeaderAffinityKey :: "(string \<Rightarrow> string) \<Rightarrow> header \<Rightarrow> string \<Rightarrow> string" where
  "HeaderAffinityKey ulow h name = TrimSpace (ToLower ulow (header_Get h name))"

section \<open>Hexadecimal rendering\<close>

lemma hex_digit_inj: "hex_digit d = hex_digit e \<Longrightarrow> d < 16 \<Longrightarrow> e < 16 \<Longrightarrow> d = e"
  by (auto simp: hex_digit_def split: if_splits dest!: arg_cong [where f = "of_char :: char \<Rightarrow> nat"])

lemma format_hex_not_Nil [simp]: "format_hex n \<noteq> []"
  by (subst format_hex.simps) simp

lemma format_hex_small: "n < 16 \<Longrightarrow> format_hex n = [hex_digit n]"
  by (subst format_hex.simps) simp

lemma format_hex_large: "16 \<le> n \<Longrightarrow> format_hex n = format_hex (n div 16) @ [hex_digit (n mod 16)]"
  by (subst format_hex.simps) simp

lemma format_hex_inj: "format_hex m = format_hex n \<Longrightarrow> m = n"
proof (induction m arbitrary: n rule: less_induct)
  case (less m)
  show ?case
  proof (cases "m < 16 \<or> n < 16")
    case True
    have "length (format_hex k) = 1 \<longleftrightarrow> k < 16" for k
      by (cases "k < 16") (simp_all add: format_hex_small format_hex_large)
    with True less.prems have "m < 16" "n < 16" by metis+
    with less.prems show ?thesis by (simp add: format_hex_small hex_digit_inj)
  next
    case False
    with less.prems have "format_hex (m div 16) = format_hex (n div 16)"
      and last: "hex_digit (m mod 16) = hex_digit (n mod 16)"
      by (simp_all add: format_hex_large)
    with False less.IH [of "m div 16" "n div 16"] have "m div 16 = n div 16" by simp
    moreover from last have "m mod 16 = n mod 16" by (rule hex_digit_inj) simp_all
    ultimately show ?thesis by (metis div_mult_mod_eq)
  qed
qed

lemma format_hex_length: "n < 16 ^ Suc k \<Longrightarrow> length (format_hex n) \<le> Suc k"
proof (induction k arbitrary: n)
  case 0
  then show ?case by (simp add: format_hex_small)
next
  case (Suc k)
  then have "n div 16 < 16 ^ Suc k" by (simp add: less_mult_imp_div_less)
  with Suc.IH [of "n div 16"] show ?case
    by (cases "n < 16") (simp_all add: format_hex_small format_hex_large)
qed

lemma FormatUint16_inj [simp]: "FormatUint16 x = FormatUint16 y \<longleftrightarrow> x = y"
  unfolding FormatUint16_def by (metis format_hex_inj word_unat_eq_iff)

lemma FormatUint16_not_Nil [simp]: "FormatUint16 x \<noteq> []"
  by (simp add: FormatUint16_def)

lemma FormatUint16_length: "length (FormatUint16 x) \<le> 16"
proof -
  have "unat x < 16 ^ Suc 15" using unsigned_less [of x, where ?'a = nat] by simp
  then show ?thesis unfolding FormatUint16_def by (rule format_hex_length [THEN order_trans]) simp
qed

section \<open>The hash separates inputs that differ in one byte\<close>

lemma fnv_prime_unit: "fnv_prime64 * 14886173955864302971 = 1"
  by (simp add: fnv_prime64_def)

lemma fnv_mult_inj: "x * fnv_prime64 = y * fnv_prime64 \<Longrightarrow> x = y"
proof -
  assume "x * fnv_prime64 = y * fnv_prime64"
  then have "x * (fnv_prime64 * 14886173955864302971) = y * (fnv_prime64 * 14886173955864302971)"
    by (simp only: mult.assoc [symmetric])
  then show "x = y" by (simp only: fnv_prime_unit mult_1_right)
qed

lemma word_xor_cancel: "x XOR y = x XOR z \<longleftrightarrow> y = z" "y XOR x = z XOR x \<longleftrightarrow> y = z"
  for x y z :: "64 word"
  by (auto simp: bit_eq_iff bit_xor_iff)

lemma byte_word_inj: "(of_nat (of_char b) :: 64 word) = of_nat (of_char c) \<longleftrightarrow> b = c"
proof -
  have "unat (of_nat (of_char d) :: 64 word) = of_char d" for d :: char
    by (simp add: unat_of_nat take_bit_nat_eq_self nat_of_char_less_256 [THEN less_trans])
  then show ?thesis by (metis of_char_eq_iff)
qed

lemma fnv_step_inj: "fnv_step h b = fnv_step h' b \<longleftrightarrow> h = h'" "fnv_step h b = fnv_step h c \<longleftrightarrow> b = c"
  by (auto simp: fnv_step_def word_xor_cancel byte_word_inj dest!: fnv_mult_inj)

lemma fnv_fold_inj: "foldl fnv_step h data = foldl fnv_step h' data \<longleftrightarrow> h = h'"
  by (induction data arbitrary: h h') (simp_all add: fnv_step_inj)

lemma fnv64a_one_byte:
  "fnv64a (pre @ b # post) = fnv64a (pre @ c # post) \<longleftrightarrow> b = c"
  by (simp add: fnv64a_def fnv_fold_inj fnv_step_inj)

section \<open>The key of a conversation\<close>

text \<open>A message of the list that \<open>FirstUserMessageKey\<close> hashes.\<close>

definition is_user_message :: "json \<Rightarrow> bool" where
  "is_user_message raw = (case raw of JObj msg \<Rightarrow> get_str msg ''role'' = Some ''user'' | _ \<Rightarrow> False)"

definition content_key :: "int \<Rightarrow> json \<Rightarrow> string" where
  "content_key maxBytes raw =
     (case raw of JObj msg \<Rightarrow> FormatUint16 (fnv64a (take (nat maxBytes) (stringifyContent msg))) | _ \<Rightarrow> '''')"

lemma first_user_key_find:
  assumes "0 \<le> maxBytes"
  shows "first_user_key messages maxBytes =
    Some (case find is_user_message messages of None \<Rightarrow> '''' | Some raw \<Rightarrow> content_key maxBytes raw)"
proof (induction messages)
  case Nil
  then show ?case by simp
next
  case (Cons raw messages)
  with assms show ?case
    by (cases raw; cases "get_str (case raw of JObj m \<Rightarrow> m) ''role''")
      (auto simp: is_user_message_def content_key_def Let_def)
qed

lemma FirstUserMessageKey_find:
  assumes "0 \<le> maxBytes"
  shows "FirstUserMessageKey body maxBytes =
    Some (case find is_user_message (or_zero (get_arr body ''messages'') []) of
            None \<Rightarrow> '''' | Some raw \<Rightarrow> content_key maxBytes raw)"
  by (auto simp: FirstUserMessageKey_def first_user_key_find [OF assms] split: option.split)

lemma find_append: "find P (xs @ ys) = (case find P xs of None \<Rightarrow> find P ys | Some x \<Rightarrow> Some x)"
  by (induction xs) auto


section \<open>Properties\<close>

text \<open>
  The key of a conversation is stable. Once a request holds a user message, appending further
  turns, or changing anything else of the body, never changes its key, and the key is not empty
  and has at most 16 characters, so every later turn looks up the same pin.
\<close>

theorem FirstUserMessageKey_session:
  assumes "0 \<le> maxBytes" and "get_arr body ''messages'' = Some ms" and "m \<in> set ms"
    and "is_user_message m" and "get_arr body' ''messages'' = Some (ms @ more)"
  shows "\<exists>key. FirstUserMessageKey body maxBytes = Some key \<and>
    FirstUserMessageKey body' maxBytes = Some key \<and> key \<noteq> '''' \<and> length key \<le> 16"
proof -
  obtain raw where raw: "find is_user_message ms = Some raw"
    using assms(3,4) by (metis find_None_iff not_None_eq)
  then have "is_user_message raw" by (simp add: find_SomeD)
  then have "content_key maxBytes raw \<noteq> ''''" and "length (content_key maxBytes raw) \<le> 16"
    by (auto simp: content_key_def is_user_message_def FormatUint16_length split: json.splits)
  then show ?thesis
    using raw assms by (simp add: FirstUserMessageKey_find find_append)
qed

theorem FirstUserMessageKey_session_witness:
  "\<exists>key. FirstUserMessageKey [(''messages'', JArr [JObj [(''role'', JStr ''system'')],
       JObj [(''role'', JStr ''user''), (''content'', JStr ''hi'')]])] 8192 = Some key \<and>
     FirstUserMessageKey [(''model'', JStr ''m''), (''messages'', JArr [JObj [(''role'', JStr ''system'')],
       JObj [(''role'', JStr ''user''), (''content'', JStr ''hi'')], JObj [(''role'', JStr ''assistant'')]])] 8192 =
       Some key \<and> key \<noteq> ''''"
  using FirstUserMessageKey_session [of 8192
      "[(''messages'', JArr [JObj [(''role'', JStr ''system'')],
         JObj [(''role'', JStr ''user''), (''content'', JStr ''hi'')]])]"
      "[JObj [(''role'', JStr ''system'')], JObj [(''role'', JStr ''user''), (''content'', JStr ''hi'')]]"
      "JObj [(''role'', JStr ''user''), (''content'', JStr ''hi'')]"
      "[(''model'', JStr ''m''), (''messages'', JArr [JObj [(''role'', JStr ''system'')],
         JObj [(''role'', JStr ''user''), (''content'', JStr ''hi'')], JObj [(''role'', JStr ''assistant'')]])]"
      "[JObj [(''role'', JStr ''assistant'')]]"]
  by (simp add: is_user_message_def) blast

text \<open>
  Conversations whose opening contents differ in one byte within the hashed prefix have
  different keys. The hash is on 64-bit words with wrap-around; each of its steps is a bijection.
\<close>

theorem FirstUserMessageKey_separates:
  assumes "find is_user_message (or_zero (get_arr body ''messages'') []) = Some (JObj msg)"
    and "find is_user_message (or_zero (get_arr body' ''messages'') []) = Some (JObj msg')"
    and "stringifyContent msg = pre @ b # post" and "stringifyContent msg' = pre @ c # post"
    and "int (length pre) < maxBytes" and "b \<noteq> c"
  shows "FirstUserMessageKey body maxBytes \<noteq> FirstUserMessageKey body' maxBytes"
proof -
  have "take (nat maxBytes) (pre @ x # post) = pre @ x # take (nat maxBytes - length pre - 1) post" for x
    using assms(5) by (simp add: take_Cons' nat_less_iff)
  with assms show ?thesis
    by (simp add: FirstUserMessageKey_find content_key_def fnv64a_one_byte)
qed

theorem FirstUserMessageKey_separates_witness:
  "FirstUserMessageKey [(''messages'', JArr [JObj [(''role'', JStr ''user''), (''content'', JStr ''fix a'')]])] 8192 \<noteq>
   FirstUserMessageKey [(''messages'', JArr [JObj [(''role'', JStr ''user''), (''content'', JStr ''fix b'')]])] 8192"
  by (rule FirstUserMessageKey_separates
      [of _ "[(''role'', JStr ''user''), (''content'', JStr ''fix a'')]"
        _ "[(''role'', JStr ''user''), (''content'', JStr ''fix b'')]" "''fix ''" "CHR ''a''" "''''" "CHR ''b''"])
    (simp_all add: is_user_message_def stringifyContent_def)

end
