(* ===== verification/Load_Selection.thy ===== *)
theory Load_Selection
  imports Backend_State Affinity_Store Affinity_Key
begin

text \<open>
  Backend selection (\<open>internal/balancer/select.go\<close>, \<open>simple_selectors.go\<close>,
  \<open>sticky_selector.go\<close>, \<open>request_context.go\<close>): the load score, the least-loaded choice and the
  four implementations of the \<open>Selector\<close> interface.

  A \<open>Select\<close> reads the clock several times; the model gives it one instant. \<open>pool[0]\<close> of an empty
  pool panics in the code: \<open>pickLeastLoaded\<close> is \<open>None\<close> there, and the selectors turn that into the
  error \<open>RuntimePanic\<close>, which is proved unreachable. The contract of the interface is the locale
  \<open>selector\<close>, interpreted on all implementations; stickiness is proved inside the contract of the
  affinity store, so that it holds for any implementation of that interface.
\<close>

section \<open>Load score and least-loaded choice\<close>

record RequestContext =
  ctx_AffinityKey :: string
  ctx_IsStreaming :: bool
  ctx_EstimatedSize :: int
  ctx_StaleThreshold :: duration

datatype sel_error = ErrNoHealthyBackend | UnknownGroup string | RuntimePanic

definition loadScore :: "time \<Rightarrow> duration \<Rightarrow> BackendState \<Rightarrow> real" where
  "loadScore now staleThreshold b =
     (let load0 = GetEffectiveLoad now staleThreshold b;
          load1 =
            (if MetricsAvailable b then
               (if time_since now (LastMetricsUpdate b) < staleThreshold \<and> KVCachePct b > 0
                then load0 + KVCachePct b * 2 else load0)
             else load0);
          load2 =
            (case Flow b of
               None \<Rightarrow> load1
             | Some fs \<Rightarrow>
                 (let stats = flow_GetStats now fs;
                      stalenessPenalty = (1 - SuccessRate stats) * 2;
                      failurePenalty =
                        (if Dispatched stats > 0
                         then real_of_int (Timeout stats) / real_of_int (Dispatched stats) * 3 else 0);
                      stallPenalty = real_of_int (Stalled stats) * 3
                  in load1 * (1 + stalenessPenalty) * (1 + failurePenalty) + stallPenalty))
      in if Weight b > 0 then load2 / real_of_int (Weight b) else load2)"

fun tied_scan :: "time \<Rightarrow> duration \<Rightarrow> BackendState list \<Rightarrow> real \<Rightarrow> BackendState list \<Rightarrow> BackendState list" where
  "tied_scan now staleThreshold [] bestScore tied = tied"
| "tied_scan now staleThreshold (b # pool) bestScore tied =
     (let score = loadScore now staleThreshold b in
      if score < bestScore then tied_scan now staleThreshold pool score [b]
      else if score = bestScore then tied_scan now staleThreshold pool bestScore (tied @ [b])
      else tied_scan now staleThreshold pool bestScore tied)"

definition pickLeastLoaded :: "time \<Rightarrow> BackendState list \<Rightarrow> duration \<Rightarrow> 64 word \<Rightarrow> BackendState option" where
  "pickLeastLoaded now pool staleThreshold keyHash =
     (case pool of
        [] \<Rightarrow> None
      | b # rest \<Rightarrow>
          (let tied = tied_scan now staleThreshold rest (loadScore now staleThreshold b) [b] in
           if length tied = 1 \<or> keyHash = 0 then Some (tied ! 0)
           else Some (tied ! (unat keyHash mod length tied))))"

definition isOverloaded :: "time \<Rightarrow> BackendState \<Rightarrow> int \<Rightarrow> real \<Rightarrow> duration \<Rightarrow> bool" where
  "isOverloaded now b maxConcurrency kvCachePct staleThreshold =
     (if maxConcurrency > 0 \<and> InFlight b \<ge> maxConcurrency then True
      else if kvCachePct > 0 \<and> IsOverloadedByMetrics now kvCachePct staleThreshold b then True
      else (case Flow b of
              None \<Rightarrow> False
            | Some fs \<Rightarrow> Stalled (flow_GetStats now fs) > 10))"

section \<open>The selectors\<close>

definition singleSelector_Select ::
  "BackendState list \<Rightarrow> sel_error + BackendState" where
  "singleSelector_Select pool = (if pool = [] then Inl ErrNoHealthyBackend else Inr (pool ! 0))"

definition roundRobinSelector_Select ::
  "64 word \<Rightarrow> BackendState list \<Rightarrow> (sel_error + BackendState) \<times> 64 word" where
  "roundRobinSelector_Select counter pool =
     (if pool = [] then (Inl ErrNoHealthyBackend, counter)
      else (let counter' = counter + 1; idx = counter' - 1
            in (Inr (pool ! (unat idx mod length pool)), counter')))"

definition effective_threshold :: "duration \<Rightarrow> RequestContext option \<Rightarrow> duration" where
  "effective_threshold d ctx =
     (case ctx of
        None \<Rightarrow> d
      | Some c \<Rightarrow> (if ctx_StaleThreshold c > 0 then ctx_StaleThreshold c else d))"

definition leastLoadedSelector_Select ::
  "time \<Rightarrow> BackendState list \<Rightarrow> RequestContext option \<Rightarrow> sel_error + BackendState" where
  "leastLoadedSelector_Select now pool ctx =
     (if pool = [] then Inl ErrNoHealthyBackend
      else (case pickLeastLoaded now pool (effective_threshold (seconds 30) ctx) 0 of
              None \<Rightarrow> Inl RuntimePanic
            | Some b \<Rightarrow> Inr b))"

record 's StickyLeastLoaded =
  sl_store :: 's
  sl_maxConcurrency :: int
  sl_kvCachePct :: real
  sl_staleThreshold :: duration

definition NewStickyLeastLoaded :: "'s \<Rightarrow> int \<Rightarrow> real \<Rightarrow> duration \<Rightarrow> 's StickyLeastLoaded" where
  "NewStickyLeastLoaded store maxConcurrency kvCachePct staleThreshold =
     \<lparr>sl_store = store, sl_maxConcurrency = maxConcurrency, sl_kvCachePct = kvCachePct,
      sl_staleThreshold = staleThreshold\<rparr>"

definition findByID :: "BackendState list \<Rightarrow> string \<Rightarrow> BackendState option" where
  "findByID pool i = find (\<lambda>b. ID b = i) pool"

text \<open>
  The pinned backend, when the key has a live pin whose backend is in the pool, is not in its
  failure cooldown and is not overloaded: the first half of \<open>Select\<close> (lines 37 to 60).
\<close>

definition sticky_pinned ::
  "(time \<Rightarrow> 's \<Rightarrow> string \<Rightarrow> AffinityEntry option) \<Rightarrow>
   time \<Rightarrow> 's StickyLeastLoaded \<Rightarrow> BackendState list \<Rightarrow> string \<Rightarrow> duration \<Rightarrow> BackendState option" where
  "sticky_pinned sget now s pool key staleThreshold =
     (if key \<noteq> '''' then
        (case sget now (sl_store s) key of
           None \<Rightarrow> None
         | Some entry \<Rightarrow>
             (case findByID pool (BackendID entry) of
                None \<Rightarrow> None
              | Some pinned \<Rightarrow>
                  (if \<not> IsFailing now pinned \<and>
                      \<not> isOverloaded now pinned (sl_maxConcurrency s) (sl_kvCachePct s) staleThreshold
                   then Some pinned else None)))
      else None)"

text \<open>The choice of a backend for a request with no usable pin (lines 62 to 93).\<close>

definition sticky_choose :: "time \<Rightarrow> BackendState list \<Rightarrow> string \<Rightarrow> duration \<Rightarrow> BackendState option" where
  "sticky_choose now pool key staleThreshold =
     (let failing = filter (IsFailing now) pool;
          ramping = filter (\<lambda>b. \<not> IsFailing now b \<and> IsRampingUp now b) pool;
          filtered = filter (\<lambda>b. \<not> IsFailing now b \<and> \<not> IsRampingUp now b) pool;
          keyHash = (if key \<noteq> '''' then fnv64a key else 0)
      in if length filtered > 0 then pickLeastLoaded now filtered staleThreshold keyHash
         else if length ramping > 0 then pickLeastLoaded now ramping staleThreshold keyHash
         else if length failing > 0 then pickLeastLoaded now failing staleThreshold keyHash
         else pickLeastLoaded now pool staleThreshold keyHash)"

definition StickyLeastLoaded_Select ::
  "(time \<Rightarrow> 's \<Rightarrow> string \<Rightarrow> AffinityEntry option) \<Rightarrow>
   (time \<Rightarrow> 's \<Rightarrow> string \<Rightarrow> AffinityEntry \<Rightarrow> 's) \<Rightarrow>
   (time \<Rightarrow> 's \<Rightarrow> string \<Rightarrow> 's) \<Rightarrow>
   time \<Rightarrow> 's StickyLeastLoaded \<Rightarrow> BackendState list \<Rightarrow> string \<Rightarrow> RequestContext option \<Rightarrow>
   (sel_error + BackendState) \<times> 's StickyLeastLoaded" where
  "StickyLeastLoaded_Select sget sset stouch now s pool key ctx =
     (if pool = [] then (Inl ErrNoHealthyBackend, s)
      else
        (let staleThreshold = effective_threshold (sl_staleThreshold s) ctx in
         case sticky_pinned sget now s pool key staleThreshold of
           Some pinned \<Rightarrow> (Inr pinned, s\<lparr>sl_store := stouch now (sl_store s) key\<rparr>)
         | None \<Rightarrow>
             (case sticky_choose now pool key staleThreshold of
                None \<Rightarrow> (Inl RuntimePanic, s)
              | Some chosen \<Rightarrow>
                  (Inr chosen,
                   if key \<noteq> '''' \<and> \<not> IsRampingUp now chosen \<and> \<not> IsFailing now chosen
                   then s\<lparr>sl_store := sset now (sl_store s) key \<lparr>BackendID = ID chosen, LastSeen = 0\<rparr>\<rparr>
                   else s))))"

text \<open>The \<open>Selector\<close> interface value of a group, and its constructor by strategy name.\<close>

datatype Selector =
    SingleSelector
  | RoundRobinSelector "64 word"
  | LeastLoadedSelector
  | StickySelector "inMemoryStore StickyLeastLoaded"

definition NewSelector :: "string \<Rightarrow> Selector option" where
  "NewSelector strategy =
     (if strategy = ''single'' then Some SingleSelector
      else if strategy = ''round_robin'' then Some (RoundRobinSelector 0)
      else if strategy = ''least_loaded'' then Some LeastLoadedSelector
      else if strategy = ''sticky_least_loaded'' then None
      else Some (RoundRobinSelector 0))"

fun Selector_Select ::
  "time \<Rightarrow> Selector \<Rightarrow> BackendState list \<Rightarrow> string \<Rightarrow> RequestContext option \<Rightarrow>
   (sel_error + BackendState) \<times> Selector" where
  "Selector_Select now SingleSelector pool key ctx = (singleSelector_Select pool, SingleSelector)"
| "Selector_Select now (RoundRobinSelector n) pool key ctx =
     map_prod id RoundRobinSelector (roundRobinSelector_Select n pool)"
| "Selector_Select now LeastLoadedSelector pool key ctx =
     (leastLoadedSelector_Select now pool ctx, LeastLoadedSelector)"
| "Selector_Select now (StickySelector s) pool key ctx =
     map_prod id StickySelector
       (StickyLeastLoaded_Select store_Get store_Set store_Touch now s pool key ctx)"

section \<open>The least-loaded choice\<close>

text \<open>The backends of least score, in pool order.\<close>

definition least_loaded :: "time \<Rightarrow> duration \<Rightarrow> BackendState list \<Rightarrow> BackendState list" where
  "least_loaded now st pool =
     filter (\<lambda>b. \<forall>c\<in>set pool. loadScore now st b \<le> loadScore now st c) pool"

lemma tied_scan_spec:
  assumes "tied = least_loaded now st done'" and "done' \<noteq> []"
    and "\<forall>b\<in>set tied. loadScore now st b = best" and "tied \<noteq> []"
  shows "tied_scan now st pool best tied = least_loaded now st (done' @ pool)"
  using assms
proof (induction pool arbitrary: best tied done')
  case Nil
  then show ?case by simp
next
  case (Cons b pool)
  let ?s = "loadScore now st b"
  obtain t where t: "t \<in> set tied" using Cons.prems(4) list.set_sel(1) by blast
  then have t': "t \<in> set done'" by (simp add: Cons.prems(1) least_loaded_def)
  have le: "best \<le> loadScore now st c" if "c \<in> set done'" for c
  proof -
    from t have "\<forall>c\<in>set done'. loadScore now st t \<le> loadScore now st c"
      by (simp add: Cons.prems(1) least_loaded_def)
    with that t Cons.prems(3) show ?thesis by metis
  qed
  have at: "loadScore now st t = best" using t Cons.prems(3) by blast
  have eq: "least_loaded now st (done' @ [b]) =
      (if ?s < best then [b] else if ?s = best then tied @ [b] else tied)"
  proof (cases "?s < best")
    case True
    then have "filter (\<lambda>c. \<forall>d\<in>set (done' @ [b]). loadScore now st c \<le> loadScore now st d) done' = []"
      using le by (fastforce simp: filter_empty_conv)
    moreover have "\<forall>d\<in>set (done' @ [b]). ?s \<le> loadScore now st d"
      using True le by fastforce
    ultimately show ?thesis using True by (simp add: least_loaded_def)
  next
    case False
    have "filter (\<lambda>c. \<forall>d\<in>set (done' @ [b]). loadScore now st c \<le> loadScore now st d) done' = tied"
      unfolding Cons.prems(1) least_loaded_def
      by (rule filter_cong [OF refl]) (use False at t' in fastforce)
    moreover have "(\<forall>d\<in>set (done' @ [b]). ?s \<le> loadScore now st d) \<longleftrightarrow> ?s = best"
      using False le at t' by fastforce
    ultimately show ?thesis using False by (simp add: least_loaded_def)
  qed
  have "tied_scan now st pool (if ?s < best then ?s else best)
      (if ?s < best then [b] else if ?s = best then tied @ [b] else tied) =
    least_loaded now st ((done' @ [b]) @ pool)"
    using Cons.prems by (intro Cons.IH) (auto simp: eq)
  then show ?case by (simp add: Let_def split: if_splits)
qed

lemma pickLeastLoaded_eq:
  assumes "pool \<noteq> []"
  shows "least_loaded now st pool \<noteq> [] \<and>
    pickLeastLoaded now pool st h =
      Some (least_loaded now st pool !
        (if h = 0 then 0 else unat h mod length (least_loaded now st pool)))"
proof -
  obtain b rest where pool: "pool = b # rest" using assms by (cases pool) auto
  have tied: "tied_scan now st rest (loadScore now st b) [b] = least_loaded now st pool"
  proof -
    have "[b] = least_loaded now st [b]" by (simp add: least_loaded_def)
    then show ?thesis using tied_scan_spec [of "[b]" now st "[b]" "loadScore now st b" rest]
      by (simp add: pool)
  qed
  have "arg_min_on (loadScore now st) (set pool) \<in> set pool"
    and "\<forall>d\<in>set pool. loadScore now st (arg_min_on (loadScore now st) (set pool)) \<le> loadScore now st d"
    using assms by (simp_all add: arg_min_if_finite arg_min_least)
  then have "least_loaded now st pool \<noteq> []" by (auto simp: least_loaded_def filter_empty_conv)
  then show ?thesis
    using tied by (auto simp: pickLeastLoaded_def pool Let_def)
qed

lemma pickLeastLoaded_SomeD:
  assumes "pickLeastLoaded now pool st h = Some b"
  shows "b \<in> set pool \<and> (\<forall>c\<in>set pool. loadScore now st b \<le> loadScore now st c)"
proof -
  have "pool \<noteq> []" using assms by (auto simp: pickLeastLoaded_def)
  from pickLeastLoaded_eq [OF this, of now st h] assms have "b \<in> set (least_loaded now st pool)"
    by (auto intro!: nth_mem)
  then show ?thesis by (simp add: least_loaded_def)
qed

lemma pickLeastLoaded_total: "pool \<noteq> [] \<Longrightarrow> \<exists>b. pickLeastLoaded now pool st h = Some b"
  using pickLeastLoaded_eq by blast

section \<open>The contract of a selector\<close>

text \<open>
  What the balancer relies on: an empty pool is the error \<open>ErrNoHealthyBackend\<close>, any other pool
  gives one of its members, and the selector's own invariant is kept.
\<close>

locale selector =
  fixes sel :: "time \<Rightarrow> 's \<Rightarrow> BackendState list \<Rightarrow> string \<Rightarrow> RequestContext option \<Rightarrow>
      (sel_error + BackendState) \<times> 's"
    and selinv :: "'s \<Rightarrow> bool"
  assumes sel_empty: "sel now s [] key ctx = (Inl ErrNoHealthyBackend, s)"
    and sel_member: "selinv s \<Longrightarrow> pool \<noteq> [] \<Longrightarrow> \<exists>b\<in>set pool. fst (sel now s pool key ctx) = Inr b"
    and sel_inv: "selinv s \<Longrightarrow> selinv (snd (sel now s pool key ctx))"
begin

lemma sel_error_iff: "selinv s \<Longrightarrow> fst (sel now s pool key ctx) = Inl e \<longleftrightarrow> pool = [] \<and> e = ErrNoHealthyBackend"
  using sel_empty [of now s key ctx] sel_member [of s pool now key ctx] by (cases "pool = []") auto

lemma sel_InrD: "selinv s \<Longrightarrow> fst (sel now s pool key ctx) = Inr b \<Longrightarrow> b \<in> set pool"
  using sel_empty [of now s key ctx] sel_member [of s pool now key ctx] by (cases "pool = []") auto

end

lemma single_member: "pool \<noteq> [] \<Longrightarrow> \<exists>b\<in>set pool. singleSelector_Select pool = Inr b"
  by (simp add: singleSelector_Select_def)

lemma round_robin_member: "pool \<noteq> [] \<Longrightarrow> \<exists>b\<in>set pool. fst (roundRobinSelector_Select n pool) = Inr b"
  by (simp add: roundRobinSelector_Select_def Let_def)

lemma least_loaded_member: "pool \<noteq> [] \<Longrightarrow> \<exists>b\<in>set pool. leastLoadedSelector_Select now pool ctx = Inr b"
  using pickLeastLoaded_total [of pool now "effective_threshold (seconds 30) ctx" 0]
  by (auto simp: leastLoadedSelector_Select_def dest: pickLeastLoaded_SomeD)

interpretation single: selector "\<lambda>now s pool key ctx. (singleSelector_Select pool, s)" "\<lambda>_ :: unit. True"
  by unfold_locales (use single_member in \<open>auto simp: singleSelector_Select_def\<close>)

interpretation round_robin: selector "\<lambda>now s pool key ctx. roundRobinSelector_Select s pool" "\<lambda>_. True"
  by unfold_locales (use round_robin_member in \<open>auto simp: roundRobinSelector_Select_def\<close>)

interpretation least: selector "\<lambda>now s pool key ctx. (leastLoadedSelector_Select now pool ctx, s)" "\<lambda>_ :: unit. True"
  by unfold_locales (use least_loaded_member in \<open>auto simp: leastLoadedSelector_Select_def\<close>)

section \<open>Sticky selection over any affinity store\<close>

lemma findByID_SomeD: "findByID pool i = Some b \<Longrightarrow> b \<in> set pool \<and> ID b = i"
  by (auto simp: findByID_def dest: find_SomeD)

lemma findByID_mem: "distinct (map ID pool) \<Longrightarrow> b \<in> set pool \<Longrightarrow> findByID pool (ID b) = Some b"
  unfolding findByID_def by (induction pool) auto

text \<open>The tiers of a choice without a pin: ready backends, else those ramping up, else failing ones.\<close>

definition choice_tier :: "time \<Rightarrow> BackendState list \<Rightarrow> BackendState list" where
  "choice_tier now pool =
     (if \<exists>b\<in>set pool. \<not> IsFailing now b \<and> \<not> IsRampingUp now b
      then filter (\<lambda>b. \<not> IsFailing now b \<and> \<not> IsRampingUp now b) pool
      else if \<exists>b\<in>set pool. \<not> IsFailing now b then filter (\<lambda>b. \<not> IsFailing now b) pool
      else pool)"

lemma choice_tier_not_Nil [simp]: "pool \<noteq> [] \<Longrightarrow> choice_tier now pool \<noteq> []"
  by (auto simp: choice_tier_def filter_empty_conv)

lemma choice_tier_subset: "set (choice_tier now pool) \<subseteq> set pool"
  by (auto simp: choice_tier_def)

lemma sticky_choose_tier:
  "sticky_choose now pool key st =
     pickLeastLoaded now (choice_tier now pool) st (if key \<noteq> '''' then fnv64a key else 0)"
proof -
  have "filter (\<lambda>b. \<not> IsFailing now b \<and> IsRampingUp now b) pool = filter (\<lambda>b. \<not> IsFailing now b) pool"
    if "\<not> (\<exists>b\<in>set pool. \<not> IsFailing now b \<and> \<not> IsRampingUp now b)"
    using that by (auto intro!: filter_cong)
  moreover have "filter (IsFailing now) pool = pool" if "\<not> (\<exists>b\<in>set pool. \<not> IsFailing now b)"
    using that by (simp add: filter_id_conv)
  ultimately show ?thesis
    by (auto simp: sticky_choose_def choice_tier_def Let_def filter_empty_conv)
qed

lemma sticky_choose_total: "pool \<noteq> [] \<Longrightarrow> \<exists>b. sticky_choose now pool key st = Some b"
  unfolding sticky_choose_tier by (rule pickLeastLoaded_total) simp

lemma sticky_choose_SomeD:
  "sticky_choose now pool key st = Some b \<Longrightarrow> b \<in> set (choice_tier now pool) \<and>
     (\<forall>c\<in>set (choice_tier now pool). loadScore now st b \<le> loadScore now st c)"
  unfolding sticky_choose_tier by (rule pickLeastLoaded_SomeD)

lemma sticky_pinned_SomeD:
  assumes "sticky_pinned sget now s pool key st = Some b"
  shows "key \<noteq> '''' \<and> b \<in> set pool \<and> \<not> IsFailing now b \<and>
    \<not> isOverloaded now b (sl_maxConcurrency s) (sl_kvCachePct s) st \<and>
    (\<exists>e. sget now (sl_store s) key = Some e \<and> BackendID e = ID b)"
  using assms findByID_SomeD
  by (fastforce simp: sticky_pinned_def split: if_splits option.splits)

lemma sticky_member:
  assumes "pool \<noteq> []"
  shows "\<exists>b\<in>set pool. fst (StickyLeastLoaded_Select sget sset stouch now s pool key ctx) = Inr b"
proof -
  let ?st = "effective_threshold (sl_staleThreshold s) ctx"
  obtain c where c: "sticky_choose now pool key ?st = Some c"
    using sticky_choose_total [OF assms] by blast
  then have "c \<in> set pool" using sticky_choose_SomeD choice_tier_subset by blast
  with assms c show ?thesis
    by (auto simp: StickyLeastLoaded_Select_def Let_def split: option.split
        dest: sticky_pinned_SomeD)
qed

context affinity_store
begin

definition sticky :: "time \<Rightarrow> 's StickyLeastLoaded \<Rightarrow> BackendState list \<Rightarrow> string \<Rightarrow> RequestContext option \<Rightarrow>
    (sel_error + BackendState) \<times> 's StickyLeastLoaded" where
  "sticky = StickyLeastLoaded_Select sget sset stouch"

lemma sticky_inv: "sinv (sl_store s) \<Longrightarrow> sinv (sl_store (snd (sticky now s pool key ctx)))"
  by (auto simp: sticky_def StickyLeastLoaded_Select_def Let_def sset_inv stouch_inv split: option.split)

lemma sticky_frame:
  "sl_maxConcurrency (snd (sticky now s pool key ctx)) = sl_maxConcurrency s"
  "sl_kvCachePct (snd (sticky now s pool key ctx)) = sl_kvCachePct s"
  "sl_staleThreshold (snd (sticky now s pool key ctx)) = sl_staleThreshold s"
  "sttl (sl_store (snd (sticky now s pool key ctx))) = sttl (sl_store s)"
  "sroom (sl_store (snd (sticky now s pool key ctx))) = sroom (sl_store s)"
  by (auto simp: sticky_def StickyLeastLoaded_Select_def Let_def sset_frame stouch_frame split: option.split)

text \<open>A selected backend that is neither failing nor ramping up is the pin of its key afterwards.\<close>

lemma sticky_pins:
  assumes inv: "sinv (sl_store s)" "sroom (sl_store s)" and key: "key \<noteq> ''''"
    and sel: "sticky now s pool key ctx = (Inr b, s')"
    and ready: "\<not> IsFailing now b" "\<not> IsRampingUp now b"
    and ttl: "time_sub now' now \<le> sttl (sl_store s)"
  shows "\<exists>e. sget now' (sl_store s') key = Some e \<and> BackendID e = ID b"
proof (cases "sticky_pinned sget now s pool key (effective_threshold (sl_staleThreshold s) ctx)")
  case None
  with sel key ready have "sl_store s' = sset now (sl_store s) key \<lparr>BackendID = ID b, LastSeen = 0\<rparr>"
    by (auto simp: sticky_def StickyLeastLoaded_Select_def Let_def split: if_splits option.splits)
  with sget_sset [OF inv ttl] show ?thesis by simp
next
  case (Some p)
  with sel have "p = b" and s': "sl_store s' = stouch now (sl_store s) key"
    by (auto simp: sticky_def StickyLeastLoaded_Select_def Let_def split: if_splits)
  with sticky_pinned_SomeD [OF Some] obtain e where "sget now (sl_store s) key = Some e" "BackendID e = ID b"
    by auto
  with sget_stouch [OF inv(1) _ ttl, of key e] s' show ?thesis by auto
qed

text \<open>A live pin is honoured by the next selection.\<close>

lemma sticky_honours:
  assumes "key \<noteq> ''''" and "sget now (sl_store s) key = Some e" and "findByID pool (BackendID e) = Some b"
    and "\<not> IsFailing now b"
    and "\<not> isOverloaded now b (sl_maxConcurrency s) (sl_kvCachePct s) (effective_threshold (sl_staleThreshold s) ctx)"
  shows "fst (sticky now s pool key ctx) = Inr b"
proof -
  have "pool \<noteq> []" using assms(3) by (auto simp: findByID_def)
  with assms show ?thesis
    by (simp add: sticky_def StickyLeastLoaded_Select_def sticky_pinned_def Let_def)
qed

lemma sticky_other_key:
  assumes "sinv (sl_store s)" and "key' \<noteq> key"
    and "sget now' (sl_store (snd (sticky now s pool key ctx))) key' = Some e"
  shows "sget now' (sl_store s) key' = Some e"
  using assms
  by (auto simp: sticky_def StickyLeastLoaded_Select_def Let_def sget_stouch_other
      split: if_splits option.splits dest: sget_sset_other)

end

interpretation sticky: selector
  "StickyLeastLoaded_Select store_Get store_Set store_Touch" "\<lambda>s. store_ok (sl_store s)"
proof (unfold_locales, goal_cases)
  case 1 show ?case by (simp add: StickyLeastLoaded_Select_def)
next
  case 2 then show ?case by (simp add: sticky_member)
next
  case 3 then show ?case
    using mem_store.sticky_inv unfolding mem_store.sticky_def by blast
qed

text \<open>The selector of a group dispatches to its implementation and keeps the same contract.\<close>

fun Selector_ok :: "Selector \<Rightarrow> bool" where
  "Selector_ok (StickySelector s) = store_ok (sl_store s)"
| "Selector_ok _ = True"

interpretation grp_sel: selector Selector_Select Selector_ok
proof (unfold_locales, goal_cases)
  case (1 now s key ctx)
  show ?case
    by (cases s) (simp_all add: single.sel_empty round_robin.sel_empty least.sel_empty sticky.sel_empty
        singleSelector_Select_def leastLoadedSelector_Select_def)
next
  case (2 s pool now key ctx)
  then show ?case
    by (cases s) (simp_all add: single_member least_loaded_member round_robin_member sticky.sel_member)
next
  case (3 s now pool key ctx)
  then show ?case using sticky.sel_inv by (cases s) simp_all
qed

section \<open>Properties\<close>

text \<open>
  C9: \<open>pickLeastLoaded\<close> computes its specification. On a non-empty pool it returns, without
  panicking, one of the backends whose score is minimal: the first of them without a key hash, and
  with a key hash \<open>h\<close> the one at position \<open>h mod n\<close> of the \<open>n\<close> tied backends in pool order.
\<close>

theorem pickLeastLoaded_spec:
  assumes "pool \<noteq> []"
  shows "let tied = filter (\<lambda>b. \<forall>c\<in>set pool. loadScore now st b \<le> loadScore now st c) pool
    in tied \<noteq> [] \<and>
       pickLeastLoaded now pool st h = Some (tied ! (if h = 0 then 0 else unat h mod length tied))"
  using pickLeastLoaded_eq [OF assms, of now st h] by (simp only: least_loaded_def Let_def simp_thms)

definition idle_backend :: "string \<Rightarrow> int \<Rightarrow> BackendState" where
  "idle_backend i n = (NewBackendState i ''http://gpu'' 1 60)\<lparr>InFlight := n\<rparr>"

lemma idle_backend_facts [simp]:
  "ID (idle_backend i n) = i" "InFlight (idle_backend i n) = n"
  "loadScore now st (idle_backend i n) = real_of_int n"
  "IsFailing now (idle_backend i n) \<longleftrightarrow> now < 0" "\<not> IsRampingUp now (idle_backend i n)"
  "isOverloaded now (idle_backend i n) m k st \<longleftrightarrow> 0 < m \<and> m \<le> n"
  by (auto simp: idle_backend_def NewBackendState_def loadScore_def GetEffectiveLoad_def
      flow_GetStats_def NewFlowStats_def IsFailing_def IsRampingUp_def isOverloaded_def
      IsOverloadedByMetrics_def Let_def)

theorem pickLeastLoaded_spec_witness:
  "pickLeastLoaded 5 [idle_backend ''a'' 2, idle_backend ''b'' 0, idle_backend ''c'' 0] 30 7 =
     Some (idle_backend ''c'' 0)"
  using pickLeastLoaded_spec [of "[idle_backend ''a'' 2, idle_backend ''b'' 0, idle_backend ''c'' 0]" 5 30 7]
  by (simp add: Let_def) (simp add: numeral_2_eq_2 [symmetric])

text \<open>
  C4: stickiness. A sticky selection for a key that returned a backend which is neither failing
  nor ramping up makes the next selection for that key, within the time to live and whatever the
  pool is then, return the backend of the same id, as long as that backend is in the pool, is not
  in its failure cooldown and is not overloaded.
\<close>

theorem sticky_next_selection:
  assumes "store_ok (sl_store s)" and "0 < maxSize (sl_store s)" and "key \<noteq> ''''"
    and "StickyLeastLoaded_Select store_Get store_Set store_Touch now s pool key ctx = (Inr b, s')"
    and "\<not> IsFailing now b" and "\<not> IsRampingUp now b"
    and "time_sub now' now \<le> ttl (sl_store s)"
    and "b' \<in> set pool'" and "ID b' = ID b" and "distinct (map ID pool')" and "\<not> IsFailing now' b'"
    and "\<not> isOverloaded now' b' (sl_maxConcurrency s) (sl_kvCachePct s)
            (effective_threshold (sl_staleThreshold s) ctx')"
  shows "fst (StickyLeastLoaded_Select store_Get store_Set store_Touch now' s' pool' key ctx') = Inr b'"
proof -
  have sel: "mem_store.sticky now s pool key ctx = (Inr b, s')"
    using assms(4) by (simp add: mem_store.sticky_def)
  obtain e where e: "store_Get now' (sl_store s') key = Some e" "BackendID e = ID b"
    using mem_store.sticky_pins [OF assms(1-3) sel assms(5-7)] by blast
  have "findByID pool' (BackendID e) = Some b'"
    using findByID_mem [OF assms(10,8)] assms(9) e(2) by simp
  moreover have "sl_maxConcurrency s' = sl_maxConcurrency s" "sl_kvCachePct s' = sl_kvCachePct s"
    "sl_staleThreshold s' = sl_staleThreshold s"
    using mem_store.sticky_frame(1-3) [of now s pool key ctx] sel by simp_all
  ultimately show ?thesis
    using mem_store.sticky_honours [OF assms(3) e(1)] assms(11,12) by (simp add: mem_store.sticky_def)
qed

text \<open>
  The second request finds its pin although the pinned backend is now the busier one.
\<close>

theorem sticky_next_selection_witness:
  "let s = NewStickyLeastLoaded (NewInMemoryStore 100 10) 8 0 30;
       (r, s') = StickyLeastLoaded_Select store_Get store_Set store_Touch 1 s
         [idle_backend ''a'' 0, idle_backend ''b'' 1] ''k'' None
   in r = Inr (idle_backend ''a'' 0) \<and>
      fst (StickyLeastLoaded_Select store_Get store_Set store_Touch 2 s'
        [idle_backend ''b'' 1, idle_backend ''a'' 5] ''k'' None) = Inr (idle_backend ''a'' 5)"
proof -
  let ?s = "NewStickyLeastLoaded (NewInMemoryStore 100 10) 8 0 30"
  let ?sel = "StickyLeastLoaded_Select store_Get store_Set store_Touch 1 ?s
         [idle_backend ''a'' 0, idle_backend ''b'' 1] ''k'' None"
  have pick: "pickLeastLoaded 1 [idle_backend ''a'' 0, idle_backend ''b'' 1] 30 h =
      Some (idle_backend ''a'' 0)" for h
    by (simp add: pickLeastLoaded_def Let_def)
  have fst: "fst ?sel = Inr (idle_backend ''a'' 0)"
    by (simp add: StickyLeastLoaded_Select_def NewStickyLeastLoaded_def sticky_pinned_def
        NewInMemoryStore_def store_Get_def sticky_choose_def effective_threshold_def pick Let_def)
  have "fst (StickyLeastLoaded_Select store_Get store_Set store_Touch 2 (snd ?sel)
        [idle_backend ''b'' 1, idle_backend ''a'' 5] ''k'' None) = Inr (idle_backend ''a'' 5)"
    by (rule sticky_next_selection [of ?s _ 1 "[idle_backend ''a'' 0, idle_backend ''b'' 1]" None "idle_backend ''a'' 0"])
      (simp_all add: NewStickyLeastLoaded_def fst [unfolded NewStickyLeastLoaded_def] prod_eq_iff,
       simp_all add: NewInMemoryStore_def time_sub_def)
  with fst show ?thesis by (simp add: Let_def split_beta)
qed

lemma sticky_select_in_tier:
  assumes "pool \<noteq> []"
  shows "\<exists>b\<in>set pool.
    fst (StickyLeastLoaded_Select store_Get store_Set store_Touch now s pool key ctx) = Inr b \<and>
    (IsFailing now b \<longrightarrow> (\<forall>c\<in>set pool. IsFailing now c)) \<and>
    ((\<exists>e. store_Get now (sl_store s) key = Some e \<and> BackendID e = ID b) \<or>
       (IsRampingUp now b \<longrightarrow> (\<forall>c\<in>set pool. IsFailing now c \<or> IsRampingUp now c)) \<and>
       (\<forall>c\<in>set pool. IsFailing now c = IsFailing now b \<and> IsRampingUp now c = IsRampingUp now b \<longrightarrow>
          loadScore now (effective_threshold (sl_staleThreshold s) ctx) b
            \<le> loadScore now (effective_threshold (sl_staleThreshold s) ctx) c))"
proof -
  let ?st = "effective_threshold (sl_staleThreshold s) ctx"
  show ?thesis
  proof (cases "sticky_pinned store_Get now s pool key ?st")
    case None
    obtain b where b: "sticky_choose now pool key ?st = Some b"
      using sticky_choose_total [OF assms] by blast
    note tier = sticky_choose_SomeD [OF b]
    have "fst (StickyLeastLoaded_Select store_Get store_Set store_Touch now s pool key ctx) = Inr b"
      using assms None b by (simp add: StickyLeastLoaded_Select_def Let_def)
    moreover have "b \<in> set pool" using tier choice_tier_subset by blast
    moreover have "IsFailing now b \<longrightarrow> (\<forall>c\<in>set pool. IsFailing now c)"
      and "\<not> IsFailing now b \<longrightarrow> IsRampingUp now b \<longrightarrow> (\<forall>c\<in>set pool. IsFailing now c \<or> IsRampingUp now c)"
      and "\<forall>c\<in>set pool. IsFailing now c = IsFailing now b \<and> IsRampingUp now c = IsRampingUp now b \<longrightarrow>
        loadScore now ?st b \<le> loadScore now ?st c"
      using tier unfolding choice_tier_def by (auto split: if_splits)
    ultimately show ?thesis by blast
  next
    case (Some b)
    with sticky_pinned_SomeD [OF Some] assms show ?thesis
      by (auto simp: StickyLeastLoaded_Select_def Let_def intro!: bexI [of _ b])
  qed
qed



text \<open>
  Round robin is fair. As long as the 64-bit counter does not wrap, \<open>n\<close> successive selections
  on a pool of \<open>n\<close> backends return every backend of the pool, each in its turn: the pool rotated
  by the counter.
\<close>

fun round_robin_run :: "nat \<Rightarrow> 64 word \<Rightarrow> BackendState list \<Rightarrow> (sel_error + BackendState) list" where
  "round_robin_run 0 c pool = []"
| "round_robin_run (Suc n) c pool =
     (let (r, c') = roundRobinSelector_Select c pool in r # round_robin_run n c' pool)"

lemma round_robin_run_nth:
  assumes "pool \<noteq> []" and "unat c + n \<le> 2 ^ 64"
  shows "round_robin_run n c pool = map (\<lambda>i. Inr (pool ! ((unat c + i) mod length pool))) [0..<n]"
  using assms(2)
proof (induction n arbitrary: c)
  case 0
  then show ?case by simp
next
  case (Suc n)
  show ?case
  proof (cases n)
    case 0
    then show ?thesis using assms(1) by (simp add: roundRobinSelector_Select_def)
  next
    case (Suc m)
    have "unat (c + 1) = unat c + 1"
      using Suc.prems Suc by (simp add: unat_plus_if')
    then show ?thesis
      using Suc.IH [of "c + 1"] Suc.prems assms(1)
      by (simp add: roundRobinSelector_Select_def upt_conv_Cons map_Suc_upt [symmetric] del: upt_Suc)
  qed
qed

theorem round_robin_fair:
  assumes "pool \<noteq> []" and "unat c + length pool \<le> 2 ^ 64"
  shows "round_robin_run (length pool) c pool = map Inr (rotate (unat c) pool)"
  by (rule nth_equalityI) (simp_all add: round_robin_run_nth [OF assms] nth_rotate)

theorem round_robin_fair_witness:
  "round_robin_run 3 4 [idle_backend ''a'' 0, idle_backend ''b'' 0, idle_backend ''c'' 0] =
     [Inr (idle_backend ''b'' 0), Inr (idle_backend ''c'' 0), Inr (idle_backend ''a'' 0)]"

proof -
  let ?p = "[idle_backend ''a'' 0, idle_backend ''b'' 0, idle_backend ''c'' 0]"
  have "round_robin_run (length ?p) 4 ?p = map Inr (rotate (unat (4 :: 64 word)) ?p)"
    by (rule round_robin_fair) simp_all
  moreover have "rotate (unat (4 :: 64 word)) ?p = [?p ! 1, ?p ! 2, ?p ! 0]"
    by (simp add: rotate_drop_take)
  moreover have "length ?p = 3" by simp
  ultimately have "round_robin_run 3 4 ?p = map Inr [?p ! 1, ?p ! 2, ?p ! 0]" by (simp only:)
  then show ?thesis by simp
qed

end
