(* ===== verification/Proxy_Config.thy ===== *)
theory Proxy_Config
  imports Json_Values
begin

text \<open>
  The configuration of \<open>internal/config\<close>: the schema (one record per struct), the steps of
  \<open>Load\<close> that follow YAML decoding (port expansion, defaults, validation, indexing), the lookups
  and the resolution of cascading settings. YAML decoding is third-party code: \<open>Load\<close> takes the
  decoded value, in which a group may be a null pointer. Fields carry a prefix that names their
  struct, since Isabelle keeps the fields of all records in one name space.
\<close>

section \<open>Schema\<close>

record TLSConfig =
  tls_Cert :: string
  tls_Key :: string

record TransportConfig =
  MaxIdleConns :: int
  MaxIdleConnsPerHost :: int
  IdleConnTimeout :: int

record ServerConfig =
  srv_Host :: string
  srv_Port :: int
  srv_APIKey :: string
  srv_PassthroughUnrouted :: bool
  srv_LogLevel :: "int option"
  srv_MaxRequestBodyMB :: int
  srv_AllowPlaintext :: bool
  srv_TLS :: TLSConfig
  srv_Transport :: TransportConfig
  srv_DropEmptyContent :: "bool option"

record PrometheusConfig =
  prom_Enabled :: bool
  prom_Host :: string
  prom_Port :: int
  prom_Path :: string
  prom_AllowPlaintext :: bool
  prom_TLS :: TLSConfig

record SystemPromptOp =
  sp_Prepend :: string
  sp_Append :: string
  sp_Replace :: string

record HeadersOp =
  hdr_Add :: "(string, string) gomap"
  hdr_Remove :: "string list"
  hdr_Rename :: "(string, string) gomap"

record LoopDetectionConfig =
  ld_Enabled :: bool
  ld_ConsecutiveThreshold :: int
  ld_WindowSeconds :: int
  ld_Action :: string
  ld_EscalateAfter :: int
  ld_EscalateAction :: string

record ZeroContentDetectionConfig =
  zc_Enabled :: bool
  zc_MinUserContentChars :: int
  zc_MinTotalInputTokens :: int
  zc_Action :: string

text \<open>\<open>DefenderConfig\<close> and \<open>RouteDefenderConfig\<close> have the same two fields.\<close>

record DefenderConfig =
  def_LoopDetection :: "LoopDetectionConfig option"
  def_ZeroContentDetection :: "ZeroContentDetectionConfig option"

record Backend =
  be_ID :: string
  be_Type :: string
  be_BaseURL :: string
  be_APIKey :: string
  be_AuthType :: string
  be_Group :: string
  be_TimeoutSeconds :: int
  be_MaxConcurrency :: int
  be_SkipProbe :: bool
  be_Default :: bool
  be_Ports :: "int list"
  be_Headers :: HeadersOp
  be_DropEmptyContent :: "bool option"

record AutoRoute =
  ar_Text :: string
  ar_Vision :: string

record Route =
  rt_VirtualModel :: string
  rt_Backend :: string
  rt_BackendGroup :: string
  rt_RealModel :: string
  rt_ContextLength :: int
  rt_Defaults :: obj
  rt_Clamp :: obj
  rt_AutoRoute :: "AutoRoute option"
  rt_SystemPrompt :: SystemPromptOp
  rt_Inject :: obj
  rt_Headers :: HeadersOp
  rt_DropEmptyContent :: "bool option"
  rt_Defenders :: "DefenderConfig option"

record AffinityConfig =
  aff_Key :: string
  aff_MaxContentBytes :: int
  aff_TTLSeconds :: int
  aff_MaxEntries :: int

record OverloadConfig =
  ovl_MaxConcurrency :: int
  ovl_KVCachePct :: real
  ovl_StaleMetricsAction :: string

record HealthCheckConfig =
  hc_Enabled :: string
  hc_Path :: string
  hc_IntervalSeconds :: int
  hc_TimeoutSeconds :: int
  hc_UnhealthyAfter :: int

record MetricsScrapeConfig =
  ms_Enabled :: string
  ms_IntervalSeconds :: int
  ms_Path :: string
  ms_StaleThresholdSeconds :: int

record AliveProbe =
  ap_Type :: string
  ap_Path :: string
  ap_TimeoutSeconds :: int

record AliveConfig =
  al_Enabled :: string
  al_IntervalSeconds :: int
  al_UnhealthyAfter :: int
  al_Probes :: "AliveProbe list"

record MetricsConfig =
  mc_StartupRetries :: int
  mc_StartupBackoffSec :: int
  mc_RetryIntervalSec :: int
  mc_ScrapeTimeoutSeconds :: int

record FlowTrackingConfig =
  ft_WindowMode :: string
  ft_WindowMultiplier :: real
  ft_WindowFixedSec :: int

record RecoveryConfig =
  rc_RetryDelaySec :: int
  rc_RampUpSec :: int

record GroupMonitoringConfig =
  mon_Alive :: "AliveConfig option"
  mon_Metrics :: "MetricsConfig option"
  mon_FlowTracking :: "FlowTrackingConfig option"
  mon_Recovery :: "RecoveryConfig option"

record GroupConfig =
  grp_Strategy :: string
  grp_Affinity :: AffinityConfig
  grp_Overload :: OverloadConfig
  grp_HealthCheck :: HealthCheckConfig
  grp_MetricsScrape :: MetricsScrapeConfig
  grp_Monitoring :: "GroupMonitoringConfig option"
  grp_FailoverOnStatusCodes :: "int list"

record LoadBalancingConfig =
  lb_Metrics :: MetricsConfig
  lb_FlowTracking :: FlowTrackingConfig
  lb_Recovery :: RecoveryConfig

record JournalConfig =
  jr_Enabled :: bool
  jr_OTLPEndpoint :: string

record SigMessageCaptureConfig =
  sc_Enabled :: bool
  sc_OutputFolder :: string
  sc_MaxMessages :: int

record Config =
  cfg_Server :: ServerConfig
  cfg_Prometheus :: PrometheusConfig
  cfg_Journal :: JournalConfig
  cfg_SigMessageCapture :: SigMessageCaptureConfig
  cfg_Defenders :: DefenderConfig
  cfg_LoadBalancing :: LoadBalancingConfig
  cfg_Backends :: "Backend list"
  cfg_Routes :: "Route list"
  cfg_Groups :: "(string, GroupConfig) gomap"
  cfg_backendByID :: "(string, Backend) gomap"
  cfg_routeByModel :: "(string, Route) gomap"

definition SystemPromptOp_IsZero :: "SystemPromptOp \<Rightarrow> bool" where
  "SystemPromptOp_IsZero s \<longleftrightarrow> sp_Prepend s = '''' \<and> sp_Append s = '''' \<and> sp_Replace s = ''''"

definition HeadersOp_IsZero :: "HeadersOp \<Rightarrow> bool" where
  "HeadersOp_IsZero h \<longleftrightarrow>
     length (hdr_Add h) = 0 \<and> length (hdr_Remove h) = 0 \<and> length (hdr_Rename h) = 0"

text \<open>The zero value of \<open>GroupConfig\<close>.\<close>

definition zero_GroupConfig :: GroupConfig where
  "zero_GroupConfig =
     \<lparr>grp_Strategy = '''', grp_Affinity = \<lparr>aff_Key = '''', aff_MaxContentBytes = 0, aff_TTLSeconds = 0, aff_MaxEntries = 0\<rparr>,
      grp_Overload = \<lparr>ovl_MaxConcurrency = 0, ovl_KVCachePct = 0, ovl_StaleMetricsAction = ''''\<rparr>,
      grp_HealthCheck = \<lparr>hc_Enabled = '''', hc_Path = '''', hc_IntervalSeconds = 0, hc_TimeoutSeconds = 0, hc_UnhealthyAfter = 0\<rparr>,
      grp_MetricsScrape = \<lparr>ms_Enabled = '''', ms_IntervalSeconds = 0, ms_Path = '''', ms_StaleThresholdSeconds = 0\<rparr>,
      grp_Monitoring = None, grp_FailoverOnStatusCodes = []\<rparr>"

section \<open>Loading\<close>

datatype cfg_error =
    PortsIdWithoutPort string
  | PortsUrlWithoutPort string
  | BackendMissingID
  | BackendURLRequired string
  | BackendBadType string string
  | MultipleDefaults string string
  | RouteMissingVirtualModel
  | DuplicateVirtualModel string
  | RouteBackendAndGroup string
  | RouteWithoutTarget string
  | RouteUnknownBackend string string
  | RouteAutoIncomplete string
  | RouteSystemPromptConflict string
  | GatewayPlaintext
  | MetricsPlaintext string int

definition str_contains :: "string \<Rightarrow> string \<Rightarrow> bool" where
  "str_contains s pat \<longleftrightarrow> str_index s pat \<noteq> None"

text \<open>\<open>strings.ReplaceAll\<close> for a non-empty pattern: matches do not overlap, leftmost first.\<close>

function ReplaceAll :: "string \<Rightarrow> string \<Rightarrow> string \<Rightarrow> string" where
  "ReplaceAll s old new =
     (if old = [] \<or> s = [] then s
      else if prefix old s then new @ ReplaceAll (drop (length old) s) old new
      else hd s # ReplaceAll (tl s) old new)"
  by pat_completeness auto
termination
  by (relation "measure (\<lambda>(s, old, new). length s)") auto

text \<open>\<open>strconv.Itoa\<close>\<close>

fun nat_decimal :: "nat \<Rightarrow> string" where
  "nat_decimal n =
     (if n < 10 then [char_of (48 + n)] else nat_decimal (n div 10) @ [char_of (48 + n mod 10)])"

definition Itoa :: "int \<Rightarrow> string" where
  "Itoa i = (if i < 0 then CHR ''-'' # nat_decimal (nat (- i)) else nat_decimal (nat i))"

fun expandPorts :: "Backend list \<Rightarrow> cfg_error + Backend list" where
  "expandPorts [] = Inr []"
| "expandPorts (b # bs) =
     (if be_Ports b = [] then
        (case expandPorts bs of Inl e \<Rightarrow> Inl e | Inr out \<Rightarrow> Inr (b # out))
      else if \<not> str_contains (be_ID b) ''{port}'' then Inl (PortsIdWithoutPort (be_ID b))
      else if \<not> str_contains (be_BaseURL b) ''{port}'' then Inl (PortsUrlWithoutPort (be_ID b))
      else
        (case expandPorts bs of Inl e \<Rightarrow> Inl e
         | Inr out \<Rightarrow> Inr (map (\<lambda>port.
              b\<lparr>be_ID := ReplaceAll (be_ID b) ''{port}'' (Itoa port),
                be_BaseURL := ReplaceAll (be_BaseURL b) ''{port}'' (Itoa port),
                be_Ports := []\<rparr>) (be_Ports b) @ out)))"

definition or_default :: "int \<Rightarrow> int \<Rightarrow> int" where
  "or_default d x = (if x = 0 then d else x)"

definition or_default_str :: "string \<Rightarrow> string \<Rightarrow> string" where
  "or_default_str d x = (if x = '''' then d else x)"

text \<open>\<open>url.Parse\<close> followed by \<open>String\<close> is the parameter \<open>url_norm\<close>: \<open>None\<close> is a parse error.\<close>

definition default_server :: "ServerConfig \<Rightarrow> ServerConfig" where
  "default_server s =
     s\<lparr>srv_Host := or_default_str ''0.0.0.0'' (srv_Host s),
       srv_Port := or_default 4000 (srv_Port s),
       srv_Transport := (srv_Transport s)
         \<lparr>MaxIdleConns := or_default 100 (MaxIdleConns (srv_Transport s)),
          MaxIdleConnsPerHost := or_default 20 (MaxIdleConnsPerHost (srv_Transport s)),
          IdleConnTimeout := or_default 120 (IdleConnTimeout (srv_Transport s))\<rparr>,
       srv_MaxRequestBodyMB := or_default 50 (srv_MaxRequestBodyMB s)\<rparr>"

definition default_prometheus :: "PrometheusConfig \<Rightarrow> PrometheusConfig" where
  "default_prometheus p =
     p\<lparr>prom_Port := or_default 9091 (prom_Port p),
       prom_Path := or_default_str ''/metrics'' (prom_Path p),
       prom_Host := or_default_str ''127.0.0.1'' (prom_Host p)\<rparr>"

definition default_backend :: "(string \<Rightarrow> string option) \<Rightarrow> Backend \<Rightarrow> Backend" where
  "default_backend url_norm b =
     b\<lparr>be_TimeoutSeconds := or_default 300 (be_TimeoutSeconds b),
       be_BaseURL := (case url_norm (be_BaseURL b) of None \<Rightarrow> be_BaseURL b | Some u \<Rightarrow> u)\<rparr>"

definition default_group :: "GroupConfig option \<Rightarrow> GroupConfig" where
  "default_group og =
     (let g = (case og of None \<Rightarrow> zero_GroupConfig | Some g \<Rightarrow> g) in
      g\<lparr>grp_Strategy := or_default_str ''sticky_least_loaded'' (grp_Strategy g),
        grp_Affinity := (grp_Affinity g)
          \<lparr>aff_Key := or_default_str ''first_user_message'' (aff_Key (grp_Affinity g)),
           aff_MaxContentBytes := or_default 2048 (aff_MaxContentBytes (grp_Affinity g)),
           aff_TTLSeconds := or_default 3600 (aff_TTLSeconds (grp_Affinity g)),
           aff_MaxEntries := or_default 10000 (aff_MaxEntries (grp_Affinity g))\<rparr>,
        grp_Overload := (grp_Overload g)
          \<lparr>ovl_StaleMetricsAction := or_default_str ''pin'' (ovl_StaleMetricsAction (grp_Overload g))\<rparr>,
        grp_HealthCheck := (grp_HealthCheck g)
          \<lparr>hc_Path := or_default_str ''models'' (hc_Path (grp_HealthCheck g)),
           hc_IntervalSeconds := or_default 10 (hc_IntervalSeconds (grp_HealthCheck g)),
           hc_TimeoutSeconds := or_default 5 (hc_TimeoutSeconds (grp_HealthCheck g)),
           hc_UnhealthyAfter := or_default 3 (hc_UnhealthyAfter (grp_HealthCheck g))\<rparr>\<rparr>)"

definition applyDefaults ::
  "(string \<Rightarrow> string option) \<Rightarrow> (string, GroupConfig option) gomap \<Rightarrow> Config \<Rightarrow> Config" where
  "applyDefaults url_norm rawGroups cfg =
     cfg\<lparr>cfg_Server := default_server (cfg_Server cfg),
         cfg_Prometheus := default_prometheus (cfg_Prometheus cfg),
         cfg_Backends := map (default_backend url_norm) (cfg_Backends cfg),
         cfg_Groups := gm_map_values (\<lambda>_. default_group) rawGroups\<rparr>"

fun validateBackends_loop ::
  "string list \<Rightarrow> string \<Rightarrow> Backend list \<Rightarrow> cfg_error + string list" where
  "validateBackends_loop ids defaultID [] = Inr ids"
| "validateBackends_loop ids defaultID (b # bs) =
     (if be_ID b = '''' then Inl BackendMissingID
      else if be_BaseURL b = '''' then Inl (BackendURLRequired (be_ID b))
      else if be_Type b \<noteq> ''openai'' \<and> be_Type b \<noteq> ''anthropic'' \<and> be_Type b \<noteq> ''ollama''
        then Inl (BackendBadType (be_ID b) (be_Type b))
      else if be_Default b \<and> defaultID \<noteq> '''' then Inl (MultipleDefaults defaultID (be_ID b))
      else validateBackends_loop (List.insert (be_ID b) ids)
             (if be_Default b then be_ID b else defaultID) bs)"

definition validateBackends :: "Backend list \<Rightarrow> cfg_error + string list" where
  "validateBackends backends = validateBackends_loop [] '''' backends"

definition system_prompt_ops :: "SystemPromptOp \<Rightarrow> nat" where
  "system_prompt_ops s =
     (if sp_Prepend s \<noteq> '''' then 1 else 0) + (if sp_Append s \<noteq> '''' then 1 else 0) +
     (if sp_Replace s \<noteq> '''' then 1 else 0)"

fun validateRoutes_loop :: "string list \<Rightarrow> Route list \<Rightarrow> string list \<Rightarrow> cfg_error + unit" where
  "validateRoutes_loop seen [] backendIDs = Inr ()"
| "validateRoutes_loop seen (r # rs) backendIDs =
     (if rt_VirtualModel r = '''' then Inl RouteMissingVirtualModel
      else if rt_VirtualModel r \<in> set seen then Inl (DuplicateVirtualModel (rt_VirtualModel r))
      else if rt_Backend r \<noteq> '''' \<and> rt_BackendGroup r \<noteq> ''''
        then Inl (RouteBackendAndGroup (rt_VirtualModel r))
      else if rt_Backend r = '''' \<and> rt_BackendGroup r = '''' \<and> rt_AutoRoute r = None
        then Inl (RouteWithoutTarget (rt_VirtualModel r))
      else if rt_Backend r \<noteq> '''' \<and> rt_Backend r \<notin> set backendIDs
        then Inl (RouteUnknownBackend (rt_VirtualModel r) (rt_Backend r))
      else if (case rt_AutoRoute r of None \<Rightarrow> False
               | Some ar \<Rightarrow> ar_Text ar = '''' \<or> ar_Vision ar = '''')
        then Inl (RouteAutoIncomplete (rt_VirtualModel r))
      else if system_prompt_ops (rt_SystemPrompt r) > 1
        then Inl (RouteSystemPromptConflict (rt_VirtualModel r))
      else validateRoutes_loop (rt_VirtualModel r # seen) rs backendIDs)"

definition validateRoutes :: "Route list \<Rightarrow> string list \<Rightarrow> cfg_error + unit" where
  "validateRoutes routes backendIDs = validateRoutes_loop [] routes backendIDs"

definition validate :: "Config \<Rightarrow> cfg_error + unit" where
  "validate cfg =
     (case validateBackends (cfg_Backends cfg) of
        Inl e \<Rightarrow> Inl e
      | Inr ids \<Rightarrow> validateRoutes (cfg_Routes cfg) ids)"

text \<open>\<open>Load\<close> after decoding: later duplicates of a key win, as in the loops that fill the indexes.\<close>

definition Load :: "(string \<Rightarrow> string option) \<Rightarrow> (string, GroupConfig option) gomap \<Rightarrow> Config \<Rightarrow>
    cfg_error + Config" where
  "Load url_norm rawGroups cfg =
     (case expandPorts (cfg_Backends cfg) of
        Inl e \<Rightarrow> Inl e
      | Inr bs \<Rightarrow>
          (let cfg1 = applyDefaults url_norm rawGroups (cfg\<lparr>cfg_Backends := bs\<rparr>) in
           case validate cfg1 of
             Inl e \<Rightarrow> Inl e
           | Inr _ \<Rightarrow>
               Inr (cfg1\<lparr>cfg_backendByID := fold (\<lambda>b. gm_set (be_ID b) b) (cfg_Backends cfg1) [],
                         cfg_routeByModel := fold (\<lambda>r. gm_set (rt_VirtualModel r) r) (cfg_Routes cfg1) []\<rparr>)))"

section \<open>Lookups and listening policy\<close>

definition cfg_Backend :: "Config \<Rightarrow> string \<Rightarrow> Backend option" where
  "cfg_Backend c i = gm_get (cfg_backendByID c) i"

definition cfg_Route :: "Config \<Rightarrow> string \<Rightarrow> Route option" where
  "cfg_Route c model = gm_get (cfg_routeByModel c) model"

definition DefaultBackend :: "Config \<Rightarrow> Backend option" where
  "DefaultBackend c =
     (case find be_Default (cfg_Backends c) of
        Some b \<Rightarrow> Some b
      | None \<Rightarrow> (case cfg_Backends c of [] \<Rightarrow> None | b # _ \<Rightarrow> Some b))"

definition HasExplicitDefault :: "Config \<Rightarrow> bool" where
  "HasExplicitDefault c = list_ex be_Default (cfg_Backends c)"

definition isLoopbackHost :: "string \<Rightarrow> bool" where
  "isLoopbackHost h =
     (if h \<in> {''127.0.0.1'', ''localhost'', ''::1'', ''[::1]''} then True
      else HasPrefix h ''127.'')"

definition ValidateListenPolicy :: "Config \<Rightarrow> cfg_error + unit" where
  "ValidateListenPolicy c =
     (let srv = cfg_Server c;
          gatewayTLS = (tls_Cert (srv_TLS srv) \<noteq> '''' \<and> tls_Key (srv_TLS srv) \<noteq> '''');
          p = cfg_Prometheus c;
          metricsTLS = (tls_Cert (prom_TLS p) \<noteq> '''' \<and> tls_Key (prom_TLS p) \<noteq> '''')
      in if \<not> gatewayTLS \<and> \<not> srv_AllowPlaintext srv then Inl GatewayPlaintext
         else if \<not> prom_Enabled p then Inr ()
         else if metricsTLS \<or> isLoopbackHost (prom_Host p) \<or> prom_AllowPlaintext p then Inr ()
         else Inl (MetricsPlaintext (prom_Host p) (prom_Port p)))"

definition VirtualModels :: "Config \<Rightarrow> string list" where
  "VirtualModels c = map rt_VirtualModel (cfg_Routes c)"

definition GroupBackends :: "Config \<Rightarrow> string \<Rightarrow> Backend list" where
  "GroupBackends c grp = filter (\<lambda>b. be_Group b = grp) (cfg_Backends c)"

definition ShouldDropEmptyContent :: "Config \<Rightarrow> Route option \<Rightarrow> Backend option \<Rightarrow> bool" where
  "ShouldDropEmptyContent c route backend =
     (case Option.bind route rt_DropEmptyContent of
        Some v \<Rightarrow> v
      | None \<Rightarrow>
          (case Option.bind backend be_DropEmptyContent of
             Some v \<Rightarrow> v
           | None \<Rightarrow>
               (case srv_DropEmptyContent (cfg_Server c) of Some v \<Rightarrow> v | None \<Rightarrow> False)))"

section \<open>Cascading settings\<close>

definition pos_or :: "int \<Rightarrow> int \<Rightarrow> int" where
  "pos_or x d = (if x > 0 then x else d)"

definition str_or :: "string \<Rightarrow> string \<Rightarrow> string" where
  "str_or x d = (if x \<noteq> '''' then x else d)"

text \<open>
  One level of an override: a positive number or a non-empty string replaces the value below, the
  \<open>enabled\<close> flag always does.
\<close>

definition loop_override :: "LoopDetectionConfig \<Rightarrow> LoopDetectionConfig \<Rightarrow> LoopDetectionConfig" where
  "loop_override o' cfg =
     \<lparr>ld_Enabled = ld_Enabled o',
      ld_ConsecutiveThreshold = pos_or (ld_ConsecutiveThreshold o') (ld_ConsecutiveThreshold cfg),
      ld_WindowSeconds = pos_or (ld_WindowSeconds o') (ld_WindowSeconds cfg),
      ld_Action = str_or (ld_Action o') (ld_Action cfg),
      ld_EscalateAfter = pos_or (ld_EscalateAfter o') (ld_EscalateAfter cfg),
      ld_EscalateAction = str_or (ld_EscalateAction o') (ld_EscalateAction cfg)\<rparr>"

definition GetLoopDetection :: "Config \<Rightarrow> Route option \<Rightarrow> LoopDetectionConfig" where
  "GetLoopDetection c route =
     (let cfg0 = \<lparr>ld_Enabled = True, ld_ConsecutiveThreshold = 3, ld_WindowSeconds = 60,
                  ld_Action = ''inject_forcing_message'', ld_EscalateAfter = 2,
                  ld_EscalateAction = ''refuse_429''\<rparr>;
          cfg1 = (case def_LoopDetection (cfg_Defenders c) of
                    None \<Rightarrow> cfg0 | Some glbl \<Rightarrow> loop_override glbl cfg0)
      in case Option.bind (Option.bind route rt_Defenders) def_LoopDetection of
           None \<Rightarrow> cfg1 | Some rt \<Rightarrow> loop_override rt cfg1)"

definition zero_override ::
  "ZeroContentDetectionConfig \<Rightarrow> ZeroContentDetectionConfig \<Rightarrow> ZeroContentDetectionConfig" where
  "zero_override o' cfg =
     \<lparr>zc_Enabled = zc_Enabled o',
      zc_MinUserContentChars = pos_or (zc_MinUserContentChars o') (zc_MinUserContentChars cfg),
      zc_MinTotalInputTokens = pos_or (zc_MinTotalInputTokens o') (zc_MinTotalInputTokens cfg),
      zc_Action = str_or (zc_Action o') (zc_Action cfg)\<rparr>"

definition GetZeroContentDetection :: "Config \<Rightarrow> Route option \<Rightarrow> ZeroContentDetectionConfig" where
  "GetZeroContentDetection c route =
     (let cfg0 = \<lparr>zc_Enabled = True, zc_MinUserContentChars = 10, zc_MinTotalInputTokens = 2000,
                  zc_Action = ''refuse_400''\<rparr>;
          cfg1 = (case def_ZeroContentDetection (cfg_Defenders c) of
                    None \<Rightarrow> cfg0 | Some glbl \<Rightarrow> zero_override glbl cfg0)
      in case Option.bind (Option.bind route rt_Defenders) def_ZeroContentDetection of
           None \<Rightarrow> cfg1 | Some rt \<Rightarrow> zero_override rt cfg1)"

definition alive_probe_defaults :: "AliveProbe \<Rightarrow> AliveProbe" where
  "alive_probe_defaults p =
     (let p1 = (if ap_Path p = '''' then
                  (if ap_Type p = ''lightweight_chat'' then p\<lparr>ap_Path := ''chat/completions''\<rparr>
                   else if ap_Type p = ''http_get'' then p\<lparr>ap_Path := ''health''\<rparr> else p)
                else p)
      in if ap_TimeoutSeconds p = 0 then p1\<lparr>ap_TimeoutSeconds := 5\<rparr> else p1)"

definition GetAliveConfig :: "Config \<Rightarrow> GroupConfig \<Rightarrow> AliveConfig" where
  "GetAliveConfig c grp =
     (case Option.bind (grp_Monitoring grp) mon_Alive of
        None \<Rightarrow> \<lparr>al_Enabled = '''', al_IntervalSeconds = 60, al_UnhealthyAfter = 3, al_Probes = []\<rparr>
      | Some alive \<Rightarrow>
          \<lparr>al_Enabled = str_or (al_Enabled alive) '''',
           al_IntervalSeconds = pos_or (al_IntervalSeconds alive) 60,
           al_UnhealthyAfter = pos_or (al_UnhealthyAfter alive) 3,
           al_Probes = map alive_probe_defaults (al_Probes alive)\<rparr>)"

definition metrics_override :: "MetricsConfig \<Rightarrow> MetricsConfig \<Rightarrow> MetricsConfig" where
  "metrics_override o' cfg =
     \<lparr>mc_StartupRetries = pos_or (mc_StartupRetries o') (mc_StartupRetries cfg),
      mc_StartupBackoffSec = pos_or (mc_StartupBackoffSec o') (mc_StartupBackoffSec cfg),
      mc_RetryIntervalSec = pos_or (mc_RetryIntervalSec o') (mc_RetryIntervalSec cfg),
      mc_ScrapeTimeoutSeconds = pos_or (mc_ScrapeTimeoutSeconds o') (mc_ScrapeTimeoutSeconds cfg)\<rparr>"

definition GetMetricsConfig :: "Config \<Rightarrow> GroupConfig option \<Rightarrow> MetricsConfig" where
  "GetMetricsConfig c grp =
     (let cfg0 = \<lparr>mc_StartupRetries = 3, mc_StartupBackoffSec = 5, mc_RetryIntervalSec = 120,
                  mc_ScrapeTimeoutSeconds = 3\<rparr>;
          cfg1 = metrics_override (lb_Metrics (cfg_LoadBalancing c)) cfg0
      in case Option.bind (Option.bind grp grp_Monitoring) mon_Metrics of
           None \<Rightarrow> cfg1 | Some rt \<Rightarrow> metrics_override rt cfg1)"

definition flow_override :: "FlowTrackingConfig \<Rightarrow> FlowTrackingConfig \<Rightarrow> FlowTrackingConfig" where
  "flow_override o' cfg =
     \<lparr>ft_WindowMode = str_or (ft_WindowMode o') (ft_WindowMode cfg),
      ft_WindowMultiplier =
        (if ft_WindowMultiplier o' > 0 then ft_WindowMultiplier o' else ft_WindowMultiplier cfg),
      ft_WindowFixedSec = pos_or (ft_WindowFixedSec o') (ft_WindowFixedSec cfg)\<rparr>"

definition GetFlowTracking :: "Config \<Rightarrow> GroupConfig option \<Rightarrow> FlowTrackingConfig" where
  "GetFlowTracking c grp =
     (let cfg0 = \<lparr>ft_WindowMode = ''multiplier'', ft_WindowMultiplier = 2, ft_WindowFixedSec = 300\<rparr>;
          cfg1 = flow_override (lb_FlowTracking (cfg_LoadBalancing c)) cfg0
      in case Option.bind (Option.bind grp grp_Monitoring) mon_FlowTracking of
           None \<Rightarrow> cfg1 | Some rt \<Rightarrow> flow_override rt cfg1)"

definition recovery_override :: "RecoveryConfig \<Rightarrow> RecoveryConfig \<Rightarrow> RecoveryConfig" where
  "recovery_override o' cfg =
     \<lparr>rc_RetryDelaySec = pos_or (rc_RetryDelaySec o') (rc_RetryDelaySec cfg),
      rc_RampUpSec = pos_or (rc_RampUpSec o') (rc_RampUpSec cfg)\<rparr>"

definition GetRecovery :: "Config \<Rightarrow> GroupConfig option \<Rightarrow> RecoveryConfig" where
  "GetRecovery c grp =
     (let cfg0 = \<lparr>rc_RetryDelaySec = 30, rc_RampUpSec = 60\<rparr>;
          cfg1 = recovery_override (lb_Recovery (cfg_LoadBalancing c)) cfg0
      in case Option.bind (Option.bind grp grp_Monitoring) mon_Recovery of
           None \<Rightarrow> cfg1 | Some rt \<Rightarrow> recovery_override rt cfg1)"

text \<open>The conversion \<open>int(x)\<close> of a float truncates towards zero.\<close>

definition trunc :: "real \<Rightarrow> int" where
  "trunc x = (if x \<ge> 0 then \<lfloor>x\<rfloor> else \<lceil>x\<rceil>)"

definition GetFlowWindowDuration :: "Config \<Rightarrow> GroupConfig option \<Rightarrow> int" where
  "GetFlowWindowDuration c grp =
     (let ft = GetFlowTracking c grp in
      if ft_WindowMode ft = ''fixed'' then
        (if ft_WindowFixedSec ft > 0 then ft_WindowFixedSec ft else 300)
      else if ft_WindowMode ft = ''multiplier'' then trunc (ft_WindowMultiplier ft * 300)
      else 300)"

section \<open>Group settings\<close>

definition GetStaleThreshold :: "GroupConfig \<Rightarrow> int" where
  "GetStaleThreshold g = pos_or (ms_StaleThresholdSeconds (grp_MetricsScrape g)) 30"

definition GetScrapeInterval :: "GroupConfig \<Rightarrow> int" where
  "GetScrapeInterval g = pos_or (ms_IntervalSeconds (grp_MetricsScrape g)) 5"

definition ScrapeEnabled :: "GroupConfig \<Rightarrow> bool" where
  "ScrapeEnabled g \<longleftrightarrow> ms_Enabled (grp_MetricsScrape g) \<in> {''true'', ''auto''}"

definition ScrapeAuto :: "GroupConfig \<Rightarrow> bool" where
  "ScrapeAuto g \<longleftrightarrow> ms_Enabled (grp_MetricsScrape g) = ''auto''"

definition GetScrapePath :: "GroupConfig \<Rightarrow> string" where
  "GetScrapePath g = str_or (ms_Path (grp_MetricsScrape g)) ''/metrics''"

definition ShouldFailoverOnCode :: "GroupConfig \<Rightarrow> int \<Rightarrow> bool" where
  "ShouldFailoverOnCode g code =
     (if code \<ge> 500 \<and> code < 600 then True else list_ex (\<lambda>c. c = code) (grp_FailoverOnStatusCodes g))"

section \<open>What validation establishes\<close>

declare ReplaceAll.simps [simp del] nat_decimal.simps [simp del]
definition backend_ok :: "Backend \<Rightarrow> bool" where
  "backend_ok b \<longleftrightarrow> be_ID b \<noteq> '''' \<and> be_BaseURL b \<noteq> '''' \<and>
     be_Type b \<in> {''openai'', ''anthropic'', ''ollama''}"

definition backends_ok :: "Backend list \<Rightarrow> bool" where
  "backends_ok bs \<longleftrightarrow> list_all backend_ok bs \<and> length (filter be_Default bs) \<le> 1"

definition route_ok :: "string set \<Rightarrow> Route \<Rightarrow> bool" where
  "route_ok ids r \<longleftrightarrow>
     rt_VirtualModel r \<noteq> '''' \<and> \<not> (rt_Backend r \<noteq> '''' \<and> rt_BackendGroup r \<noteq> '''') \<and>
     (rt_Backend r \<noteq> '''' \<or> rt_BackendGroup r \<noteq> '''' \<or> rt_AutoRoute r \<noteq> None) \<and>
     (rt_Backend r = '''' \<or> rt_Backend r \<in> ids) \<and>
     (case rt_AutoRoute r of None \<Rightarrow> True | Some ar \<Rightarrow> ar_Text ar \<noteq> '''' \<and> ar_Vision ar \<noteq> '''') \<and>
     system_prompt_ops (rt_SystemPrompt r) \<le> 1"

definition config_ok :: "Config \<Rightarrow> bool" where
  "config_ok c \<longleftrightarrow>
     backends_ok (cfg_Backends c) \<and> distinct (VirtualModels c) \<and>
     list_all (route_ok (be_ID ` set (cfg_Backends c))) (cfg_Routes c)"

lemma validateBackends_loop_ids:
  "validateBackends_loop ids d bs = Inr ids' \<Longrightarrow> set ids' = set ids \<union> be_ID ` set bs"
  by (induction bs arbitrary: ids d) (auto split: if_splits)

lemma validateBackends_loop_iff:
  "(\<exists>ids'. validateBackends_loop ids d bs = Inr ids') \<longleftrightarrow>
     list_all backend_ok bs \<and> length (filter be_Default bs) \<le> (if d = '''' then 1 else 0)"
proof (induction bs arbitrary: ids d)
  case Nil
  then show ?case by simp
next
  case (Cons b bs)
  show ?case
    using Cons.IH [of "List.insert (be_ID b) ids" d]
      Cons.IH [of "List.insert (be_ID b) ids" "be_ID b"]
    by (cases "be_Default b") (auto simp: backend_ok_def)
qed

lemma validateRoutes_loop_iff:
  "validateRoutes_loop seen rs ids = Inr () \<longleftrightarrow>
     distinct (map rt_VirtualModel rs) \<and> set (map rt_VirtualModel rs) \<inter> set seen = {} \<and>
     list_all (route_ok (set ids)) rs"
proof (induction rs arbitrary: seen)
  case Nil
  then show ?case by simp
next
  case (Cons r rs)
  have ok: "route_ok (set ids) r \<longleftrightarrow>
     rt_VirtualModel r \<noteq> '''' \<and> \<not> (rt_Backend r \<noteq> '''' \<and> rt_BackendGroup r \<noteq> '''') \<and>
     \<not> (rt_Backend r = '''' \<and> rt_BackendGroup r = '''' \<and> rt_AutoRoute r = None) \<and>
     \<not> (rt_Backend r \<noteq> '''' \<and> rt_Backend r \<notin> set ids) \<and>
     \<not> (case rt_AutoRoute r of None \<Rightarrow> False
               | Some ar \<Rightarrow> ar_Text ar = '''' \<or> ar_Vision ar = '''') \<and>
     \<not> system_prompt_ops (rt_SystemPrompt r) > 1"
    by (cases "rt_AutoRoute r") (auto simp: route_ok_def)
  have "validateRoutes_loop seen (r # rs) ids = Inr () \<longleftrightarrow>
      route_ok (set ids) r \<and> rt_VirtualModel r \<notin> set seen \<and>
      validateRoutes_loop (rt_VirtualModel r # seen) rs ids = Inr ()"
    unfolding ok by simp
  then show ?case
    by (auto simp: Cons.IH)
qed

lemma validate_iff: "validate c = Inr () \<longleftrightarrow> config_ok c"
proof (cases "validateBackends (cfg_Backends c)")
  case (Inl e)
  with validateBackends_loop_iff [of "[]" "''''" "cfg_Backends c"] show ?thesis
    by (auto simp: validate_def config_ok_def backends_ok_def validateBackends_def)
next
  case (Inr ids)
  then have "set ids = be_ID ` set (cfg_Backends c)"
    using validateBackends_loop_ids [of "[]" "''''" "cfg_Backends c" ids]
    by (simp add: validateBackends_def)
  with Inr validateBackends_loop_iff [of "[]" "''''" "cfg_Backends c"] show ?thesis
    by (auto simp: validate_def config_ok_def validateRoutes_def validateRoutes_loop_iff
        VirtualModels_def validateBackends_def backends_ok_def)
qed

section \<open>What loading establishes\<close>

lemma Load_InrD:
  assumes "Load u gs raw = Inr c"
  obtains bs where "expandPorts (cfg_Backends raw) = Inr bs"
    and "cfg_Backends c = map (default_backend u) bs"
    and "cfg_Groups c = gm_map_values (\<lambda>_. default_group) gs"
    and "cfg_backendByID c = fold (\<lambda>b. gm_set (be_ID b) b) (cfg_Backends c) []"
    and "cfg_routeByModel c = fold (\<lambda>r. gm_set (rt_VirtualModel r) r) (cfg_Routes c) []"
    and "cfg_Routes c = cfg_Routes raw"
    and "config_ok c"
proof -
  from assms obtain bs where bs: "expandPorts (cfg_Backends raw) = Inr bs"
    by (auto simp: Load_def split: sum.splits)
  let ?c1 = "applyDefaults u gs (raw\<lparr>cfg_Backends := bs\<rparr>)"
  from assms bs have v: "validate ?c1 = Inr ()"
    and c: "c = ?c1\<lparr>cfg_backendByID := fold (\<lambda>b. gm_set (be_ID b) b) (cfg_Backends ?c1) [],
        cfg_routeByModel := fold (\<lambda>r. gm_set (rt_VirtualModel r) r) (cfg_Routes ?c1) []\<rparr>"
    by (auto simp: Load_def Let_def split: sum.splits)
  from v have "config_ok c"
    by (simp add: c validate_iff) (simp add: config_ok_def VirtualModels_def)
  with bs c show thesis
    by (intro that [of bs]) (simp_all add: applyDefaults_def)
qed

lemma Load_route:
  assumes "Load u gs raw = Inr c"
  shows "cfg_Route c m = Some r \<longleftrightarrow> r \<in> set (cfg_Routes c) \<and> rt_VirtualModel r = m"
proof -
  from assms obtain bs where ix: "cfg_routeByModel c = fold (\<lambda>r. gm_set (rt_VirtualModel r) r) (cfg_Routes c) []"
    and "config_ok c" by (rule Load_InrD)
  then have "distinct (map rt_VirtualModel (cfg_Routes c))"
    by (simp add: config_ok_def VirtualModels_def)
  with ix show ?thesis
    by (auto simp: cfg_Route_def gm_get_index_distinct dest: gm_get_index_SomeD)
qed

lemma Load_backend:
  assumes "Load u gs raw = Inr c" and "b \<in> set (cfg_Backends c)"
  shows "\<exists>b' \<in> set (cfg_Backends c). cfg_Backend c (be_ID b) = Some b' \<and> be_ID b' = be_ID b"
proof -
  from assms(1) obtain bs where
    "cfg_backendByID c = fold (\<lambda>b. gm_set (be_ID b) b) (cfg_Backends c) []"
    by (rule Load_InrD)
  with gm_get_index_mem [OF assms(2), of be_ID] show ?thesis
    by (simp add: cfg_Backend_def)
qed

lemma Load_backend_mem:
  "Load u gs raw = Inr c \<Longrightarrow> cfg_Backend c i = Some b \<Longrightarrow> b \<in> set (cfg_Backends c) \<and> be_ID b = i"
  by (erule Load_InrD) (auto simp: cfg_Backend_def dest!: gm_get_index_SomeD)

text \<open>A listening port is never served in plaintext without an explicit opt-in.\<close>

text \<open>
  The listening policy. A configuration passes exactly when the gateway has a certificate and a
  key or opts into plaintext, and the metrics listener is off, has a certificate and a key, listens
  on a loopback host, or opts into plaintext itself.
\<close>

theorem ValidateListenPolicy_iff:
  "ValidateListenPolicy c = Inr () \<longleftrightarrow>
     (tls_Cert (srv_TLS (cfg_Server c)) \<noteq> '''' \<and> tls_Key (srv_TLS (cfg_Server c)) \<noteq> '''' \<or>
      srv_AllowPlaintext (cfg_Server c)) \<and>
     (\<not> prom_Enabled (cfg_Prometheus c) \<or>
      tls_Cert (prom_TLS (cfg_Prometheus c)) \<noteq> '''' \<and> tls_Key (prom_TLS (cfg_Prometheus c)) \<noteq> '''' \<or>
      isLoopbackHost (prom_Host (cfg_Prometheus c)) \<or> prom_AllowPlaintext (cfg_Prometheus c))"
  by (auto simp: ValidateListenPolicy_def Let_def)

text \<open>
  C30: loading validates. \<open>Load\<close> accepts a configuration exactly when its port ranges expand and the
  expanded, defaulted configuration is well formed: every backend has an id, a URL and a known type,
  at most one is the default, virtual model names are distinct, and every route names a known
  backend, a group or two targets, with at most one system-prompt operation. Otherwise it returns an
  error, and the accepted configuration is the validated one with its two indexes.
\<close>

theorem Load_accepts_iff:
  "(\<exists>c. Load url_norm rawGroups raw = Inr c) \<longleftrightarrow>
     (\<exists>bs. expandPorts (cfg_Backends raw) = Inr bs \<and>
        config_ok (applyDefaults url_norm rawGroups (raw\<lparr>cfg_Backends := bs\<rparr>)))"
  by (auto simp: Load_def Let_def validate_iff [symmetric] split: sum.split)

section \<open>A sample configuration\<close>

text \<open>
  Two \<open>openai\<close> backends in the group \<open>gpu\<close>, an \<open>anthropic\<close> backend of its own, a direct route, a
  load-balanced route and an \<open>auto_route\<close>; the group block is empty, so it takes every default.
  It is the input at which the properties are instantiated.
\<close>

definition no_headers :: HeadersOp where
  "no_headers = \<lparr>hdr_Add = [], hdr_Remove = [], hdr_Rename = []\<rparr>"

definition sample_backend :: "string \<Rightarrow> string \<Rightarrow> string \<Rightarrow> string \<Rightarrow> Backend" where
  "sample_backend i ty url grp =
     \<lparr>be_ID = i, be_Type = ty, be_BaseURL = url, be_APIKey = '''', be_AuthType = '''', be_Group = grp,
      be_TimeoutSeconds = 0, be_MaxConcurrency = 0, be_SkipProbe = False, be_Default = False,
      be_Ports = [], be_Headers = no_headers, be_DropEmptyContent = None\<rparr>"

definition sample_route :: "string \<Rightarrow> string \<Rightarrow> string \<Rightarrow> AutoRoute option \<Rightarrow> Route" where
  "sample_route vm be grp ar =
     \<lparr>rt_VirtualModel = vm, rt_Backend = be, rt_BackendGroup = grp, rt_RealModel = '''',
      rt_ContextLength = 0, rt_Defaults = [(''temperature'', JNum 1)],
      rt_Clamp = [(''top_p'', JNum (1/2))], rt_AutoRoute = ar,
      rt_SystemPrompt = \<lparr>sp_Prepend = '''', sp_Append = '''', sp_Replace = ''''\<rparr>, rt_Inject = [],
      rt_Headers = no_headers, rt_DropEmptyContent = None, rt_Defenders = None\<rparr>"

definition sample_raw :: Config where
  "sample_raw =
     \<lparr>cfg_Server = \<lparr>srv_Host = '''', srv_Port = 0, srv_APIKey = ''k'', srv_PassthroughUnrouted = False,
        srv_LogLevel = None, srv_MaxRequestBodyMB = 0, srv_AllowPlaintext = True,
        srv_TLS = \<lparr>tls_Cert = '''', tls_Key = ''''\<rparr>,
        srv_Transport = \<lparr>MaxIdleConns = 0, MaxIdleConnsPerHost = 0, IdleConnTimeout = 0\<rparr>,
        srv_DropEmptyContent = None\<rparr>,
      cfg_Prometheus = \<lparr>prom_Enabled = True, prom_Host = '''', prom_Port = 0, prom_Path = '''',
        prom_AllowPlaintext = False, prom_TLS = \<lparr>tls_Cert = '''', tls_Key = ''''\<rparr>\<rparr>,
      cfg_Journal = \<lparr>jr_Enabled = False, jr_OTLPEndpoint = ''''\<rparr>,
      cfg_SigMessageCapture = \<lparr>sc_Enabled = False, sc_OutputFolder = '''', sc_MaxMessages = 0\<rparr>,
      cfg_Defenders = \<lparr>def_LoopDetection = None, def_ZeroContentDetection = None\<rparr>,
      cfg_LoadBalancing = \<lparr>
        lb_Metrics = \<lparr>mc_StartupRetries = 0, mc_StartupBackoffSec = 0, mc_RetryIntervalSec = 0, mc_ScrapeTimeoutSeconds = 0\<rparr>,
        lb_FlowTracking = \<lparr>ft_WindowMode = '''', ft_WindowMultiplier = 0, ft_WindowFixedSec = 0\<rparr>,
        lb_Recovery = \<lparr>rc_RetryDelaySec = 0, rc_RampUpSec = 0\<rparr>\<rparr>,
      cfg_Backends = [sample_backend ''g1'' ''openai'' ''http://a'' ''gpu'',
        sample_backend ''g2'' ''openai'' ''http://b'' ''gpu'', sample_backend ''cl'' ''anthropic'' ''http://c'' ''''],
      cfg_Routes = [sample_route ''direct'' ''cl'' '''' None, sample_route ''pool'' '''' ''gpu'' None,
        sample_route ''auto'' '''' '''' (Some \<lparr>ar_Text = ''direct'', ar_Vision = ''pool''\<rparr>)],
      cfg_Groups = [], cfg_backendByID = [], cfg_routeByModel = []\<rparr>"

definition sample_config :: Config where
  "sample_config =
     (case Load Some [(''gpu'', None)] sample_raw of Inr c \<Rightarrow> c | Inl _ \<Rightarrow> sample_raw)"

lemmas sample_defs = sample_raw_def sample_route_def sample_backend_def no_headers_def

lemma sample_load: "Load Some [(''gpu'', None)] sample_raw = Inr sample_config"
proof -
  have "\<exists>c. Load Some [(''gpu'', None)] sample_raw = Inr c"
    by (simp add: Load_def Let_def validate_def validateBackends_def validateRoutes_def
        applyDefaults_def sample_defs default_backend_def system_prompt_ops_def)
  then show ?thesis by (auto simp: sample_config_def)
qed

theorem ValidateListenPolicy_iff_witness: "ValidateListenPolicy sample_config = Inr ()"
proof -
  have "srv_AllowPlaintext (cfg_Server sample_config)" "isLoopbackHost (prom_Host (cfg_Prometheus sample_config))"
    by (simp_all add: sample_config_def Load_def Let_def validate_def validateBackends_def validateRoutes_def
        applyDefaults_def sample_defs default_backend_def system_prompt_ops_def default_server_def
        default_prometheus_def or_default_str_def isLoopbackHost_def)
  then show ?thesis using ValidateListenPolicy_iff [of sample_config] by blast
qed

end
