(* ===== verification/Metrics_Parser.thy ===== *)
theory Metrics_Parser
  imports Proxy_Config
begin

text \<open>
  The Prometheus text parser (\<open>internal/balancer/parser.go\<close>).

  \<open>bufio.Scanner\<close> is modelled with its default limit: a line of 64 KiB or more ends the scan. The
  number syntax of \<open>strconv.ParseFloat\<close> is a parameter \<open>parseFloat\<close>, which returns the finite
  value of a number or \<open>None\<close>; infinities and NaN are not modelled.
\<close>

section \<open>Lines\<close>

definition newline :: char where
  "newline = CHR 0x0A"

fun split_lines :: "string \<Rightarrow> string list" where
  "split_lines [] = []"
| "split_lines (c # s) =
     (if c = newline then [] # split_lines s
      else (case split_lines s of
              [] \<Rightarrow> [[c]]
            | l # ls \<Rightarrow> (if s \<noteq> [] \<and> hd s = newline then [c] # ls else (c # l) # ls)))"

definition drop_cr :: "string \<Rightarrow> string" where
  "drop_cr l = (if l \<noteq> [] \<and> last l = CHR 0x0D then butlast l else l)"

definition scan_lines :: "string \<Rightarrow> string list" where
  "scan_lines text = map drop_cr (takeWhile (\<lambda>l. length l < 65536) (split_lines text))"

section \<open>The parser\<close>

datatype EngineType = EngineUnknown | EngineVLML | EngineSGLang

record ScrapeResult =
  sr_RunningReqs :: int
  sr_WaitingReqs :: int
  sr_KVCachePct :: real
  sr_Parsed :: bool

definition empty_result :: ScrapeResult where
  "empty_result = \<lparr>sr_RunningReqs = 0, sr_WaitingReqs = 0, sr_KVCachePct = 0, sr_Parsed = False\<rparr>"

text \<open>The name without its labels, and the value, of a line that is a sample.\<close>

definition metric_sample :: "(string \<Rightarrow> real option) \<Rightarrow> string \<Rightarrow> (string \<times> real) option" where
  "metric_sample parseFloat line =
     (case str_index line '' '' of
        None \<Rightarrow> None
      | Some i \<Rightarrow>
          (let name = TrimSpace (take i line);
               valueStr = TrimSpace (drop (i + 1) line)
           in if name = '''' \<or> hd name = CHR ''#'' then None
              else (case parseFloat valueStr of
                      None \<Rightarrow> None
                    | Some v \<Rightarrow>
                        Some (case str_index name ''{'' of None \<Rightarrow> name | Some j \<Rightarrow> take j name, v))))"

definition apply_vllm :: "string \<times> real \<Rightarrow> ScrapeResult \<Rightarrow> ScrapeResult" where
  "apply_vllm s result =
     (if fst s = ''vllm:num_requests_running'' then result\<lparr>sr_RunningReqs := trunc (snd s), sr_Parsed := True\<rparr>
      else if fst s = ''vllm:num_requests_waiting'' then result\<lparr>sr_WaitingReqs := trunc (snd s), sr_Parsed := True\<rparr>
      else if fst s = ''vllm:gpu_kv_cache_usage_perc'' then result\<lparr>sr_KVCachePct := snd s, sr_Parsed := True\<rparr>
      else result)"

definition apply_sglang :: "string \<times> real \<Rightarrow> ScrapeResult \<Rightarrow> ScrapeResult" where
  "apply_sglang s result =
     (if fst s = ''sglang:num_running_reqs'' then result\<lparr>sr_RunningReqs := trunc (snd s), sr_Parsed := True\<rparr>
      else if fst s = ''sglang:num_queue_reqs'' then result\<lparr>sr_WaitingReqs := trunc (snd s), sr_Parsed := True\<rparr>
      else if fst s = ''sglang:mem_usage_ratio'' then result\<lparr>sr_KVCachePct := snd s, sr_Parsed := True\<rparr>
      else result)"

definition parseVLMLLine :: "(string \<Rightarrow> real option) \<Rightarrow> string \<Rightarrow> ScrapeResult \<Rightarrow> ScrapeResult" where
  "parseVLMLLine parseFloat line result =
     (case metric_sample parseFloat line of None \<Rightarrow> result | Some s \<Rightarrow> apply_vllm s result)"

definition parseSGLangLine :: "(string \<Rightarrow> real option) \<Rightarrow> string \<Rightarrow> ScrapeResult \<Rightarrow> ScrapeResult" where
  "parseSGLangLine parseFloat line result =
     (case metric_sample parseFloat line of None \<Rightarrow> result | Some s \<Rightarrow> apply_sglang s result)"

definition parse_line ::
  "(string \<Rightarrow> real option) \<Rightarrow> EngineType \<Rightarrow> string \<Rightarrow> ScrapeResult \<Rightarrow> ScrapeResult" where
  "parse_line parseFloat engine line result =
     (case engine of
        EngineVLML \<Rightarrow> parseVLMLLine parseFloat line result
      | EngineSGLang \<Rightarrow> parseSGLangLine parseFloat line result
      | EngineUnknown \<Rightarrow>
          (let result' = parseVLMLLine parseFloat line result in
           if \<not> sr_Parsed result' then parseSGLangLine parseFloat line result else result'))"

definition parsePrometheusMetrics ::
  "(string \<Rightarrow> real option) \<Rightarrow> string \<Rightarrow> EngineType \<Rightarrow> ScrapeResult" where
  "parsePrometheusMetrics parseFloat text engine =
     fold (parse_line parseFloat engine) (scan_lines text) empty_result"

section \<open>The samples of a text\<close>

definition samples :: "(string \<Rightarrow> real option) \<Rightarrow> string \<Rightarrow> (string \<times> real) list" where
  "samples parseFloat text = List.map_filter (metric_sample parseFloat) (scan_lines text)"

definition vllm_names :: "string set" where
  "vllm_names = {''vllm:num_requests_running'', ''vllm:num_requests_waiting'', ''vllm:gpu_kv_cache_usage_perc''}"

definition sglang_names :: "string set" where
  "sglang_names = {''sglang:num_running_reqs'', ''sglang:num_queue_reqs'', ''sglang:mem_usage_ratio''}"

definition apply_auto :: "string \<times> real \<Rightarrow> ScrapeResult \<Rightarrow> ScrapeResult" where
  "apply_auto s result =
     (let result' = apply_vllm s result in if \<not> sr_Parsed result' then apply_sglang s result else result')"

definition apply_engine :: "EngineType \<Rightarrow> string \<times> real \<Rightarrow> ScrapeResult \<Rightarrow> ScrapeResult" where
  "apply_engine engine =
     (case engine of EngineVLML \<Rightarrow> apply_vllm | EngineSGLang \<Rightarrow> apply_sglang | EngineUnknown \<Rightarrow> apply_auto)"

lemma parse_line_sample:
  "parse_line pf engine line r =
     (case metric_sample pf line of None \<Rightarrow> r | Some s \<Rightarrow> apply_engine engine s r)"
  by (cases engine; cases "metric_sample pf line")
    (simp_all add: parse_line_def parseVLMLLine_def parseSGLangLine_def apply_engine_def apply_auto_def Let_def)

lemma parse_fold_samples:
  "fold (parse_line pf engine) ls r = fold (apply_engine engine) (List.map_filter (metric_sample pf) ls) r"
  by (induction ls arbitrary: r) (auto simp: parse_line_sample List.map_filter_simps split: option.split)

lemma parsePrometheusMetrics_samples:
  "parsePrometheusMetrics pf text engine = fold (apply_engine engine) (samples pf text) empty_result"
  by (simp add: parsePrometheusMetrics_def samples_def parse_fold_samples)

text \<open>The value of the last sample of a name.\<close>

definition last_value :: "(string \<times> real) list \<Rightarrow> string \<Rightarrow> real" where
  "last_value ss n = (case gm_get (rev ss) n of None \<Rightarrow> 0 | Some v \<Rightarrow> v)"

definition summary :: "string \<Rightarrow> string \<Rightarrow> string \<Rightarrow> (string \<times> real) list \<Rightarrow> ScrapeResult" where
  "summary running waiting kv ss =
     \<lparr>sr_RunningReqs = trunc (last_value ss running), sr_WaitingReqs = trunc (last_value ss waiting),
      sr_KVCachePct = last_value ss kv, sr_Parsed = (\<exists>s\<in>set ss. fst s \<in> {running, waiting, kv})\<rparr>"

lemma last_value_snoc: "last_value (ss @ [s]) n = (if fst s = n then snd s else last_value ss n)"
  by (cases s) (simp add: last_value_def)

lemma summary_Nil: "summary r w k [] = empty_result"
  by (simp add: summary_def last_value_def empty_result_def trunc_def)

lemma fold_vllm_summary:
  "fold apply_vllm ss empty_result =
     summary ''vllm:num_requests_running'' ''vllm:num_requests_waiting'' ''vllm:gpu_kv_cache_usage_perc'' ss"
proof (induction ss rule: rev_induct)
  case Nil
  show ?case by (simp add: summary_Nil)
next
  case (snoc s ss)
  then show ?case by (auto simp: summary_def apply_vllm_def last_value_snoc)
qed

lemma fold_sglang_summary:
  "fold apply_sglang ss empty_result =
     summary ''sglang:num_running_reqs'' ''sglang:num_queue_reqs'' ''sglang:mem_usage_ratio'' ss"
proof (induction ss rule: rev_induct)
  case Nil
  show ?case by (simp add: summary_Nil)
next
  case (snoc s ss)
  then show ?case by (auto simp: summary_def apply_sglang_def last_value_snoc)
qed

lemma apply_auto_vllm:
  "fst s \<notin> sglang_names \<Longrightarrow> apply_auto s r = apply_vllm s r"
  by (auto simp: apply_auto_def apply_vllm_def apply_sglang_def sglang_names_def Let_def)

lemma apply_auto_sglang_first:
  "fst s \<notin> vllm_names \<Longrightarrow> apply_auto s r = (if sr_Parsed r then r else apply_sglang s r)"
  by (auto simp: apply_auto_def apply_vllm_def vllm_names_def Let_def)

lemma apply_sglang_Parsed: "sr_Parsed (apply_sglang s r) \<longleftrightarrow> sr_Parsed r \<or> fst s \<in> sglang_names"
  by (simp add: apply_sglang_def sglang_names_def)

lemma apply_sglang_other: "fst s \<notin> sglang_names \<Longrightarrow> apply_sglang s r = r"
  by (simp add: apply_sglang_def sglang_names_def)

lemma fold_auto_parsed:
  "sr_Parsed r \<Longrightarrow> \<forall>s\<in>set ss. fst s \<notin> vllm_names \<Longrightarrow> fold apply_auto ss r = r"
  by (induction ss) (simp_all add: apply_auto_sglang_first)

lemma fold_auto_sglang:
  "\<forall>s\<in>set ss. fst s \<notin> vllm_names \<Longrightarrow>
     fold apply_auto ss empty_result =
       (case find (\<lambda>s. fst s \<in> sglang_names) ss of None \<Rightarrow> empty_result | Some s \<Rightarrow> apply_sglang s empty_result)"
proof (induction ss)
  case Nil
  then show ?case by simp
next
  case (Cons s ss)
  have "\<not> sr_Parsed empty_result" by (simp add: empty_result_def)
  with Cons show ?case
    by (auto simp: apply_auto_sglang_first apply_sglang_other fold_auto_parsed apply_sglang_Parsed)
qed

section \<open>Properties\<close>


text \<open>One decimal digit: an instance of the number syntax.\<close>

definition parse_digit :: "string \<Rightarrow> real option" where
  "parse_digit s =
     (case s of
        [c] \<Rightarrow> (if 48 \<le> (of_char c :: nat) \<and> (of_char c :: nat) \<le> 57
                then Some (real (of_char c - 48)) else None)
      | _ \<Rightarrow> None)"

definition vllm_text :: string where
  "vllm_text = ''# TYPE vllm:num_requests_running gauge'' @ [newline] @
     ''vllm:num_requests_running{e=1} 7'' @ [newline] @ ''vllm:num_requests_waiting 2'' @ [newline]"

definition sglang_text :: string where
  "sglang_text = ''sglang:num_running_reqs 8'' @ [newline] @ ''sglang:num_queue_reqs 3'' @ [newline]"

lemma sglang_text_lines: "scan_lines sglang_text = [''sglang:num_running_reqs 8'', ''sglang:num_queue_reqs 3'']"
  by (simp add: sglang_text_def scan_lines_def newline_def drop_cr_def)

lemma vllm_text_lines:
  "scan_lines vllm_text = [''# TYPE vllm:num_requests_running gauge'',
     ''vllm:num_requests_running{e=1} 7'', ''vllm:num_requests_waiting 2'']"
  by (simp add: vllm_text_def scan_lines_def newline_def drop_cr_def)

lemmas metric_sample_eval = metric_sample_def TrimSpace_def space_encodings_def strip_left.simps parse_digit_def

lemma sample_lines:
  "metric_sample parse_digit ''# TYPE vllm:num_requests_running gauge'' = None"
  "metric_sample parse_digit ''vllm:num_requests_running{e=1} 7'' = Some (''vllm:num_requests_running'', 7)"
  "metric_sample parse_digit ''vllm:num_requests_waiting 2'' = Some (''vllm:num_requests_waiting'', 2)"
  "metric_sample parse_digit ''sglang:num_running_reqs 8'' = Some (''sglang:num_running_reqs'', 8)"
  "metric_sample parse_digit ''sglang:num_queue_reqs 3'' = Some (''sglang:num_queue_reqs'', 3)"
  by (simp_all add: metric_sample_eval)


text \<open>
  Auto-detection of an SGLang backend. On a text with no vLLM sample the parser without an
  engine, which is how the scrape loop calls it, keeps the first SGLang sample only: the flag
  \<open>Parsed\<close> it sets makes every later line go to the vLLM parser alone. The queue length and memory
  ratio that follow the first sample are lost, while the parser with the engine reports them.
\<close>

theorem autodetect_keeps_first_sglang_sample:
  assumes "ss = List.map_filter (metric_sample pf) (scan_lines inp)"
    and "fst ` set ss \<inter> vllm_names = {}"
  shows "parsePrometheusMetrics pf inp EngineUnknown =
      (case find (\<lambda>s. fst s \<in> sglang_names) ss of None \<Rightarrow> empty_result | Some s \<Rightarrow> apply_sglang s empty_result)"
proof -
  have "samples pf inp = ss" by (simp add: samples_def assms(1))
  moreover have "\<forall>s\<in>set ss. fst s \<notin> vllm_names" using assms(2) by blast
  ultimately show ?thesis
    using fold_auto_sglang [of ss] by (simp add: parsePrometheusMetrics_samples apply_engine_def)
qed

theorem autodetect_keeps_first_sglang_sample_witness:
  "parsePrometheusMetrics parse_digit sglang_text EngineUnknown =
     \<lparr>sr_RunningReqs = 8, sr_WaitingReqs = 0, sr_KVCachePct = 0, sr_Parsed = True\<rparr> \<and>
   parsePrometheusMetrics parse_digit sglang_text EngineSGLang =
     \<lparr>sr_RunningReqs = 8, sr_WaitingReqs = 3, sr_KVCachePct = 0, sr_Parsed = True\<rparr>"
proof
  have ss: "List.map_filter (metric_sample parse_digit) (scan_lines sglang_text) =
      [(''sglang:num_running_reqs'', 8), (''sglang:num_queue_reqs'', 3)]"
    by (simp add: sglang_text_lines sample_lines List.map_filter_simps)
  show "parsePrometheusMetrics parse_digit sglang_text EngineUnknown =
     \<lparr>sr_RunningReqs = 8, sr_WaitingReqs = 0, sr_KVCachePct = 0, sr_Parsed = True\<rparr>"
    by (subst autodetect_keeps_first_sglang_sample [OF ss [symmetric]])
      (simp_all add: vllm_names_def sglang_names_def apply_sglang_def empty_result_def trunc_def)
  show "parsePrometheusMetrics parse_digit sglang_text EngineSGLang =
     \<lparr>sr_RunningReqs = 8, sr_WaitingReqs = 3, sr_KVCachePct = 0, sr_Parsed = True\<rparr>"
    using ss by (simp add: parsePrometheusMetrics_samples samples_def apply_engine_def apply_sglang_def
        empty_result_def trunc_def)
qed

end
