(* ===== verification/Lb_Balancer.thy ===== *)
theory Lb_Balancer
  imports Load_Selection Metrics_Parser "HOL-Library.Multiset"
begin

text \<open>
  The balancer (\<open>internal/balancer/balancer.go\<close>): its groups, the selection of a backend for a
  request, the bookkeeping around a request and the propagation of health.

  Go visits the entries of a map in an unspecified order, which may differ from loop to loop. An
  operation whose result depends on it takes the order of its loop as an argument \<open>ks\<close>, one with
  several loops takes the orders of its loops as \<open>ords 0\<close>, \<open>ords 1\<close>, and so on. Theorems hold for
  every \<open>range_order\<close> of the map in question. The atomic counter of a backend and its flow
  statistics have their own locks, so each operation below on one backend is one atomic step.
\<close>

section \<open>Groups\<close>

record Group =
  bg_Cfg :: GroupConfig
  bg_Selector :: "Selector option"
  bg_States :: "(string, BackendState) gomap"

record Balancer =
  bal_groups :: "(string, Group) gomap"
  bal_done :: bool

definition group_states :: "Config \<Rightarrow> string \<Rightarrow> GroupConfig \<Rightarrow> (string, BackendState) gomap" where
  "group_states cfg name grpCfg =
     fold (\<lambda>be. gm_set (be_ID be)
            (NewBackendState (be_ID be) (be_BaseURL be) 1 (GetFlowWindowDuration cfg (Some grpCfg))))
       (GroupBackends cfg name) []"

definition group_selector :: "GroupConfig \<Rightarrow> Selector option" where
  "group_selector grpCfg =
     (if grp_Strategy grpCfg = ''sticky_least_loaded'' then
        (let staleThresh = seconds (GetStaleThreshold grpCfg);
             staleThresh' = (if staleThresh = 0 then seconds 30 else staleThresh)
         in Some (StickySelector (NewStickyLeastLoaded
              (NewInMemoryStore (seconds (aff_TTLSeconds (grp_Affinity grpCfg)))
                 (aff_MaxEntries (grp_Affinity grpCfg)))
              (ovl_MaxConcurrency (grp_Overload grpCfg)) (ovl_KVCachePct (grp_Overload grpCfg))
              staleThresh')))
      else NewSelector (grp_Strategy grpCfg))"

definition balancer_New :: "Config \<Rightarrow> Balancer" where
  "balancer_New cfg =
     \<lparr>bal_groups = gm_map_values (\<lambda>name grpCfg.
          \<lparr>bg_Cfg = grpCfg, bg_Selector = group_selector grpCfg,
           bg_States = group_states cfg name grpCfg\<rparr>) (cfg_Groups cfg),
      bal_done = False\<rparr>"

text \<open>Assignments through the pointers of the maps.\<close>

definition upd_group :: "string \<Rightarrow> (Group \<Rightarrow> Group) \<Rightarrow> Balancer \<Rightarrow> Balancer" where
  "upd_group g f bal =
     bal\<lparr>bal_groups := gm_map_values (\<lambda>k grp. if k = g then f grp else grp) (bal_groups bal)\<rparr>"

definition map_state :: "string \<Rightarrow> (BackendState \<Rightarrow> BackendState) \<Rightarrow> Group \<Rightarrow> Group" where
  "map_state i f grp =
     grp\<lparr>bg_States := gm_map_values (\<lambda>k st. if k = i then f st else st) (bg_States grp)\<rparr>"

section \<open>Selection\<close>

definition select_pool :: "time \<Rightarrow> (nat \<Rightarrow> string list) \<Rightarrow> (string, BackendState) gomap \<Rightarrow> BackendState list" where
  "select_pool now ords states =
     (let pool = filter IsHealthy (map snd (gm_range (ords 0) states)) in
      if length pool = 0 then
        (let pool' = filter (\<lambda>st. \<not> IsHealthy st \<and> ShouldRetry now 0 st) (map snd (gm_range (ords 1) states)) in
         if length pool' = 0 then take 1 (map snd (gm_range (ords 2) states)) else pool')
      else pool)"

definition balancer_Select ::
  "time \<Rightarrow> (nat \<Rightarrow> string list) \<Rightarrow> string \<Rightarrow> string \<Rightarrow> RequestContext option \<Rightarrow> Balancer \<Rightarrow>
   (sel_error + BackendState) \<times> Balancer" where
  "balancer_Select now ords groupName key ctx bal =
     (case gm_get (bal_groups bal) groupName of
        None \<Rightarrow> (Inl (UnknownGroup groupName), bal)
      | Some grp \<Rightarrow>
          (case bg_Selector grp of
             None \<Rightarrow> (Inl RuntimePanic, bal)
           | Some sel \<Rightarrow>
               (let (r, sel') = Selector_Select now sel (select_pool now ords (bg_States grp)) key ctx
                in (r, upd_group groupName (\<lambda>g. g\<lparr>bg_Selector := Some sel'\<rparr>) bal))))"

section \<open>Request bookkeeping\<close>

text \<open>
  The loops of \<open>Incr\<close>, \<open>Decr\<close>, \<open>Dispatch\<close>, \<open>Complete\<close>, \<open>isBackendHealthy\<close> and \<open>shouldRetry\<close> stop
  at the first group that has the backend.
\<close>

definition first_group :: "string list \<Rightarrow> string \<Rightarrow> Balancer \<Rightarrow> (string \<times> BackendState) option" where
  "first_group ks i bal =
     (case List.map_filter (\<lambda>(g, grp). map_option (Pair g) (gm_get (bg_States grp) i))
             (gm_range ks (bal_groups bal)) of
        [] \<Rightarrow> None
      | hit # _ \<Rightarrow> Some hit)"

definition at_first :: "string list \<Rightarrow> string \<Rightarrow> (BackendState \<Rightarrow> BackendState) \<Rightarrow> Balancer \<Rightarrow> Balancer" where
  "at_first ks i f bal =
     (case first_group ks i bal of
        None \<Rightarrow> bal
      | Some (g, _) \<Rightarrow> upd_group g (map_state i f) bal)"

text \<open>The loops that visit every group that has the backend.\<close>

definition on_all :: "string \<Rightarrow> (BackendState \<Rightarrow> BackendState) \<Rightarrow> Balancer \<Rightarrow> Balancer" where
  "on_all i f bal = bal\<lparr>bal_groups := gm_map_values (\<lambda>_. map_state i f) (bal_groups bal)\<rparr>"

definition Incr :: "string list \<Rightarrow> string \<Rightarrow> Balancer \<Rightarrow> Balancer" where
  "Incr ks backendID bal = at_first ks backendID (\<lambda>st. st\<lparr>InFlight := InFlight st + 1\<rparr>) bal"

definition Decr :: "string list \<Rightarrow> string \<Rightarrow> Balancer \<Rightarrow> Balancer" where
  "Decr ks backendID bal = at_first ks backendID (\<lambda>st. st\<lparr>InFlight := InFlight st + -1\<rparr>) bal"

definition balancer_Dispatch :: "time \<Rightarrow> string list \<Rightarrow> string \<Rightarrow> Balancer \<Rightarrow> Balancer" where
  "balancer_Dispatch now ks backendID bal =
     at_first ks backendID (\<lambda>st. st\<lparr>Flow := map_option (flow_Dispatch now) (Flow st)\<rparr>) bal"

definition balancer_Complete ::
  "time \<Rightarrow> string list \<Rightarrow> string \<Rightarrow> bool \<Rightarrow> bool \<Rightarrow> real \<Rightarrow> Balancer \<Rightarrow> Balancer" where
  "balancer_Complete now ks backendID success timedOut ttftMs bal =
     at_first ks backendID
       (\<lambda>st. st\<lparr>Flow := map_option (flow_Complete now success timedOut ttftMs) (Flow st)\<rparr>) bal"

definition recordRequestOutcome :: "time \<Rightarrow> string \<Rightarrow> bool \<Rightarrow> Balancer \<Rightarrow> Balancer" where
  "recordRequestOutcome now backendID success bal =
     on_all backendID (RecordRequestOutcome now success 3 0) bal"

definition CompleteAndDecr ::
  "time \<Rightarrow> (nat \<Rightarrow> string list) \<Rightarrow> string \<Rightarrow> bool \<Rightarrow> bool \<Rightarrow> real \<Rightarrow> Balancer \<Rightarrow> Balancer" where
  "CompleteAndDecr now ords backendID success timedOut ttftMs bal =
     (let bal1 = balancer_Complete now (ords 0) backendID success timedOut ttftMs bal;
          bal2 = Decr (ords 1) backendID bal1
      in if \<not> timedOut then recordRequestOutcome now backendID success bal2 else bal2)"

definition InvalidatePin :: "time \<Rightarrow> string \<Rightarrow> string \<Rightarrow> Balancer \<Rightarrow> Balancer" where
  "InvalidatePin now groupName key bal =
     (if key = '''' then bal
      else (case gm_get (bal_groups bal) groupName of
              None \<Rightarrow> bal
            | Some grp \<Rightarrow>
                (case bg_Selector grp of
                   Some (StickySelector sel) \<Rightarrow>
                     (let bal1 =
                        (case store_Get now (sl_store sel) key of
                           None \<Rightarrow> bal
                         | Some entry \<Rightarrow>
                             upd_group groupName
                               (map_state (BackendID entry) (RecordDispatchFailure now 10)) bal)
                      in upd_group groupName (\<lambda>g. g\<lparr>bg_Selector :=
                           Some (StickySelector (sel\<lparr>sl_store := store_Delete (sl_store sel) key\<rparr>))\<rparr>) bal1)
                 | _ \<Rightarrow> bal)))"

definition TotalInFlight :: "Balancer \<Rightarrow> int" where
  "TotalInFlight bal =
     sum_list (map (\<lambda>(_, grp). sum_list (map (\<lambda>(_, st). InFlight st) (bg_States grp))) (bal_groups bal))"

definition AffinityCacheSize :: "Balancer \<Rightarrow> nat" where
  "AffinityCacheSize bal =
     sum_list (map (\<lambda>(_, grp). case bg_Selector grp of
         Some (StickySelector sel) \<Rightarrow> store_Len (sl_store sel) | _ \<Rightarrow> 0) (bal_groups bal))"

section \<open>Health\<close>

definition isBackendHealthy :: "string list \<Rightarrow> string \<Rightarrow> Balancer \<Rightarrow> bool" where
  "isBackendHealthy ks i bal =
     (case first_group ks i bal of None \<Rightarrow> False | Some (_, st) \<Rightarrow> IsHealthy st)"

definition shouldRetry :: "time \<Rightarrow> string list \<Rightarrow> string \<Rightarrow> int \<Rightarrow> Balancer \<Rightarrow> bool" where
  "shouldRetry now ks i retryDelaySec bal =
     (case first_group ks i bal of None \<Rightarrow> True | Some (_, st) \<Rightarrow> ShouldRetry now retryDelaySec st)"

definition markHealthy :: "time \<Rightarrow> string \<Rightarrow> bool \<Rightarrow> int \<Rightarrow> Balancer \<Rightarrow> Balancer" where
  "markHealthy now i wasUnhealthy rampUpSeconds bal =
     (let rampSec = (if wasUnhealthy \<and> rampUpSeconds > 0 then rampUpSeconds else 0)
      in on_all i (SetHealthy now rampSec) bal)"

fun markUnhealthy :: "time \<Rightarrow> string list \<Rightarrow> string \<Rightarrow> int \<Rightarrow> Balancer \<Rightarrow> Balancer" where
  "markUnhealthy now [] i failures bal = bal"
| "markUnhealthy now (g # ks) i failures bal =
     (case gm_get (bal_groups bal) g of
        None \<Rightarrow> markUnhealthy now ks i failures bal
      | Some grp \<Rightarrow>
          (case gm_get (bg_States grp) i of
             None \<Rightarrow> markUnhealthy now ks i failures bal
           | Some st \<Rightarrow>
               (if InFlight st > 0 then bal
                else if time_since now (LastSuccessAt st) < seconds 60 then bal
                else
                  (let threshold = hc_UnhealthyAfter (grp_HealthCheck (bg_Cfg grp));
                       threshold' = (if threshold = 0 then 3 else threshold)
                   in markUnhealthy now ks i failures
                        (upd_group g (map_state i (RecordFailure now failures threshold')) bal)))))"

definition updateMetrics :: "time \<Rightarrow> string \<Rightarrow> bool \<Rightarrow> int \<Rightarrow> int \<Rightarrow> real \<Rightarrow> Balancer \<Rightarrow> Balancer" where
  "updateMetrics now i available running waiting kvCachePct bal =
     on_all i (UpdateMetrics now available running waiting kvCachePct) bal"

section \<open>Reading the balancer\<close>

definition state_at :: "Balancer \<Rightarrow> string \<Rightarrow> string \<Rightarrow> BackendState option" where
  "state_at bal g i = Option.bind (gm_get (bal_groups bal) g) (\<lambda>grp. gm_get (bg_States grp) i)"

definition selector_at :: "Balancer \<Rightarrow> string \<Rightarrow> Selector option" where
  "selector_at bal g = Option.bind (gm_get (bal_groups bal) g) bg_Selector"

definition group_ok :: "Group \<Rightarrow> bool" where
  "group_ok grp \<longleftrightarrow> gm_wf (bg_States grp) \<and> list_all (\<lambda>(i, st). ID st = i) (bg_States grp) \<and>
     (case bg_Selector grp of None \<Rightarrow> False | Some sel \<Rightarrow> Selector_ok sel)"

definition bal_wf :: "Balancer \<Rightarrow> bool" where
  "bal_wf bal \<longleftrightarrow> gm_wf (bal_groups bal) \<and> list_all (\<lambda>(_, grp). group_ok grp) (bal_groups bal)"

text \<open>No backend id is in two groups.\<close>

definition groups_disjoint :: "Balancer \<Rightarrow> bool" where
  "groups_disjoint bal \<longleftrightarrow>
     (\<forall>g g' i. state_at bal g i \<noteq> None \<and> state_at bal g' i \<noteq> None \<longrightarrow> g = g')"

lemma gm_get_map_if:
  "gm_get (gm_map_values (\<lambda>k v. if k = g then f v else v) m) g' =
     (if g' = g then map_option f (gm_get m g) else gm_get m g')"
  by (induction m) (auto simp: gm_map_values_def)

lemma set_map_values: "set (gm_map_values f m) = (\<lambda>(k, v). (k, f k v)) ` set m"
  by (simp add: gm_map_values_def)

lemma state_at_upd_state [simp]:
  "state_at (upd_group g (map_state i f) bal) g' i' =
     (if g' = g \<and> i' = i then map_option f (state_at bal g i) else state_at bal g' i')"
  by (cases "gm_get (bal_groups bal) g") (auto simp: state_at_def upd_group_def map_state_def gm_get_map_if)

lemma state_at_on_all [simp]:
  "state_at (on_all i f bal) g i' = (if i' = i then map_option f (state_at bal g i) else state_at bal g i')"
  by (cases "gm_get (bal_groups bal) g")
    (auto simp: state_at_def on_all_def map_state_def gm_get_map_values gm_get_map_if option.map_ident)

lemma state_at_selector [simp]:
  "state_at (upd_group g (\<lambda>grp. grp\<lparr>bg_Selector := sel\<rparr>) bal) g' i = state_at bal g' i"
  by (cases "gm_get (bal_groups bal) g") (auto simp: state_at_def upd_group_def gm_get_map_if)

lemma selector_at_ops [simp]:
  "selector_at (upd_group g (map_state i f) bal) g' = selector_at bal g'"
  "selector_at (on_all i f bal) g' = selector_at bal g'"
  by (cases "gm_get (bal_groups bal) g'";
      auto simp: selector_at_def upd_group_def on_all_def map_state_def gm_get_map_values gm_get_map_if)+

lemma selector_at_selector [simp]:
  "selector_at (upd_group g (\<lambda>grp. grp\<lparr>bg_Selector := sel\<rparr>) bal) g' =
     (if g' = g \<and> gm_get (bal_groups bal) g \<noteq> None then sel else selector_at bal g')"
  by (cases "gm_get (bal_groups bal) g") (auto simp: selector_at_def upd_group_def gm_get_map_if)

lemma gm_keys_groups [simp]:
  "gm_keys (bal_groups (upd_group g f bal)) = gm_keys (bal_groups bal)"
  "gm_keys (bal_groups (on_all i h bal)) = gm_keys (bal_groups bal)"
  by (simp_all add: upd_group_def on_all_def)

lemma gm_get_upd_group:
  "gm_get (bal_groups (upd_group g f bal)) g' =
     (if g' = g then map_option f (gm_get (bal_groups bal) g) else gm_get (bal_groups bal) g')"
  by (simp add: upd_group_def gm_get_map_if)

lemma range_order_ops [simp]:
  "range_order ks (bal_groups (upd_group g f bal)) = range_order ks (bal_groups bal)"
  "range_order ks (bal_groups (on_all i h bal)) = range_order ks (bal_groups bal)"
  by (simp_all add: range_order_def)

text \<open>Updates of states keep the shape of the balancer.\<close>

lemma group_ok_map_state: "(\<And>st. ID (f st) = ID st) \<Longrightarrow> group_ok grp \<Longrightarrow> group_ok (map_state i f grp)"
  by (auto simp: group_ok_def map_state_def set_map_values gm_wf_def list_all_iff)

lemma bal_wf_upd:
  assumes "\<And>grp. group_ok grp \<Longrightarrow> group_ok (f grp)" and "bal_wf bal"
  shows "bal_wf (upd_group g f bal)"
  using assms by (auto simp: bal_wf_def upd_group_def set_map_values gm_wf_def list_all_iff)

lemma bal_wf_on_all:
  assumes "\<And>st. ID (f st) = ID st" and "bal_wf bal"
  shows "bal_wf (on_all i f bal)"
  using assms group_ok_map_state [of f]
  by (auto simp: bal_wf_def on_all_def set_map_values gm_wf_def list_all_iff)

lemma group_ok_selector: "Selector_ok sel \<Longrightarrow> group_ok grp \<Longrightarrow> group_ok (grp\<lparr>bg_Selector := Some sel\<rparr>)"
  by (simp add: group_ok_def)

lemma bal_wf_group: "bal_wf bal \<Longrightarrow> gm_get (bal_groups bal) g = Some grp \<Longrightarrow> group_ok grp"
  by (auto simp: bal_wf_def list_all_iff gm_get_iff)

lemma state_at_ID: "bal_wf bal \<Longrightarrow> state_at bal g i = Some st \<Longrightarrow> ID st = i"
  by (auto simp: state_at_def bind_eq_Some_conv group_ok_def list_all_iff gm_get_iff dest!: bal_wf_group)

lemma state_at_None_ops:
  "state_at (upd_group g (map_state i f) bal) g' i' = None \<longleftrightarrow> state_at bal g' i' = None"
  "state_at (on_all i f bal) g' i' = None \<longleftrightarrow> state_at bal g' i' = None"
  by simp_all

lemma groups_disjoint_ops [simp]:
  "groups_disjoint (upd_group g (map_state i f) bal) = groups_disjoint bal"
  "groups_disjoint (on_all i f bal) = groups_disjoint bal"
  "groups_disjoint (upd_group g (\<lambda>grp. grp\<lparr>bg_Selector := sel\<rparr>) bal) = groups_disjoint bal"
  unfolding groups_disjoint_def state_at_None_ops state_at_selector by (rule refl)+

lemma map_state_absent: "gm_wf (bg_States grp) \<Longrightarrow> gm_get (bg_States grp) i = None \<Longrightarrow> map_state i f grp = grp"
  by (cases grp) (force simp: map_state_def gm_map_values_def map_of_eq_None_iff intro!: map_idI)

lemma first_group_hits:
  "set (List.map_filter (\<lambda>(g, grp). map_option (Pair g) (gm_get (bg_States grp) i)) (gm_range ks (bal_groups bal))) =
     {(g, st). g \<in> set ks \<and> state_at bal g i = Some st}"
  by (force simp: List.map_filter_def image_iff gm_range_mem state_at_def bind_eq_Some_conv)

lemma state_at_key: "range_order ks (bal_groups bal) \<Longrightarrow> state_at bal g i = Some st \<Longrightarrow> g \<in> set ks"
  by (auto simp: range_order_def state_at_def bind_eq_Some_conv dest: gm_get_in_keys)

lemma list_head_unique: "x \<in> set xs \<Longrightarrow> \<forall>y\<in>set xs. y = x \<Longrightarrow> \<exists>ys. xs = x # ys"
  by (cases xs) auto

lemma first_group_hit:
  assumes "groups_disjoint bal" and "range_order ks (bal_groups bal)" and "state_at bal g i = Some st"
  shows "first_group ks i bal = Some (g, st)"
proof -
  let ?hits = "List.map_filter (\<lambda>(g, grp). map_option (Pair g) (gm_get (bg_States grp) i))
      (gm_range ks (bal_groups bal))"
  have "(g, st) \<in> set ?hits"
    unfolding first_group_hits using assms(3) state_at_key [OF assms(2,3)] by simp
  moreover have "\<forall>h\<in>set ?hits. h = (g, st)"
    unfolding first_group_hits using assms(1,3) unfolding groups_disjoint_def by fastforce
  ultimately obtain hs where "?hits = (g, st) # hs" using list_head_unique by meson
  then show ?thesis by (simp add: first_group_def)
qed

lemma first_group_miss:
  assumes "\<forall>g. state_at bal g i = None"
  shows "first_group ks i bal = None"
proof -
  have "List.map_filter (\<lambda>(g, grp). map_option (Pair g) (gm_get (bg_States grp) i))
      (gm_range ks (bal_groups bal)) = []"
    using first_group_hits [of i ks bal] assms by (simp del: map_filter_simps)
  then show ?thesis by (simp add: first_group_def)
qed

text \<open>With ids in one group each, stopping at the first group is visiting all of them.\<close>

lemma at_first_on_all:
  assumes wf: "bal_wf bal" and dis: "groups_disjoint bal" and ks: "range_order ks (bal_groups bal)"
  shows "at_first ks i f bal = on_all i f bal"
proof -
  have absent: "map_state i f grp = grp"
    if "(g, grp) \<in> set (bal_groups bal)" "state_at bal g i = None" for g grp
  proof (rule map_state_absent)
    have "gm_get (bal_groups bal) g = Some grp" using that wf by (simp add: bal_wf_def gm_get_iff)
    then show "gm_wf (bg_States grp)" "gm_get (bg_States grp) i = None"
      using that(2) bal_wf_group [OF wf] by (auto simp: state_at_def group_ok_def)
  qed
  show ?thesis
  proof (cases "\<exists>g st. state_at bal g i = Some st")
    case False
    then have none: "\<forall>g. state_at bal g i = None" by simp
    then have "gm_map_values (\<lambda>_. map_state i f) (bal_groups bal) = bal_groups bal"
      using absent by (force simp: gm_map_values_def intro!: map_idI)
    with none show ?thesis by (simp add: at_first_def first_group_miss on_all_def)
  next
    case True
    then obtain g st where st: "state_at bal g i = Some st" by blast
    have "state_at bal g' i = None" if "g' \<noteq> g" for g'
      using dis st that unfolding groups_disjoint_def by blast
    then have "gm_map_values (\<lambda>k grp. if k = g then map_state i f grp else grp) (bal_groups bal) =
        gm_map_values (\<lambda>_. map_state i f) (bal_groups bal)"
      using absent by (auto simp: gm_map_values_def)
    then show ?thesis
      by (simp add: at_first_def first_group_hit [OF dis ks st] upd_group_def on_all_def)
  qed
qed

lemma state_at_at_first:
  assumes "bal_wf bal" and "groups_disjoint bal" and "range_order ks (bal_groups bal)"
  shows "state_at (at_first ks i f bal) g i' =
    (if i' = i then map_option f (state_at bal g i) else state_at bal g i')"
  by (simp add: at_first_on_all [OF assms])

section \<open>Selection\<close>

lemma select_pool_set:
  assumes "range_order (ords 0) states" "range_order (ords 1) states" and "gm_wf states"
  shows "set (select_pool now ords states) =
    (let vs = snd ` set states in if \<exists>st\<in>vs. IsHealthy st then {st \<in> vs. IsHealthy st} else vs)"
proof -
  have r: "set (map snd (gm_range (ords n) states)) = snd ` set states" if "range_order (ords n) states" for n
    using gm_range_set [OF that assms(3)] by simp
  have h: "set (filter IsHealthy (map snd (gm_range (ords 0) states))) = {st \<in> snd ` set states. IsHealthy st}"
    unfolding set_filter r [OF assms(1)] ..
  have u: "set (filter (\<lambda>st. \<not> IsHealthy st \<and> ShouldRetry now 0 st) (map snd (gm_range (ords 1) states))) =
      {st \<in> snd ` set states. \<not> IsHealthy st}"
    unfolding set_filter r [OF assms(2)] by (auto simp: ShouldRetry_def)
  show ?thesis
  proof (cases "\<exists>st\<in>snd ` set states. IsHealthy st")
    case True
    then have "{st \<in> snd ` set states. IsHealthy st} \<noteq> {}" by blast
    with h have "filter IsHealthy (map snd (gm_range (ords 0) states)) \<noteq> []"
      by (metis set_empty)
    with True h show ?thesis by (simp add: select_pool_def)
  next
    case False
    then have "{st \<in> snd ` set states. IsHealthy st} = {}" by blast
    with h have none: "filter IsHealthy (map snd (gm_range (ords 0) states)) = []"
      by (simp only: set_empty)
    have all: "{st \<in> snd ` set states. \<not> IsHealthy st} = snd ` set states" using False by blast
    show ?thesis
    proof (cases "states = []")
      case True
      then show ?thesis by (simp add: select_pool_def gm_range_def List.map_filter_def)
    next
      case ne: False
      with u all have "filter (\<lambda>st. \<not> IsHealthy st \<and> ShouldRetry now 0 st) (map snd (gm_range (ords 1) states)) \<noteq> []"
        by (metis image_is_empty set_empty)
      with False none u all show ?thesis by (simp add: select_pool_def)
    qed
  qed
qed

lemma select_pool_IDs:
  assumes "range_order (ords 0) states" "range_order (ords 1) states" "range_order (ords 2) states"
    and "list_all (\<lambda>(i, st). ID st = i) states"
  shows "distinct (map ID (select_pool now ords states))"
proof -
  have d: "distinct (map ID (filter P (map snd (gm_range ks states))))" if "range_order ks states" for P ks
  proof -
    have "map ID (map snd (gm_range ks states)) = filter (\<lambda>k. gm_get states k \<noteq> None) ks"
      using assms(4) unfolding gm_range_def
      by (induction ks) (auto simp: List.map_filter_simps list_all_iff dest: map_of_SomeD split: option.split)
    then have "distinct (map ID (map snd (gm_range ks states)))"
      using that by (simp add: range_order_def)
    then show ?thesis by (auto simp: distinct_map inj_on_def)
  qed
  show ?thesis
    using d [OF assms(1), of IsHealthy] d [OF assms(2), of "\<lambda>st. \<not> IsHealthy st \<and> ShouldRetry now 0 st"]
      d [OF assms(3), of "\<lambda>_. True"]
    unfolding select_pool_def Let_def
    by (simp add: take_map [symmetric] distinct_take del: map_map)
qed

lemma bal_wf_Select:
  assumes "bal_wf bal"
  shows "bal_wf (snd (balancer_Select now ords g key ctx bal))"
proof (cases "gm_get (bal_groups bal) g")
  case None
  with assms show ?thesis by (simp add: balancer_Select_def)
next
  case (Some grp)
  with assms obtain sel where sel: "bg_Selector grp = Some sel" "Selector_ok sel"
    using bal_wf_group by (fastforce simp: group_ok_def split: option.splits)
  with grp_sel.sel_inv Some show ?thesis
    by (auto simp: balancer_Select_def split_beta intro!: bal_wf_upd group_ok_selector assms)
qed

lemma state_at_Select [simp]:
  "state_at (snd (balancer_Select now ords g key ctx bal)) g' i = state_at bal g' i"
  by (simp add: balancer_Select_def split_beta split: option.split)

lemma groups_Select [simp]:
  "groups_disjoint (snd (balancer_Select now ords g key ctx bal)) = groups_disjoint bal"
  "range_order ks (bal_groups (snd (balancer_Select now ords g key ctx bal))) = range_order ks (bal_groups bal)"
  by (simp_all add: balancer_Select_def split_beta split: option.split)

lemma state_at_mem:
  "gm_get (bal_groups bal) g = Some grp \<Longrightarrow> gm_wf (bg_States grp) \<Longrightarrow>
     (i, st) \<in> set (bg_States grp) \<longleftrightarrow> state_at bal g i = Some st"
  by (simp add: state_at_def gm_get_iff)

text \<open>The members of the pool of a group, in terms of its states.\<close>

lemma pool_member:
  assumes "bal_wf bal" and "gm_get (bal_groups bal) g = Some grp" and "\<forall>n. range_order (ords n) (bg_States grp)"
  shows "st \<in> set (select_pool now ords (bg_States grp)) \<longleftrightarrow>
    state_at bal g (ID st) = Some st \<and>
    (IsHealthy st \<or> (\<forall>i st'. state_at bal g i = Some st' \<longrightarrow> \<not> IsHealthy st'))"
proof -
  have ok: "gm_wf (bg_States grp)" "list_all (\<lambda>(i, st). ID st = i) (bg_States grp)"
    using bal_wf_group [OF assms(1,2)] by (auto simp: group_ok_def)
  have vs: "st' \<in> snd ` set (bg_States grp) \<longleftrightarrow> state_at bal g (ID st') = Some st'" for st'
    using ok by (force simp: state_at_mem [OF assms(2), symmetric] list_all_iff)
  have all: "(\<exists>st'\<in>snd ` set (bg_States grp). IsHealthy st') \<longleftrightarrow> (\<exists>i st'. state_at bal g i = Some st' \<and> IsHealthy st')"
    using vs state_at_ID [OF assms(1)] by metis
  show ?thesis
    unfolding select_pool_set [OF assms(3) [rule_format] assms(3) [rule_format] ok(1)] Let_def all
    using vs by auto
qed

lemma select_pool_not_Nil:
  assumes "bal_wf bal" and "gm_get (bal_groups bal) g = Some grp" and "\<forall>n. range_order (ords n) (bg_States grp)"
    and "state_at bal g i = Some st"
  shows "select_pool now ords (bg_States grp) \<noteq> []"
proof -
  have i: "ID st = i" using state_at_ID [OF assms(1,4)] .
  show ?thesis
  proof (cases "\<exists>j st'. state_at bal g j = Some st' \<and> IsHealthy st'")
    case True
    then obtain j st' where "state_at bal g (ID st') = Some st'" "IsHealthy st'"
      using state_at_ID [OF assms(1)] by metis
    with pool_member [OF assms(1-3)] show ?thesis by (metis list.set_cases empty_iff list.set(1))
  next
    case False
    with i assms(4) pool_member [OF assms(1-3)] show ?thesis by (metis empty_iff list.set(1))
  qed
qed

lemma balancer_Select_member:
  assumes "bal_wf bal" and "gm_get (bal_groups bal) g = Some grp" and "\<forall>n. range_order (ords n) (bg_States grp)"
    and "state_at bal g i = Some st0"
  shows "\<exists>st. fst (balancer_Select now ords g key ctx bal) = Inr st \<and>
    st \<in> set (select_pool now ords (bg_States grp))"
proof -
  obtain sel where sel: "bg_Selector grp = Some sel" "Selector_ok sel"
    using bal_wf_group [OF assms(1,2)] by (auto simp: group_ok_def split: option.splits)
  obtain st where "st \<in> set (select_pool now ords (bg_States grp))"
    "fst (Selector_Select now sel (select_pool now ords (bg_States grp)) key ctx) = Inr st"
    using grp_sel.sel_member [OF sel(2) select_pool_not_Nil [OF assms]] by blast
  with assms(2) sel(1) show ?thesis by (auto simp: balancer_Select_def split_beta)
qed

section \<open>Failover\<close>

lemma InvalidatePin_sticky:
  assumes "key \<noteq> ''''" and "gm_get (bal_groups bal) g = Some grp" and "bg_Selector grp = Some (StickySelector s)"
  shows "selector_at (InvalidatePin now g key bal) g =
      Some (StickySelector (s\<lparr>sl_store := store_Delete (sl_store s) key\<rparr>))"
    and "state_at (InvalidatePin now g key bal) g' i =
      (case store_Get now (sl_store s) key of
         None \<Rightarrow> state_at bal g' i
       | Some e \<Rightarrow> (if g' = g \<and> i = BackendID e then map_option (RecordDispatchFailure now 10) (state_at bal g i)
                    else state_at bal g' i))"
  using assms by (auto simp: InvalidatePin_def Let_def gm_get_upd_group split: option.split)

lemma bal_wf_InvalidatePin: "bal_wf bal \<Longrightarrow> bal_wf (InvalidatePin now g key bal)"
proof -
  assume wf: "bal_wf bal"
  have fail: "bal_wf (upd_group g (map_state i (RecordDispatchFailure now 10)) bal)" for i
    by (rule bal_wf_upd [OF _ wf]) (simp add: group_ok_map_state)
  have del: "bal_wf (upd_group g (\<lambda>grp. grp\<lparr>bg_Selector := Some (StickySelector (s\<lparr>sl_store := store_Delete (sl_store s) key\<rparr>))\<rparr>) bal')"
    if "bal_wf bal'" "gm_get (bal_groups bal) g = Some grp" "bg_Selector grp = Some (StickySelector s)" for bal' grp s
  proof (rule bal_wf_upd [OF group_ok_selector \<open>bal_wf bal'\<close>])
    show "Selector_ok (StickySelector (s\<lparr>sl_store := store_Delete (sl_store s) key\<rparr>))"
      using bal_wf_group [OF wf that(2)] that(3) by (simp add: group_ok_def store_ok_ops)
  qed
  show ?thesis
    by (auto simp: InvalidatePin_def Let_def wf intro: del fail split: option.split Selector.split)
qed

lemma IsFailing_cooldown:
  "IsFailing now' (RecordDispatchFailure now 10 st) \<longleftrightarrow> now' < now + seconds 10"
  by (simp add: RecordDispatchFailure_def IsFailing_def)

section \<open>Properties of selection\<close>

text \<open>
  C13: a group that has a backend is always served. Whatever the health of its backends and the
  order in which the map is visited, selection in a known, non-empty group returns one of its
  backends, an unhealthy one only when none is healthy; it changes no backend state and keeps the
  balancer well formed. The errors are an unknown group and a group with no backend.
\<close>

theorem balancer_Select_serves:
  assumes "bal_wf bal" and "gm_get (bal_groups bal) g = Some grp"
    and "\<forall>n. range_order (ords n) (bg_States grp)" and "bg_States grp \<noteq> []"
  shows "\<exists>st bal'. balancer_Select now ords g key ctx bal = (Inr st, bal') \<and>
    state_at bal g (ID st) = Some st \<and>
    (IsHealthy st \<or> (\<forall>i st'. state_at bal g i = Some st' \<longrightarrow> \<not> IsHealthy st')) \<and>
    bal_wf bal' \<and> (\<forall>g' i. state_at bal' g' i = state_at bal g' i)"
proof -
  obtain i st0 where "gm_get (bg_States grp) i = Some st0"
    using assms(4) by (cases "bg_States grp") (simp, metis map_of_Cons_code(2) surj_pair)
  then have "state_at bal g i = Some st0" by (simp add: state_at_def assms(2))
  from balancer_Select_member [OF assms(1-3) this]
  obtain st where st: "fst (balancer_Select now ords g key ctx bal) = Inr st"
    "st \<in> set (select_pool now ords (bg_States grp))" by blast
  with pool_member [OF assms(1-3), of st now] show ?thesis
    using bal_wf_Select [OF assms(1)] state_at_Select
    by (metis prod.collapse)
qed

text \<open>A group of two backends on the default settings.\<close>

definition sample_group :: "Selector \<Rightarrow> BackendState list \<Rightarrow> Group" where
  "sample_group sel sts =
     \<lparr>bg_Cfg = default_group None, bg_Selector = Some sel, bg_States = map (\<lambda>st. (ID st, st)) sts\<rparr>"

definition sample_bal :: "Selector \<Rightarrow> BackendState list \<Rightarrow> Balancer" where
  "sample_bal sel sts = \<lparr>bal_groups = [(''gpu'', sample_group sel sts)], bal_done = False\<rparr>"

definition sample_sticky :: "inMemoryStore \<Rightarrow> Selector" where
  "sample_sticky st = StickySelector (NewStickyLeastLoaded st 8 0 (seconds 30))"

lemma sample_bal_wf: "Selector_ok sel \<Longrightarrow> distinct (map ID sts) \<Longrightarrow> bal_wf (sample_bal sel sts)"
  by (auto simp: bal_wf_def sample_bal_def group_ok_def sample_group_def gm_wf_def comp_def list_all_iff)

lemma sample_sticky_ok: "Selector_ok (sample_sticky st) = store_ok st"
  by (simp add: sample_sticky_def NewStickyLeastLoaded_def)

lemma sample_bal_group [simp]: "gm_get (bal_groups (sample_bal sel sts)) ''gpu'' = Some (sample_group sel sts)"
  by (simp add: sample_bal_def)

lemma sample_group_fields [simp]:
  "bg_States (sample_group sel sts) = map (\<lambda>st. (ID st, st)) sts" "bg_Selector (sample_group sel sts) = Some sel"
  by (simp_all add: sample_group_def)

theorem balancer_Select_serves_witness:
  "\<exists>st bal'. balancer_Select 5 (\<lambda>_. [''b'', ''a'']) ''gpu'' ''k'' None
     (sample_bal (sample_sticky (NewInMemoryStore 100 10)) [idle_backend ''a'' 0, (idle_backend ''b'' 0)\<lparr>Healthy := False\<rparr>]) =
       (Inr st, bal') \<and> ID st = ''a''"
proof -
  let ?a = "idle_backend ''a'' 0" and ?b = "(idle_backend ''b'' 0)\<lparr>Healthy := False\<rparr>"
  let ?bal = "sample_bal (sample_sticky (NewInMemoryStore 100 10)) [?a, ?b]"
  have b: "ID ?b = ''b''" "\<not> IsHealthy ?b" "IsHealthy ?a"
    by (simp_all add: idle_backend_def NewBackendState_def IsHealthy_def)
  have wf: "bal_wf ?bal" by (rule sample_bal_wf) (simp_all add: sample_sticky_ok b)
  have at: "state_at ?bal ''gpu'' i = (if i = ''a'' then Some ?a else if i = ''b'' then Some ?b else None)" for i
    by (simp add: state_at_def b)
  have "\<forall>n :: nat. range_order [''b'', ''a''] (bg_States (sample_group (sample_sticky (NewInMemoryStore 100 10)) [?a, ?b]))"
    using b by (auto simp: range_order_def)
  from balancer_Select_serves [OF wf sample_bal_group this, of 5 "''k''" None]
  obtain st bal' where "balancer_Select 5 (\<lambda>_. [''b'', ''a'']) ''gpu'' ''k'' None ?bal = (Inr st, bal')"
    and "state_at ?bal ''gpu'' (ID st) = Some st"
    and "IsHealthy st \<or> (\<forall>i st'. state_at ?bal ''gpu'' i = Some st' \<longrightarrow> \<not> IsHealthy st')" by auto
  moreover from this b at have "ID st = ''a''" by (metis option.inject option.distinct(1))
  ultimately show ?thesis by blast
qed

text \<open>
  C21: failover. When a request of a session fails, \<open>InvalidatePin\<close> removes the session's pin and
  puts the pinned backend into a cooldown of 10 seconds. A selection for the session during that
  cooldown goes to another backend whenever the group has a healthy one that is not itself failing.
\<close>

theorem InvalidatePin_failover:
  assumes "bal_wf bal" and "gm_get (bal_groups bal) g = Some grp"
    and "bg_Selector grp = Some (StickySelector s)" and "key \<noteq> ''''"
    and "store_Get now (sl_store s) key = Some e"
    and "now' < now + seconds 10"
    and "state_at bal g i = Some st" and "i \<noteq> BackendID e" and "IsHealthy st" and "\<not> IsFailing now' st"
    and "\<forall>n. range_order (ords n) (bg_States grp)"
  shows "\<exists>b. fst (balancer_Select now' ords g key ctx (InvalidatePin now g key bal)) = Inr b \<and>
    ID b \<noteq> BackendID e \<and> \<not> IsFailing now' b \<and> IsHealthy b"
proof -
  let ?bal = "InvalidatePin now g key bal"
  obtain grp' where grp': "gm_get (bal_groups ?bal) g = Some grp'"
    and sel': "bg_Selector grp' = Some (StickySelector (s\<lparr>sl_store := store_Delete (sl_store s) key\<rparr>))"
    using InvalidatePin_sticky(1) [OF assms(4,2,3), of now] by (auto simp: selector_at_def bind_eq_Some_conv)
  note at = InvalidatePin_sticky(2) [OF assms(4,2,3), of now g, simplified assms(5), simplified]
  have wf: "bal_wf ?bal" by (rule bal_wf_InvalidatePin [OF assms(1)])
  have "state_at ?bal g i = Some st" using at assms(7,8) by simp
  moreover have ords: "\<forall>n. range_order (ords n) (bg_States grp')"
  proof -
    have "gm_get (bg_States grp') k = None \<longleftrightarrow> gm_get (bg_States grp) k = None" for k
      using at [of k] grp' assms(2) by (simp add: state_at_def)
    then have "set (gm_keys (bg_States grp')) = set (gm_keys (bg_States grp))"
      unfolding gm_get_None_iff by blast
    with assms(11) show ?thesis by (simp add: range_order_def)
  qed
  ultimately have pool: "st \<in> set (select_pool now' ords (bg_States grp'))"
    using pool_member [OF wf grp', of ords st now'] state_at_ID [OF assms(1,7)] assms(9) by simp
  then have "select_pool now' ords (bg_States grp') \<noteq> []" by auto
  from sticky_select_in_tier [OF this, of now' "s\<lparr>sl_store := store_Delete (sl_store s) key\<rparr>" key ctx]
  obtain b where b: "b \<in> set (select_pool now' ords (bg_States grp'))"
    and sel: "fst (StickyLeastLoaded_Select store_Get store_Set store_Touch now'
        (s\<lparr>sl_store := store_Delete (sl_store s) key\<rparr>) (select_pool now' ords (bg_States grp')) key ctx) = Inr b"
    and fail: "IsFailing now' b \<longrightarrow> (\<forall>c\<in>set (select_pool now' ords (bg_States grp')). IsFailing now' c)"
    by blast
  have "\<not> IsFailing now' b" using fail pool assms(10) by blast
  moreover have "state_at ?bal g (ID b) = Some b" "IsHealthy b"
    using pool_member [OF wf grp' ords, of b now'] b \<open>state_at ?bal g i = Some st\<close> assms(9) by auto
  moreover have "ID b \<noteq> BackendID e"
  proof
    assume "ID b = BackendID e"
    then obtain st' where "b = RecordDispatchFailure now 10 st'"
      using \<open>state_at ?bal g (ID b) = Some b\<close> at by auto
    with \<open>\<not> IsFailing now' b\<close> assms(6) show False by (simp add: IsFailing_cooldown)
  qed
  ultimately show ?thesis
    using sel grp' sel' by (auto simp: balancer_Select_def split_beta)
qed

theorem InvalidatePin_failover_witness:
  "\<exists>b. fst (balancer_Select 7 (\<lambda>_. [''a'', ''b'']) ''gpu'' ''k'' None
     (InvalidatePin 5 ''gpu'' ''k'' (sample_bal (sample_sticky
        (store_Set 1 (NewInMemoryStore 100 10) ''k'' (pin ''a''))) [idle_backend ''a'' 0, idle_backend ''b'' 3]))) =
     Inr b \<and> ID b \<noteq> ''a''"
proof -
  let ?store = "store_Set 1 (NewInMemoryStore 100 10) ''k'' (pin ''a'')"
  let ?sts = "[idle_backend ''a'' 0, idle_backend ''b'' 3]"
  let ?bal = "sample_bal (sample_sticky ?store) ?sts"
  have wf: "bal_wf ?bal"
    by (rule sample_bal_wf) (simp_all add: sample_sticky_ok store_ok_ops)
  have sel: "bg_Selector (sample_group (sample_sticky ?store) ?sts) =
      Some (StickySelector (NewStickyLeastLoaded ?store 8 0 (seconds 30)))"
    by (simp add: sample_sticky_def)
  have get: "store_Get 5 (sl_store (NewStickyLeastLoaded ?store 8 0 (seconds 30))) ''k'' = Some ((pin ''a'')\<lparr>LastSeen := 1\<rparr>)"
    unfolding NewStickyLeastLoaded_def StickyLeastLoaded.simps
    by (rule store_Get_Set) (simp_all, simp_all add: NewInMemoryStore_def time_sub_def)
  have b: "state_at ?bal ''gpu'' ''b'' = Some (idle_backend ''b'' 3)" "IsHealthy (idle_backend ''b'' 3)"
    by (simp_all add: state_at_def) (simp add: idle_backend_def NewBackendState_def IsHealthy_def)
  have "\<exists>b. fst (balancer_Select 7 (\<lambda>_. [''a'', ''b'']) ''gpu'' ''k'' None (InvalidatePin 5 ''gpu'' ''k'' ?bal)) = Inr b \<and>
      ID b \<noteq> BackendID ((pin ''a'')\<lparr>LastSeen := 1\<rparr>) \<and> \<not> IsFailing 7 b \<and> IsHealthy b"
    by (rule InvalidatePin_failover [OF wf sample_bal_group sel _ get _ b(1) _ b(2)])
      (auto simp: pin_def range_order_def time_simps)
  then show ?thesis by (auto simp: pin_def)
qed

end
