(* ===== verification/Lb_Monitor.thy ===== *)
theory Lb_Monitor
  imports Lb_Balancer
begin

text \<open>
  The background goroutines of the balancer (\<open>internal/balancer/balancer.go\<close>: monitoring, probe
  loops, passive recovery; \<open>alive_checker.go\<close>: the OR of the alive probes).

  A goroutine is a job with its own counters. Its start and each of its timer ticks is one function
  of the job, the answer of the network and the balancer. The answers are arguments: \<open>Some status\<close>
  or \<open>Some body\<close> for an HTTP response, \<open>None\<close> for an error. \<open>resolveURL\<close> stands for the URL
  resolution of \<open>net/url\<close>.
\<close>

section \<open>Jobs\<close>

record scrapeJob =
  sj_id :: string
  sj_url :: string
  sj_path :: string
  sj_interval :: duration
  sj_timeout :: duration
  sj_staleThreshold :: duration
  sj_engine :: EngineType
  sj_failures :: int
  sj_rampUpSec :: int
  sj_retryDelaySec :: int

record healthJob =
  hj_id :: string
  hj_url :: string
  hj_path :: string
  hj_interval :: duration
  hj_timeout :: duration
  hj_failures :: int
  hj_rampUpSec :: int
  hj_retryDelaySec :: int
  hj_metricsPath :: string
  hj_metricsInterval :: duration
  hj_metricsTimeout :: duration
  hj_metricsScrapeEnabled :: bool
  hj_transitedToScrape :: bool

record aliveJob =
  aj_id :: string
  aj_url :: string
  aj_interval :: duration
  aj_unhealthyAfter :: int
  aj_probes :: "AliveProbe list"
  aj_failures :: int
  aj_rampUpSec :: int
  aj_retryDelaySec :: int

section \<open>Alive probes\<close>

text \<open>A probe succeeds on a 2xx response; the timeout defaults depend on its type.\<close>

definition lightweightChatProbe :: "(string \<Rightarrow> duration \<Rightarrow> int option) \<Rightarrow> string \<Rightarrow> int \<Rightarrow> bool" where
  "lightweightChatProbe post u timeoutSec =
     (let timeout = seconds timeoutSec;
          timeout' = (if timeout = 0 then seconds 5 else timeout)
      in case post u timeout' of None \<Rightarrow> False | Some status \<Rightarrow> status \<ge> 200 \<and> status < 300)"

definition httpGetProbe :: "(string \<Rightarrow> duration \<Rightarrow> int option) \<Rightarrow> string \<Rightarrow> int \<Rightarrow> bool" where
  "httpGetProbe get u timeoutSec =
     (let timeout = seconds timeoutSec;
          timeout' = (if timeout = 0 then seconds 2 else timeout)
      in case get u timeout' of None \<Rightarrow> False | Some status \<Rightarrow> status \<ge> 200 \<and> status < 300)"

fun checkAlive ::
  "(string \<Rightarrow> string \<Rightarrow> string) \<Rightarrow> (string \<Rightarrow> duration \<Rightarrow> int option) \<Rightarrow> (string \<Rightarrow> duration \<Rightarrow> int option) \<Rightarrow>
   string \<Rightarrow> AliveProbe list \<Rightarrow> bool" where
  "checkAlive resolveURL post get baseURL [] = False"
| "checkAlive resolveURL post get baseURL (probe # probes) =
     (let probeURL = resolveURL baseURL (ap_Path probe) in
      if ap_Type probe = ''lightweight_chat'' then
        (if lightweightChatProbe post probeURL (ap_TimeoutSeconds probe) then True
         else checkAlive resolveURL post get baseURL probes)
      else if ap_Type probe = ''http_get'' then
        (if httpGetProbe get probeURL (ap_TimeoutSeconds probe) then True
         else checkAlive resolveURL post get baseURL probes)
      else checkAlive resolveURL post get baseURL probes)"

section \<open>Job steps\<close>

text \<open>The body of an alive check, at the start and on a tick.\<close>

definition alive_check :: "time \<Rightarrow> string list \<Rightarrow> bool \<Rightarrow> aliveJob \<Rightarrow> Balancer \<Rightarrow> aliveJob \<times> Balancer" where
  "alive_check now ks alive job bal =
     (if length (aj_probes job) > 0 then
        (if \<not> alive then
           (let job' = job\<lparr>aj_failures := aj_failures job + 1\<rparr>
            in (job', markUnhealthy now ks (aj_id job') (aj_failures job') bal))
         else
           (let job' = job\<lparr>aj_failures := 0\<rparr>
            in (job', markHealthy now (aj_id job') (aj_failures job' > 0) (aj_rampUpSec job') bal)))
      else (job, bal))"

definition alive_tick ::
  "time \<Rightarrow> (nat \<Rightarrow> string list) \<Rightarrow> bool \<Rightarrow> aliveJob \<Rightarrow> Balancer \<Rightarrow> aliveJob \<times> Balancer" where
  "alive_tick now ords alive job bal =
     (if \<not> isBackendHealthy (ords 0) (aj_id job) bal \<and>
         \<not> shouldRetry now (ords 1) (aj_id job) (aj_retryDelaySec job) bal
      then (job, bal)
      else alive_check now (ords 2) alive job bal)"

definition doScrape ::
  "(string \<Rightarrow> real option) \<Rightarrow> time \<Rightarrow> string list \<Rightarrow> string option \<Rightarrow> scrapeJob \<Rightarrow> Balancer \<Rightarrow>
   scrapeJob \<times> Balancer" where
  "doScrape parseFloat now ks resp job bal =
     (case resp of
        None \<Rightarrow>
          (let job' = job\<lparr>sj_failures := sj_failures job + 1\<rparr>
           in (job', markUnhealthy now ks (sj_id job') (sj_failures job') bal))
      | Some body \<Rightarrow>
          (let result = parsePrometheusMetrics parseFloat body (sj_engine job);
               job' = job\<lparr>sj_failures := 0\<rparr>;
               bal1 = markHealthy now (sj_id job') (sj_failures job' > 0) (sj_rampUpSec job') bal
           in if \<not> sr_Parsed result then (job', updateMetrics now (sj_id job') False 0 0 0 bal1)
              else (job', updateMetrics now (sj_id job') True (sr_RunningReqs result)
                            (sr_WaitingReqs result) (sr_KVCachePct result) bal1)))"

definition scrape_tick ::
  "(string \<Rightarrow> real option) \<Rightarrow> time \<Rightarrow> (nat \<Rightarrow> string list) \<Rightarrow> string option \<Rightarrow> scrapeJob \<Rightarrow> Balancer \<Rightarrow>
   scrapeJob \<times> Balancer" where
  "scrape_tick parseFloat now ords resp job bal =
     (if \<not> isBackendHealthy (ords 0) (sj_id job) bal \<and>
         \<not> shouldRetry now (ords 1) (sj_id job) (sj_retryDelaySec job) bal
      then (job, bal)
      else doScrape parseFloat now (ords 2) resp job bal)"

definition health_probe ::
  "time \<Rightarrow> string list \<Rightarrow> int option \<Rightarrow> healthJob \<Rightarrow> Balancer \<Rightarrow> healthJob \<times> Balancer" where
  "health_probe now ks resp job bal =
     (if resp \<noteq> Some 200 then
        (let job' = job\<lparr>hj_failures := hj_failures job + 1\<rparr>
         in (job', markUnhealthy now ks (hj_id job') (hj_failures job') bal))
      else
        (let job' = job\<lparr>hj_failures := 0\<rparr>
         in (job', markHealthy now (hj_id job') (hj_failures job' > 0) (hj_rampUpSec job') bal)))"

text \<open>The first probe passes \<open>false\<close> explicitly.\<close>

definition health_start ::
  "time \<Rightarrow> string list \<Rightarrow> int option \<Rightarrow> healthJob \<Rightarrow> Balancer \<Rightarrow> healthJob \<times> Balancer" where
  "health_start now ks resp job bal =
     (if resp \<noteq> Some 200 then
        (let job' = job\<lparr>hj_failures := hj_failures job + 1\<rparr>
         in (job', markUnhealthy now ks (hj_id job') (hj_failures job') bal))
      else
        (let job' = job\<lparr>hj_failures := 0\<rparr>
         in (job', markHealthy now (hj_id job') False (hj_rampUpSec job') bal)))"

definition health_tick ::
  "time \<Rightarrow> (nat \<Rightarrow> string list) \<Rightarrow> int option \<Rightarrow> healthJob \<Rightarrow> Balancer \<Rightarrow> healthJob \<times> Balancer" where
  "health_tick now ords resp job bal =
     (if \<not> isBackendHealthy (ords 0) (hj_id job) bal \<and>
         \<not> shouldRetry now (ords 1) (hj_id job) (hj_retryDelaySec job) bal
      then (job, bal)
      else health_probe now (ords 2) resp job bal)"

text \<open>A tick of the metrics retry timer: \<open>Inr\<close> is the scrape job that replaces the health job.\<close>

definition metrics_tick ::
  "(string \<Rightarrow> real option) \<Rightarrow> string option \<Rightarrow> healthJob \<Rightarrow> healthJob + scrapeJob" where
  "metrics_tick parseFloat resp job =
     (if hj_metricsScrapeEnabled job \<and> \<not> hj_transitedToScrape job then
        (case resp of
           None \<Rightarrow> Inl job
         | Some body \<Rightarrow>
             (if length body > 0 \<and> sr_Parsed (parsePrometheusMetrics parseFloat body EngineUnknown) then
                Inr \<lparr>sj_id = hj_id job, sj_url = hj_url job, sj_path = hj_metricsPath job,
                     sj_interval = seconds 5, sj_timeout = hj_metricsTimeout job, sj_staleThreshold = 0,
                     sj_engine = EngineUnknown, sj_failures = 0, sj_rampUpSec = hj_rampUpSec job,
                     sj_retryDelaySec = hj_retryDelaySec job\<rparr>
              else Inl job))
      else Inl job)"

text \<open>A tick of the passive recovery of a backend; \<open>cooldown.Seconds()\<close> truncated.\<close>

definition passive_tick :: "time \<Rightarrow> string \<Rightarrow> duration \<Rightarrow> int \<Rightarrow> Balancer \<Rightarrow> Balancer" where
  "passive_tick now i cooldown rampUpSec bal =
     on_all i (\<lambda>st. if IsHealthy st \<or> \<not> ShouldRetry now (trunc (real_of_int cooldown / 10 ^ 9)) st then st
                    else SetHealthy now rampUpSec st) bal"

section \<open>Which jobs are started\<close>

text \<open>The map from backend ids to URL and groups that each start function builds.\<close>

definition backend_infos :: "string list \<Rightarrow> Config \<Rightarrow> (string, string \<times> GroupConfig list) gomap" where
  "backend_infos ks cfg =
     fold (\<lambda>(name, grpCfg) m0.
        fold (\<lambda>be m.
            (case gm_get m (be_ID be) of
               None \<Rightarrow> gm_set (be_ID be) (be_BaseURL be, [grpCfg]) m
             | Some (u, gs) \<Rightarrow> gm_set (be_ID be) (u, gs @ [grpCfg]) m))
          (GroupBackends cfg name) m0)
       (gm_range ks (cfg_Groups cfg)) []"

definition monitor_job ::
  "Config \<Rightarrow> (string \<Rightarrow> duration \<Rightarrow> string option) \<Rightarrow> string \<times> string \<times> GroupConfig list \<Rightarrow>
   (scrapeJob + healthJob) option" where
  "monitor_job cfg scrape info =
     (let (i, u, groups) = info;
          healthCfg = groups ! 0;
          scrapeCfg = find ScrapeEnabled groups;
          recovery = GetRecovery cfg (Some healthCfg);
          hc = grp_HealthCheck healthCfg;
          scraped = (case scrapeCfg of
             None \<Rightarrow> None
           | Some sc \<Rightarrow>
               (case scrape (u @ GetScrapePath sc) (seconds 3) of
                  Some body \<Rightarrow> (if length body > 0 then Some sc else None)
                | None \<Rightarrow> None))
      in case scraped of
           Some sc \<Rightarrow>
             (let interval = seconds (GetScrapeInterval sc) in
              Some (Inl \<lparr>sj_id = i, sj_url = u, sj_path = GetScrapePath sc,
                sj_interval = (if interval = 0 then seconds 5 else interval), sj_timeout = seconds 3,
                sj_staleThreshold = seconds (GetStaleThreshold sc), sj_engine = EngineUnknown,
                sj_failures = 0, sj_rampUpSec = rc_RampUpSec recovery,
                sj_retryDelaySec = rc_RetryDelaySec recovery\<rparr>))
         | None \<Rightarrow>
             (if hc_Enabled hc \<noteq> ''false'' then
                (let interval = seconds (hc_IntervalSeconds hc);
                     timeout = seconds (hc_TimeoutSeconds hc);
                     mi = (case scrapeCfg of None \<Rightarrow> 0
                       | Some sc \<Rightarrow> (let x = seconds (mc_RetryIntervalSec (GetMetricsConfig cfg (Some sc)))
                                     in if x = 0 then seconds 120 else x));
                     mt = (case scrapeCfg of None \<Rightarrow> 0
                       | Some sc \<Rightarrow> (let x = seconds (mc_ScrapeTimeoutSeconds (GetMetricsConfig cfg (Some sc)))
                                     in if x = 0 then seconds 3 else x))
                 in Some (Inr \<lparr>hj_id = i, hj_url = u, hj_path = hc_Path hc,
                      hj_interval = (if interval = 0 then seconds 10 else interval),
                      hj_timeout = (if timeout = 0 then seconds 2 else timeout), hj_failures = 0,
                      hj_rampUpSec = rc_RampUpSec recovery, hj_retryDelaySec = rc_RetryDelaySec recovery,
                      hj_metricsPath = (case scrapeCfg of None \<Rightarrow> '''' | Some sc \<Rightarrow> GetScrapePath sc),
                      hj_metricsInterval = mi, hj_metricsTimeout = mt,
                      hj_metricsScrapeEnabled = (scrapeCfg \<noteq> None), hj_transitedToScrape = False\<rparr>))
              else None))"

definition alive_job :: "Config \<Rightarrow> string \<times> string \<times> GroupConfig list \<Rightarrow> aliveJob option" where
  "alive_job cfg info =
     (let (i, u, groups) = info;
          aliveCfg = GetAliveConfig cfg (groups ! 0);
          recovery = GetRecovery cfg (Some (groups ! 0));
          interval = seconds (al_IntervalSeconds aliveCfg)
      in if al_Enabled aliveCfg = ''false'' \<or> length (al_Probes aliveCfg) = 0 then None
         else Some \<lparr>aj_id = i, aj_url = u,
                aj_interval = (if interval = 0 then seconds 60 else interval),
                aj_unhealthyAfter = (if al_UnhealthyAfter aliveCfg = 0 then 3 else al_UnhealthyAfter aliveCfg),
                aj_probes = al_Probes aliveCfg, aj_failures = 0, aj_rampUpSec = rc_RampUpSec recovery,
                aj_retryDelaySec = rc_RetryDelaySec recovery\<rparr>)"

definition group_has_probe :: "Config \<Rightarrow> GroupConfig \<Rightarrow> bool" where
  "group_has_probe cfg grpCfg \<longleftrightarrow>
     hc_Enabled (grp_HealthCheck grpCfg) \<noteq> ''false'' \<or>
     (al_Enabled (GetAliveConfig cfg grpCfg) \<noteq> ''false'' \<and> length (al_Probes (GetAliveConfig cfg grpCfg)) > 0)"

text \<open>Backend id, cooldown and ramp-up seconds of a passive recovery loop.\<close>

definition passive_job :: "Config \<Rightarrow> string \<times> string \<times> GroupConfig list \<Rightarrow> (string \<times> duration \<times> int) option" where
  "passive_job cfg info =
     (let (i, u, groups) = info in
      if list_ex (group_has_probe cfg) groups then None
      else
        (let recovery = GetRecovery cfg (Some (groups ! 0));
             cooldownSec = (if rc_RetryDelaySec recovery \<le> 0 then 10 else rc_RetryDelaySec recovery)
         in Some (i, seconds cooldownSec, rc_RampUpSec recovery)))"

datatype job =
    JScrape scrapeJob
  | JHealth healthJob
  | JAlive aliveJob
  | JPassive string duration int

definition startMonitoring ::
  "(nat \<Rightarrow> string list) \<Rightarrow> (string \<Rightarrow> duration \<Rightarrow> string option) \<Rightarrow> Config \<Rightarrow> job list" where
  "startMonitoring ords scrape cfg =
     map (case_sum JScrape JHealth) (List.map_filter (monitor_job cfg scrape) (backend_infos (ords 0) cfg)) @
     map JAlive (List.map_filter (alive_job cfg) (backend_infos (ords 1) cfg)) @
     map (\<lambda>(i, cooldown, ramp). JPassive i cooldown ramp)
       (List.map_filter (passive_job cfg) (backend_infos (ords 2) cfg))"

section \<open>Demotion by probes\<close>

text \<open>A backend that is working or has served a request in the last minute.\<close>

definition protected :: "time \<Rightarrow> BackendState \<Rightarrow> bool" where
  "protected now st \<longleftrightarrow> InFlight st > 0 \<or> time_since now (LastSuccessAt st) < seconds 60"

definition demotion :: "time \<Rightarrow> int \<Rightarrow> Group \<Rightarrow> BackendState \<Rightarrow> BackendState" where
  "demotion now failures grp =
     RecordFailure now failures
       (let t = hc_UnhealthyAfter (grp_HealthCheck (bg_Cfg grp)) in if t = 0 then 3 else t)"

lemma markUnhealthy_Cons:
  "markUnhealthy now (g # ks) i failures bal =
     (case state_at bal g i of
        None \<Rightarrow> markUnhealthy now ks i failures bal
      | Some st \<Rightarrow>
          (if protected now st then bal
           else markUnhealthy now ks i failures
             (upd_group g (map_state i (demotion now failures (the (gm_get (bal_groups bal) g)))) bal)))"
  by (auto simp: state_at_def protected_def demotion_def Let_def split: option.split)

declare markUnhealthy.simps(2) [simp del] markUnhealthy_Cons [simp]

lemma demotion_frame [simp]:
  "ID (demotion now n grp st) = ID st" "InFlight (demotion now n grp st) = InFlight st"
  "Flow (demotion now n grp st) = Flow st"
  by (simp_all add: demotion_def)

text \<open>Every state after a failed probe is the state before it or its demotion.\<close>

lemma markUnhealthy_other: "i' \<noteq> i \<Longrightarrow> state_at (markUnhealthy now ks i n bal) g i' = state_at bal g i'"
  by (induction ks arbitrary: bal) (simp_all split: option.split)

lemma markUnhealthy_protected:
  "state_at bal g i = Some st \<Longrightarrow> protected now st \<Longrightarrow> state_at (markUnhealthy now ks i n bal) g i = Some st"
proof (induction ks arbitrary: bal)
  case Nil
  then show ?case by simp
next
  case (Cons g' ks)
  then show ?case by (cases "g' = g") (auto split: option.split)
qed

lemma bal_wf_markUnhealthy: "bal_wf bal \<Longrightarrow> bal_wf (markUnhealthy now ks i n bal)"
  by (induction ks arbitrary: bal) (simp_all add: bal_wf_upd group_ok_map_state split: option.split)

lemma markUnhealthy_groups [simp]:
  "groups_disjoint (markUnhealthy now ks i n bal) = groups_disjoint bal"
  "range_order os (bal_groups (markUnhealthy now ks i n bal)) = range_order os (bal_groups bal)"
  by (induction ks arbitrary: bal) (simp_all split: option.split)

lemma markUnhealthy_frame:
  assumes "state_at (markUnhealthy now ks i n bal) g i' = Some st'"
  shows "\<exists>st. state_at bal g i' = Some st \<and> ID st' = ID st \<and> InFlight st' = InFlight st \<and> Flow st' = Flow st"
  using assms
proof (induction ks arbitrary: bal)
  case Nil
  then show ?case by simp
next
  case (Cons g' ks)
  then show ?case by (fastforce split: option.splits if_splits)
qed

text \<open>With the backend in one group, an idle backend is demoted by the group's threshold.\<close>

lemma markUnhealthy_state:
  assumes "groups_disjoint bal" and "range_order ks (bal_groups bal)"
    and "gm_get (bal_groups bal) g = Some grp" and "state_at bal g i = Some st"
  shows "state_at (markUnhealthy now ks i n bal) g i =
    Some (if protected now st then st else demotion now n grp st)"
proof -
  have "g \<in> set ks" by (rule state_at_key [OF assms(2,4)])
  then obtain pre post where ks: "ks = pre @ g # post" and "g \<notin> set pre"
    by (meson split_list_first)
  have other: "state_at bal g' i = None" if "g' \<noteq> g" for g'
    using assms(1,4) that unfolding groups_disjoint_def by blast
  have skip: "markUnhealthy now (ks1 @ ks2) i n bal' = markUnhealthy now ks2 i n bal'"
    if "\<forall>g'\<in>set ks1. state_at bal' g' i = None" for ks1 ks2 bal'
    using that by (induction ks1) auto
  let ?bal = "upd_group g (map_state i (demotion now n grp)) bal"
  have "g \<notin> set post" using assms(2) ks by (simp add: range_order_def)
  then have "state_at bal g' i = None \<and> g' \<noteq> g" if "g' \<in> set post" for g'
    using that other [of g'] by blast
  then have "markUnhealthy now post i n ?bal = ?bal"
    using skip [of post ?bal "[]"] by simp
  moreover have "markUnhealthy now ks i n bal = markUnhealthy now (g # post) i n bal"
  proof -
    have "\<forall>g'\<in>set pre. state_at bal g' i = None" using \<open>g \<notin> set pre\<close> other by metis
    then show ?thesis unfolding ks by (rule skip)
  qed
  ultimately show ?thesis using assms(3,4) by simp
qed

lemma tick_other:
  "aj_id aj \<noteq> i \<Longrightarrow> state_at (snd (alive_tick now ords alive aj bal)) g i = state_at bal g i"
  "hj_id hj \<noteq> i \<Longrightarrow> state_at (snd (health_tick now ords resp hj bal)) g i = state_at bal g i"
  "sj_id sj \<noteq> i \<Longrightarrow> state_at (snd (scrape_tick pf now ords body sj bal)) g i = state_at bal g i"
proof -
  show "aj_id aj \<noteq> i \<Longrightarrow> state_at (snd (alive_tick now ords alive aj bal)) g i = state_at bal g i"
    by (simp add: alive_tick_def alive_check_def markHealthy_def markUnhealthy_other Let_def)
  show "hj_id hj \<noteq> i \<Longrightarrow> state_at (snd (health_tick now ords resp hj bal)) g i = state_at bal g i"
    by (simp add: health_tick_def health_probe_def markHealthy_def markUnhealthy_other Let_def)
  show "sj_id sj \<noteq> i \<Longrightarrow> state_at (snd (scrape_tick pf now ords body sj bal)) g i = state_at bal g i"
    by (cases body)
      (simp_all add: scrape_tick_def doScrape_def markHealthy_def updateMetrics_def markUnhealthy_other Let_def)
qed

lemma failed_tick_protected:
  assumes "state_at bal g i = Some st" and "protected now st"
  shows "aj_id aj = i \<Longrightarrow> state_at (snd (alive_tick now ords False aj bal)) g i = Some st"
    and "hj_id hj = i \<Longrightarrow> resp \<noteq> Some 200 \<Longrightarrow> state_at (snd (health_tick now ords resp hj bal)) g i = Some st"
    and "sj_id sj = i \<Longrightarrow> state_at (snd (scrape_tick pf now ords None sj bal)) g i = Some st"
proof -
  note keep = markUnhealthy_protected [OF assms]
  show "aj_id aj = i \<Longrightarrow> state_at (snd (alive_tick now ords False aj bal)) g i = Some st"
    by (simp add: alive_tick_def alive_check_def assms(1) keep Let_def)
  show "hj_id hj = i \<Longrightarrow> resp \<noteq> Some 200 \<Longrightarrow> state_at (snd (health_tick now ords resp hj bal)) g i = Some st"
    by (simp add: health_tick_def health_probe_def assms(1) keep Let_def)
  show "sj_id sj = i \<Longrightarrow> state_at (snd (scrape_tick pf now ords None sj bal)) g i = Some st"
    by (simp add: scrape_tick_def doScrape_def assms(1) keep Let_def)
qed

section \<open>The alive check is an OR\<close>

lemma checkAlive_iff:
  "checkAlive res post get u probes \<longleftrightarrow>
     (\<exists>p\<in>set probes.
        (ap_Type p = ''lightweight_chat'' \<and> lightweightChatProbe post (res u (ap_Path p)) (ap_TimeoutSeconds p)) \<or>
        (ap_Type p = ''http_get'' \<and> httpGetProbe get (res u (ap_Path p)) (ap_TimeoutSeconds p)))"
  by (induction probes) (auto simp: Let_def)

section \<open>Properties\<close>

text \<open>
  A failed probe never takes a working backend out of rotation. If the backend has requests in
  flight, or a request to it succeeded in the last 60 seconds, then after a failed alive check,
  health probe or scrape its state is what it was; and no probe of one backend ever touches the
  state of another.
\<close>

theorem failed_probe_keeps_working_backend:
  assumes "state_at bal g i = Some st" and "InFlight st > 0 \<or> time_since now (LastSuccessAt st) < seconds 60"
  shows "(aj_id aj = i \<longrightarrow> state_at (snd (alive_tick now ords False aj bal)) g i = Some st) \<and>
    (hj_id hj = i \<and> resp \<noteq> Some 200 \<longrightarrow> state_at (snd (health_tick now ords resp hj bal)) g i = Some st) \<and>
    (sj_id sj = i \<longrightarrow> state_at (snd (scrape_tick pf now ords None sj bal)) g i = Some st) \<and>
    (aj_id aj \<noteq> i \<longrightarrow> state_at (snd (alive_tick now ords alive aj bal)) g i = Some st) \<and>
    (hj_id hj \<noteq> i \<longrightarrow> state_at (snd (health_tick now ords resp hj bal)) g i = Some st) \<and>
    (sj_id sj \<noteq> i \<longrightarrow> state_at (snd (scrape_tick pf now ords body sj bal)) g i = Some st)"
proof -
  have "protected now st" using assms(2) by (simp add: protected_def)
  then show ?thesis
    using failed_tick_protected [OF assms(1)] by (simp add: tick_other assms(1))
qed

definition sample_alive_job :: aliveJob where
  "sample_alive_job = \<lparr>aj_id = ''a'', aj_url = ''http://gpu'', aj_interval = 60, aj_unhealthyAfter = 3,
     aj_probes = [\<lparr>ap_Type = ''http_get'', ap_Path = ''health'', ap_TimeoutSeconds = 5\<rparr>], aj_failures = 9,
     aj_rampUpSec = 60, aj_retryDelaySec = 30\<rparr>"

theorem failed_probe_keeps_working_backend_witness:
  "state_at (snd (alive_tick 5 (\<lambda>_. [''gpu'']) False sample_alive_job
      (sample_bal LeastLoadedSelector [idle_backend ''a'' 2]))) ''gpu'' ''a'' = Some (idle_backend ''a'' 2)"
proof -
  have "state_at (sample_bal LeastLoadedSelector [idle_backend ''a'' 2]) ''gpu'' ''a'' = Some (idle_backend ''a'' 2)"
    by (simp add: state_at_def)
  moreover have "InFlight (idle_backend ''a'' 2) > 0 \<or> time_since 5 (LastSuccessAt (idle_backend ''a'' 2)) < seconds 60"
    by simp
  moreover have "aj_id sample_alive_job = ''a''" by (simp add: sample_alive_job_def)
  ultimately show ?thesis
    by (rule failed_probe_keeps_working_backend [THEN conjunct1, rule_format])
qed

text \<open>
  Demotion by probes takes a run of failures. Starting from a healthy, idle backend that has
  not served lately, a run of failed alive checks marks it unhealthy exactly when its length
  reaches the \<open>unhealthy_after\<close> of the group's \<open>health_check\<close> (3 when that is 0). The
  \<open>unhealthy_after\<close> of the alive settings, kept in the job, plays no part.
\<close>

fun failed_checks :: "nat \<Rightarrow> time \<Rightarrow> string list \<Rightarrow> aliveJob \<times> Balancer \<Rightarrow> aliveJob \<times> Balancer" where
  "failed_checks 0 now ks s = s"
| "failed_checks (Suc n) now ks s = (case failed_checks n now ks s of (job, bal) \<Rightarrow> alive_check now ks False job bal)"

definition cfg_at :: "Balancer \<Rightarrow> string \<Rightarrow> GroupConfig option" where
  "cfg_at bal g = map_option bg_Cfg (gm_get (bal_groups bal) g)"

lemma cfg_at_upd [simp]: "cfg_at (upd_group g (map_state i f) bal) g' = cfg_at bal g'"
  by (cases "gm_get (bal_groups bal) g") (auto simp: cfg_at_def gm_get_upd_group map_state_def)

lemma cfg_at_markUnhealthy [simp]: "cfg_at (markUnhealthy now ks i n bal) g = cfg_at bal g"
  by (induction ks arbitrary: bal) (simp_all split: option.split)

lemma failed_check_step:
  assumes "groups_disjoint bal" and "range_order ks (bal_groups bal)" and "aj_probes job \<noteq> []"
    and "cfg_at bal g = Some c" and "state_at bal g (aj_id job) = Some st" and "\<not> protected now st"
    and "alive_check now ks False job bal = (job', bal')"
  shows "job' = job\<lparr>aj_failures := aj_failures job + 1\<rparr> \<and> groups_disjoint bal' \<and>
    range_order ks (bal_groups bal') \<and> cfg_at bal' g = Some c \<and>
    state_at bal' g (aj_id job) =
      Some (RecordFailure now (aj_failures job + 1) (hc_UnhealthyAfter (grp_HealthCheck c)) st)"
proof -
  obtain grp where grp: "gm_get (bal_groups bal) g = Some grp" "bg_Cfg grp = c"
    using assms(4) by (auto simp: cfg_at_def)
  have "demotion now n grp st = RecordFailure now n (hc_UnhealthyAfter (grp_HealthCheck c)) st" for n
    by (simp add: demotion_def grp(2) RecordFailure_def Let_def)
  with markUnhealthy_state [OF assms(1,2) grp(1) assms(5)] assms show ?thesis
    by (auto simp: alive_check_def Let_def)
qed

lemma failed_checks_run:
  assumes "groups_disjoint bal" and "range_order ks (bal_groups bal)" and "aj_probes job \<noteq> []"
    and "cfg_at bal g = Some c" and "state_at bal g (aj_id job) = Some st" and "\<not> protected now st"
    and "Healthy st" and "aj_failures job = 0" and "0 \<le> hc_UnhealthyAfter (grp_HealthCheck c)"
  shows "\<exists>bal' st'. failed_checks n now ks (job, bal) = (job\<lparr>aj_failures := int n\<rparr>, bal') \<and>
    groups_disjoint bal' \<and> range_order ks (bal_groups bal') \<and> cfg_at bal' g = Some c \<and>
    state_at bal' g (aj_id job) = Some st' \<and> \<not> protected now st' \<and>
    (Healthy st' \<longleftrightarrow> int n < (let t = hc_UnhealthyAfter (grp_HealthCheck c) in if t = 0 then 3 else t))"
proof (induction n)
  case 0
  with assms show ?case by (auto simp: Let_def)
next
  case (Suc n)
  then obtain bal' st' where run: "failed_checks n now ks (job, bal) = (job\<lparr>aj_failures := int n\<rparr>, bal')"
    and inv: "groups_disjoint bal'" "range_order ks (bal_groups bal')" "cfg_at bal' g = Some c"
      "state_at bal' g (aj_id job) = Some st'" "\<not> protected now st'"
    and healthy: "Healthy st' \<longleftrightarrow> int n < (let t = hc_UnhealthyAfter (grp_HealthCheck c) in if t = 0 then 3 else t)"
    by blast
  let ?job = "job\<lparr>aj_failures := int n\<rparr>"
  obtain job2 bal2 where check: "alive_check now ks False ?job bal' = (job2, bal2)" by fastforce
  have "aj_probes ?job \<noteq> []" "state_at bal' g (aj_id ?job) = Some st'" using assms(3) inv by simp_all
  from failed_check_step [OF inv(1,2) this(1) inv(3) this(2) inv(5) check] healthy run check inv(5)
  show ?case
    by (auto simp: RecordFailure_def Let_def protected_def)
qed

theorem probe_demotion_threshold:
  assumes "groups_disjoint bal" and "range_order ks (bal_groups bal)"
    and "gm_get (bal_groups bal) g = Some grp" and "state_at bal g (aj_id job) = Some st"
    and "InFlight st \<le> 0" and "time_since now (LastSuccessAt st) \<ge> seconds 60" and "Healthy st"
    and "aj_probes job \<noteq> []" and "aj_failures job = 0"
    and "0 \<le> hc_UnhealthyAfter (grp_HealthCheck (bg_Cfg grp))"
  shows "\<exists>st'. state_at (snd (failed_checks n now ks (job, bal))) g (aj_id job) = Some st' \<and>
    (IsHealthy st' \<longleftrightarrow>
       int n < (let t = hc_UnhealthyAfter (grp_HealthCheck (bg_Cfg grp)) in if t = 0 then 3 else t))"
  using failed_checks_run [OF assms(1,2,8) _ assms(4), of "bg_Cfg grp" now n] assms
  by (auto simp: cfg_at_def protected_def IsHealthy_def)

lemma sample_bal_disjoint: "groups_disjoint (sample_bal sel sts)"
  by (auto simp: groups_disjoint_def state_at_def sample_bal_def split: if_splits)

theorem probe_demotion_threshold_witness:
  "\<exists>st. state_at (snd (failed_checks 3 (10 ^ 12) [''gpu''] (sample_alive_job\<lparr>aj_failures := 0\<rparr>,
      sample_bal LeastLoadedSelector [idle_backend ''a'' 0]))) ''gpu'' ''a'' = Some st \<and> \<not> IsHealthy st"
proof -
  let ?job = "sample_alive_job\<lparr>aj_failures := 0, aj_unhealthyAfter := 7\<rparr>"
  let ?bal = "sample_bal LeastLoadedSelector [idle_backend ''a'' 0]"
  have "\<exists>st'. state_at (snd (failed_checks 3 (10 ^ 12) [''gpu''] (sample_alive_job\<lparr>aj_failures := 0\<rparr>, ?bal))) ''gpu''
      (aj_id (sample_alive_job\<lparr>aj_failures := 0\<rparr>)) = Some st' \<and>
    (IsHealthy st' \<longleftrightarrow> int 3 < (let t = hc_UnhealthyAfter (grp_HealthCheck (bg_Cfg
       (sample_group LeastLoadedSelector [idle_backend ''a'' 0]))) in if t = 0 then 3 else t))"
    by (rule probe_demotion_threshold [OF sample_bal_disjoint, where st = "idle_backend ''a'' 0"])
      (simp_all add: sample_bal_def range_order_def state_at_def sample_alive_job_def sample_group_def
        default_group_def zero_GroupConfig_def or_default_def Let_def idle_backend_def NewBackendState_def time_simps)
  then show ?thesis
    by (simp add: sample_alive_job_def sample_group_def default_group_def zero_GroupConfig_def or_default_def Let_def)
qed

text \<open>
  C22: recovery through a probe is immediate. A successful alive check, health probe or scrape,
  whenever it is not skipped, leaves the backend healthy and not ramping up, whatever the
  configured \<open>ramp_up_seconds\<close>: the jobs clear their failure counter before they test it, and even
  a ramp-up that was under way is ended. Passive recovery does ramp up.
\<close>

theorem probe_recovery_never_ramps:
  assumes "state_at bal g i = Some st"
  shows "(aj_id aj = i \<and> aj_probes aj \<noteq> [] \<longrightarrow>
      (\<exists>st'. state_at (snd (alive_check now ks True aj bal)) g i = Some st' \<and> IsHealthy st' \<and> \<not> RampingUp st')) \<and>
    (hj_id hj = i \<longrightarrow>
      (\<exists>st'. state_at (snd (health_probe now ks (Some 200) hj bal)) g i = Some st' \<and> IsHealthy st' \<and> \<not> RampingUp st')) \<and>
    (sj_id sj = i \<longrightarrow>
      (\<exists>st'. state_at (snd (doScrape pf now ks (Some body) sj bal)) g i = Some st' \<and> IsHealthy st' \<and> \<not> RampingUp st')) \<and>
    (\<not> IsHealthy st \<and> ShouldRetry now (trunc (real_of_int cooldown / 10 ^ 9)) st \<and> 0 < ramp \<and>
       now \<le> now + seconds ramp \<longrightarrow>
      (\<exists>st'. state_at (passive_tick now i cooldown ramp bal) g i = Some st' \<and> IsHealthy st' \<and> IsRampingUp now st'))"
  using assms
  by (simp add: alive_check_def health_probe_def doScrape_def passive_tick_def markHealthy_def updateMetrics_def
      SetHealthy_def UpdateMetrics_def IsHealthy_def IsRampingUp_def Let_def)

theorem probe_recovery_never_ramps_witness:
  "\<exists>st. state_at (snd (alive_check 5 [''gpu''] True sample_alive_job
      (sample_bal LeastLoadedSelector [(idle_backend ''a'' 0)\<lparr>Healthy := False, ConsecutiveFailures := 9\<rparr>]))) ''gpu'' ''a'' =
     Some st \<and> IsHealthy st \<and> \<not> RampingUp st"
  using probe_recovery_never_ramps
    [of "sample_bal LeastLoadedSelector [(idle_backend ''a'' 0)\<lparr>Healthy := False, ConsecutiveFailures := 9\<rparr>]"
      "''gpu''" "''a''" "(idle_backend ''a'' 0)\<lparr>Healthy := False, ConsecutiveFailures := 9\<rparr>" sample_alive_job 5 "[''gpu'']"]
  by (simp add: state_at_def sample_alive_job_def idle_backend_def NewBackendState_def)

end
