(* ===== verification/Lb_System.thy ===== *)
theory Lb_System
  imports Lb_Monitor
begin

text \<open>
  The balancer under concurrent use. A request is a thread that selects a backend, calls \<open>Incr\<close> and
  \<open>Dispatch\<close>, and at the end runs \<open>CompleteAndDecr\<close> (\<open>internal/balancer/balancer.go\<close>). Each of these
  calls takes its own locks, so other requests and the monitoring goroutines run between them:
  \<open>lb_step\<close> interleaves the single calls of all requests, \<open>InvalidatePin\<close>, and the starts and ticks
  of all jobs, with any answers from the network and any map orders. \<open>lb_inv\<close> ties the counters of
  every backend to the requests that are under way; it holds in every reachable state.
\<close>

section \<open>The interleaved system\<close>

datatype phase =
    PSelected
  | PIncremented
  | PDispatched
  | PCompleted bool bool
  | PDecremented bool bool
  | PDone

record request =
  rq_backend :: string
  rq_phase :: phase

record lb_world =
  w_bal :: Balancer
  w_jobs :: "(bool \<times> job) list"
  w_reqs :: "request list"

definition set_phase :: "nat \<Rightarrow> phase \<Rightarrow> request list \<Rightarrow> request list" where
  "set_phase n p rs = rs[n := (rs ! n)\<lparr>rq_phase := p\<rparr>]"

text \<open>The start (flag \<open>False\<close>) and the ticks of the goroutines.\<close>

inductive job_step ::
  "(string \<Rightarrow> real option) \<Rightarrow> Balancer \<Rightarrow> bool \<times> job \<Rightarrow> bool \<times> job \<Rightarrow> Balancer \<Rightarrow> bool"
  for pf bal where
  scrape_start: "range_order ks (bal_groups bal) \<Longrightarrow> doScrape pf now ks resp j bal = (j', bal') \<Longrightarrow>
     job_step pf bal (False, JScrape j) (True, JScrape j') bal'"
| scrape_tick: "\<forall>n. range_order (ords n) (bal_groups bal) \<Longrightarrow> scrape_tick pf now ords resp j bal = (j', bal') \<Longrightarrow>
     job_step pf bal (True, JScrape j) (True, JScrape j') bal'"
| health_start: "range_order ks (bal_groups bal) \<Longrightarrow> health_start now ks status j bal = (j', bal') \<Longrightarrow>
     job_step pf bal (False, JHealth j) (True, JHealth j') bal'"
| health_tick: "\<forall>n. range_order (ords n) (bal_groups bal) \<Longrightarrow> health_tick now ords status j bal = (j', bal') \<Longrightarrow>
     job_step pf bal (True, JHealth j) (True, JHealth j') bal'"
| metrics_stay: "metrics_tick pf resp j = Inl j' \<Longrightarrow> job_step pf bal (True, JHealth j) (True, JHealth j') bal"
| metrics_switch: "metrics_tick pf resp j = Inr j' \<Longrightarrow> job_step pf bal (True, JHealth j) (False, JScrape j') bal"
| alive_start: "range_order ks (bal_groups bal) \<Longrightarrow> alive_check now ks alive j bal = (j', bal') \<Longrightarrow>
     job_step pf bal (False, JAlive j) (True, JAlive j') bal'"
| alive_tick: "\<forall>n. range_order (ords n) (bal_groups bal) \<Longrightarrow> alive_tick now ords alive j bal = (j', bal') \<Longrightarrow>
     job_step pf bal (True, JAlive j) (True, JAlive j') bal'"
| passive_start: "job_step pf bal (False, JPassive i c r) (True, JPassive i c r) bal"
| passive_tick: "job_step pf bal (True, JPassive i c r) (True, JPassive i c r) (passive_tick now i c r bal)"

inductive lb_step :: "(string \<Rightarrow> real option) \<Rightarrow> lb_world \<Rightarrow> lb_world \<Rightarrow> bool"
  for pf w where
  arrive: "gm_get (bal_groups (w_bal w)) g = Some grp \<Longrightarrow> \<forall>n. range_order (ords n) (bg_States grp) \<Longrightarrow>
     balancer_Select now ords g key ctx (w_bal w) = (Inr st, bal') \<Longrightarrow>
     lb_step pf w (w\<lparr>w_bal := bal', w_reqs := w_reqs w @ [\<lparr>rq_backend = ID st, rq_phase = PSelected\<rparr>]\<rparr>)"
| reject: "balancer_Select now ords g key ctx (w_bal w) = (Inl err, bal') \<Longrightarrow> lb_step pf w (w\<lparr>w_bal := bal'\<rparr>)"
| incr: "n < length (w_reqs w) \<Longrightarrow> rq_phase (w_reqs w ! n) = PSelected \<Longrightarrow> range_order ks (bal_groups (w_bal w)) \<Longrightarrow>
     lb_step pf w (w\<lparr>w_bal := Incr ks (rq_backend (w_reqs w ! n)) (w_bal w),
       w_reqs := set_phase n PIncremented (w_reqs w)\<rparr>)"
| dispatch: "n < length (w_reqs w) \<Longrightarrow> rq_phase (w_reqs w ! n) = PIncremented \<Longrightarrow>
     range_order ks (bal_groups (w_bal w)) \<Longrightarrow>
     lb_step pf w (w\<lparr>w_bal := balancer_Dispatch now ks (rq_backend (w_reqs w ! n)) (w_bal w),
       w_reqs := set_phase n PDispatched (w_reqs w)\<rparr>)"
| complete: "n < length (w_reqs w) \<Longrightarrow> rq_phase (w_reqs w ! n) = PDispatched \<Longrightarrow>
     range_order ks (bal_groups (w_bal w)) \<Longrightarrow>
     lb_step pf w (w\<lparr>w_bal := balancer_Complete now ks (rq_backend (w_reqs w ! n)) success timedOut ttft (w_bal w),
       w_reqs := set_phase n (PCompleted success timedOut) (w_reqs w)\<rparr>)"
| decr: "n < length (w_reqs w) \<Longrightarrow> rq_phase (w_reqs w ! n) = PCompleted success timedOut \<Longrightarrow>
     range_order ks (bal_groups (w_bal w)) \<Longrightarrow>
     lb_step pf w (w\<lparr>w_bal := Decr ks (rq_backend (w_reqs w ! n)) (w_bal w),
       w_reqs := set_phase n (PDecremented success timedOut) (w_reqs w)\<rparr>)"
| outcome: "n < length (w_reqs w) \<Longrightarrow> rq_phase (w_reqs w ! n) = PDecremented success timedOut \<Longrightarrow>
     lb_step pf w (w\<lparr>w_bal := (if \<not> timedOut
         then recordRequestOutcome now (rq_backend (w_reqs w ! n)) success (w_bal w) else w_bal w),
       w_reqs := set_phase n PDone (w_reqs w)\<rparr>)"
| invalidate: "lb_step pf w (w\<lparr>w_bal := InvalidatePin now g key (w_bal w)\<rparr>)"
| job: "n < length (w_jobs w) \<Longrightarrow> job_step pf (w_bal w) (w_jobs w ! n) j' bal' \<Longrightarrow>
     lb_step pf w (w\<lparr>w_bal := bal', w_jobs := (w_jobs w)[n := j']\<rparr>)"
| stop: "lb_step pf w (w\<lparr>w_bal := (w_bal w)\<lparr>bal_done := True\<rparr>\<rparr>)"
| job_exit: "bal_done (w_bal w) \<Longrightarrow> n < length (w_jobs w) \<Longrightarrow>
     lb_step pf w (w\<lparr>w_jobs := take n (w_jobs w) @ drop (Suc n) (w_jobs w)\<rparr>)"

definition lb_init :: "Config \<Rightarrow> (nat \<Rightarrow> string list) \<Rightarrow> (string \<Rightarrow> duration \<Rightarrow> string option) \<Rightarrow> lb_world" where
  "lb_init cfg ords scrape =
     \<lparr>w_bal = balancer_New cfg, w_jobs = map (Pair False) (startMonitoring ords scrape cfg), w_reqs = []\<rparr>"

section \<open>The invariant\<close>

definition in_flight :: "phase \<Rightarrow> bool" where
  "in_flight p = (case p of PIncremented \<Rightarrow> True | PDispatched \<Rightarrow> True | PCompleted _ _ \<Rightarrow> True | _ \<Rightarrow> False)"

definition open_reqs :: "string \<Rightarrow> request list \<Rightarrow> nat" where
  "open_reqs i rs = length (filter (\<lambda>r. rq_backend r = i \<and> in_flight (rq_phase r)) rs)"

definition pending_reqs :: "string \<Rightarrow> request list \<Rightarrow> nat" where
  "pending_reqs i rs = length (filter (\<lambda>r. rq_backend r = i \<and> rq_phase r = PDispatched) rs)"

definition counts_ok :: "BackendState \<Rightarrow> nat \<Rightarrow> nat \<Rightarrow> bool" where
  "counts_ok st opened pending \<longleftrightarrow> InFlight st = int opened \<and>
     (\<exists>fs. Flow st = Some fs \<and> flow_inv fs \<and> fs_dispatched fs - fs_completed fs = int pending)"

definition lb_inv :: "lb_world \<Rightarrow> bool" where
  "lb_inv w \<longleftrightarrow> bal_wf (w_bal w) \<and> groups_disjoint (w_bal w) \<and>
     (\<forall>g i st. state_at (w_bal w) g i = Some st \<longrightarrow>
        counts_ok st (open_reqs i (w_reqs w)) (pending_reqs i (w_reqs w))) \<and>
     (\<forall>r\<in>set (w_reqs w). \<exists>g st. state_at (w_bal w) g (rq_backend r) = Some st)"

text \<open>A change of the balancer that keeps the counters of every backend.\<close>

definition frames :: "Balancer \<Rightarrow> Balancer \<Rightarrow> bool" where
  "frames bal bal' \<longleftrightarrow> (bal_wf bal \<longrightarrow> bal_wf bal') \<and> (groups_disjoint bal \<longrightarrow> groups_disjoint bal') \<and>
     (\<forall>g i. map_option (\<lambda>st. (InFlight st, Flow st)) (state_at bal' g i) =
            map_option (\<lambda>st. (InFlight st, Flow st)) (state_at bal g i))"

lemma frames_refl [simp]: "frames bal bal"
  by (simp add: frames_def)

lemma frames_trans: "frames a b \<Longrightarrow> frames b c \<Longrightarrow> frames a c"
  unfolding frames_def by metis

lemma frames_on_all:
  assumes "\<And>st. ID (f st) = ID st \<and> InFlight (f st) = InFlight st \<and> Flow (f st) = Flow st"
  shows "frames bal (on_all i f bal)"
  using assms by (auto simp: frames_def bal_wf_on_all option.map_comp comp_def)

lemma frames_upd_state:
  assumes "\<And>st. ID (f st) = ID st \<and> InFlight (f st) = InFlight st \<and> Flow (f st) = Flow st"
  shows "frames bal (upd_group g (map_state i f) bal)"
  using assms by (auto simp: frames_def option.map_comp comp_def intro!: bal_wf_upd group_ok_map_state)

lemma frames_markHealthy: "frames bal (markHealthy now i was ramp bal)"
  unfolding markHealthy_def Let_def by (rule frames_on_all) simp

lemma frames_updateMetrics: "frames bal (updateMetrics now i a r w k bal)"
  unfolding updateMetrics_def by (rule frames_on_all) simp

lemma frames_recordRequestOutcome: "frames bal (recordRequestOutcome now i s bal)"
  unfolding recordRequestOutcome_def by (rule frames_on_all) simp

lemma frames_passive_tick: "frames bal (Lb_Monitor.passive_tick now i c r bal)"
  unfolding passive_tick_def by (rule frames_on_all) simp

lemma frames_markUnhealthy: "frames bal (markUnhealthy now ks i n bal)"
proof (induction ks arbitrary: bal)
  case Nil
  then show ?case by simp
next
  case (Cons g ks)
  have "frames bal (upd_group g (map_state i (demotion now n grp)) bal)" for grp
    by (rule frames_upd_state) simp
  with Cons frames_trans show ?case by (fastforce split: option.split)
qed

lemma frames_InvalidatePin: "frames bal (InvalidatePin now g key bal)"
proof -
  have "map_option (\<lambda>st. (InFlight st, Flow st)) (state_at (InvalidatePin now g key bal) g' i) =
      map_option (\<lambda>st. (InFlight st, Flow st)) (state_at bal g' i)" for g' i
    by (simp add: InvalidatePin_def Let_def option.map_comp comp_def split: option.split Selector.split)
  moreover have "groups_disjoint (InvalidatePin now g key bal) = groups_disjoint bal"
    by (simp add: InvalidatePin_def Let_def split: option.split Selector.split)
  ultimately show ?thesis by (simp add: frames_def bal_wf_InvalidatePin)
qed

lemma frames_Select: "frames bal (snd (balancer_Select now ords g key ctx bal))"
  by (simp add: frames_def bal_wf_Select)

lemma frames_alive_check: "frames bal (snd (alive_check now ks alive j bal))"
  by (simp add: alive_check_def Let_def frames_markHealthy frames_markUnhealthy)

lemma frames_doScrape: "frames bal (snd (doScrape pf now ks resp j bal))"
  using frames_trans [OF frames_markHealthy frames_updateMetrics]
  by (auto simp: doScrape_def Let_def frames_markUnhealthy split: option.split)

lemma frames_health_probe: "frames bal (snd (health_probe now ks resp j bal))"
  "frames bal (snd (health_start now ks resp j bal))"
  by (simp_all add: health_probe_def health_start_def Let_def frames_markHealthy frames_markUnhealthy)

lemma frames_ticks:
  "frames bal (snd (Lb_Monitor.alive_tick now ords alive aj bal))"
  "frames bal (snd (Lb_Monitor.scrape_tick pf now ords resp sj bal))"
  "frames bal (snd (Lb_Monitor.health_tick now ords status hj bal))"
  by (simp_all add: alive_tick_def scrape_tick_def health_tick_def frames_alive_check frames_doScrape
      frames_health_probe)

lemma frames_job_step: "job_step pf bal j j' bal' \<Longrightarrow> frames bal bal'"
proof (induction rule: job_step.induct)
  case (scrape_start ks now resp j j' bal')
  then show ?case using frames_doScrape by (metis snd_conv)
next
  case (scrape_tick ords now resp j j' bal')
  then show ?case using frames_ticks(2) by (metis snd_conv)
next
  case (health_start ks now status j j' bal')
  then show ?case using frames_health_probe(2) by (metis snd_conv)
next
  case (health_tick ords now status j j' bal')
  then show ?case using frames_ticks(3) by (metis snd_conv)
next
  case (alive_start ks now alive j j' bal')
  then show ?case using frames_alive_check by (metis snd_conv)
next
  case (alive_tick ords now alive j j' bal')
  then show ?case using frames_ticks(1) by (metis snd_conv)
qed (simp_all add: frames_passive_tick)

lemma lb_inv_frames:
  assumes inv: "lb_inv w" and "frames (w_bal w) (w_bal w')"
    and "\<And>i. open_reqs i (w_reqs w') = open_reqs i (w_reqs w)"
    and "\<And>i. pending_reqs i (w_reqs w') = pending_reqs i (w_reqs w)"
    and reqs: "\<And>r'. r' \<in> set (w_reqs w') \<Longrightarrow> \<exists>g st. state_at (w_bal w) g (rq_backend r') = Some st"
  shows "lb_inv w'"
proof -
  have same: "map_option (\<lambda>st. (InFlight st, Flow st)) (state_at (w_bal w') g i) =
      map_option (\<lambda>st. (InFlight st, Flow st)) (state_at (w_bal w) g i)" for g i
    using assms(2) by (simp add: frames_def)
  have pre: "\<exists>st. state_at (w_bal w) g i = Some st \<and> InFlight st' = InFlight st \<and> Flow st' = Flow st"
    if "state_at (w_bal w') g i = Some st'" for g i st'
    using same [of g i] that by (cases "state_at (w_bal w) g i") auto
  have forth: "\<exists>st'. state_at (w_bal w') g i = Some st'" if "state_at (w_bal w) g i = Some st" for g i st
    using same [of g i] that by (cases "state_at (w_bal w') g i") auto
  have "counts_ok st' (open_reqs i (w_reqs w')) (pending_reqs i (w_reqs w'))"
    if "state_at (w_bal w') g i = Some st'" for g i st'
    using pre [OF that] inv assms(3,4) by (auto simp: lb_inv_def counts_ok_def)
  moreover have "\<exists>g st. state_at (w_bal w') g (rq_backend r) = Some st" if "r \<in> set (w_reqs w')" for r
    using reqs [OF that] forth by blast
  moreover have "bal_wf (w_bal w')" "groups_disjoint (w_bal w')"
    using inv assms(2) by (simp_all add: lb_inv_def frames_def)
  ultimately show ?thesis by (simp add: lb_inv_def)
qed

section \<open>Counting requests\<close>

lemma length_filter_update:
  assumes "n < length rs"
  shows "int (length (filter P (rs[n := r]))) =
    int (length (filter P rs)) - (if P (rs ! n) then 1 else 0) + (if P r then 1 else 0)"
proof -
  have "rs = take n rs @ rs ! n # drop (Suc n) rs" using assms by (rule id_take_nth_drop)
  then have "filter P rs = filter P (take n rs) @ filter P [rs ! n] @ filter P (drop (Suc n) rs)"
    by (metis append_Cons append_Nil filter_append)
  then show ?thesis using assms by (simp add: upd_conv_take_nth_drop)
qed

lemma open_reqs_set_phase:
  "n < length rs \<Longrightarrow> int (open_reqs i (set_phase n p rs)) = int (open_reqs i rs) +
     (if rq_backend (rs ! n) = i
      then (if in_flight p then 1 else 0) - (if in_flight (rq_phase (rs ! n)) then 1 else 0) else 0)"
  by (simp add: open_reqs_def set_phase_def length_filter_update)

lemma pending_reqs_set_phase:
  "n < length rs \<Longrightarrow> int (pending_reqs i (set_phase n p rs)) = int (pending_reqs i rs) +
     (if rq_backend (rs ! n) = i
      then (if p = PDispatched then 1 else 0) - (if rq_phase (rs ! n) = PDispatched then 1 else 0) else 0)"
  by (simp add: pending_reqs_def set_phase_def length_filter_update)

lemma set_phase_backends:
  assumes "n < length rs" and "r \<in> set (set_phase n p rs)"
  shows "\<exists>r'\<in>set rs. rq_backend r = rq_backend r'"
proof -
  have "r = (rs ! n)\<lparr>rq_phase := p\<rparr> \<or> r \<in> set rs"
    using assms(2) set_update_subset_insert [of rs n] by (auto simp: set_phase_def)
  then show ?thesis using assms(1) nth_mem by force
qed

text \<open>A call of a request on its backend, as a change of that backend's counters.\<close>

lemma lb_inv_call:
  assumes inv: "lb_inv w" and n: "n < length (w_reqs w)" and ks: "range_order ks (bal_groups (w_bal w))"
    and i: "i = rq_backend (w_reqs w ! n)" and ID: "\<And>st. ID (f st) = ID st"
    and "\<And>st. counts_ok st (open_reqs i (w_reqs w)) (pending_reqs i (w_reqs w)) \<Longrightarrow>
      counts_ok (f st) (open_reqs i (set_phase n p (w_reqs w))) (pending_reqs i (set_phase n p (w_reqs w)))"
  shows "lb_inv (w\<lparr>w_bal := at_first ks i f (w_bal w), w_reqs := set_phase n p (w_reqs w)\<rparr>)"
proof -
  have all: "at_first ks i f (w_bal w) = on_all i f (w_bal w)"
    using inv ks by (simp add: lb_inv_def at_first_on_all)
  have other: "open_reqs i' (set_phase n p (w_reqs w)) = open_reqs i' (w_reqs w)"
    "pending_reqs i' (set_phase n p (w_reqs w)) = pending_reqs i' (w_reqs w)" if "i' \<noteq> i" for i'
    using open_reqs_set_phase [OF n, of i' p] pending_reqs_set_phase [OF n, of i' p] that i by auto
  have "counts_ok st' (open_reqs i' (set_phase n p (w_reqs w))) (pending_reqs i' (set_phase n p (w_reqs w)))"
    if "state_at (on_all i f (w_bal w)) g i' = Some st'" for g i' st'
    using that inv assms(6) other by (auto simp: lb_inv_def split: if_splits)
  moreover have "\<exists>g st. state_at (on_all i f (w_bal w)) g (rq_backend r) = Some st"
    if r: "r \<in> set (set_phase n p (w_reqs w))" for r
  proof -
    obtain r' where "r' \<in> set (w_reqs w)" "rq_backend r = rq_backend r'"
      using set_phase_backends [OF n r] by blast
    then obtain g st where "state_at (w_bal w) g (rq_backend r) = Some st"
      using inv by (force simp: lb_inv_def)
    then have "state_at (on_all i f (w_bal w)) g (rq_backend r) \<noteq> None"
      unfolding state_at_None_ops by simp
    then show ?thesis by blast
  qed
  moreover have "bal_wf (on_all i f (w_bal w))" "groups_disjoint (on_all i f (w_bal w))"
    using inv ID by (simp_all add: lb_inv_def bal_wf_on_all)
  ultimately show ?thesis by (simp add: lb_inv_def all)
qed

section \<open>Every step keeps the invariant\<close>

lemma Select_state:
  assumes "bal_wf bal" and "gm_get (bal_groups bal) g = Some grp" and "\<forall>n. range_order (ords n) (bg_States grp)"
    and "balancer_Select now ords g key ctx bal = (Inr st, bal')"
  shows "state_at bal g (ID st) = Some st"
proof -
  obtain sel where sel: "bg_Selector grp = Some sel" "Selector_ok sel"
    using bal_wf_group [OF assms(1,2)] by (auto simp: group_ok_def split: option.splits)
  then have "fst (Selector_Select now sel (select_pool now ords (bg_States grp)) key ctx) = Inr st"
    using assms(2,4) by (simp add: balancer_Select_def split_beta)
  then have "st \<in> set (select_pool now ords (bg_States grp))" by (rule grp_sel.sel_InrD [OF sel(2)])
  then show ?thesis using pool_member [OF assms(1-3)] by blast
qed

lemmas phase_counts = open_reqs_set_phase pending_reqs_set_phase in_flight_def

lemma lb_inv_reqs: "lb_inv w \<Longrightarrow> r \<in> set (w_reqs w) \<Longrightarrow> \<exists>g st. state_at (w_bal w) g (rq_backend r) = Some st"
  by (simp add: lb_inv_def)

lemma flow_pending:
  "fs_dispatched (flow_Dispatch now fs) - fs_completed (flow_Dispatch now fs) = fs_dispatched fs - fs_completed fs + 1"
  "fs_dispatched (flow_Complete now s t m fs) - fs_completed (flow_Complete now s t m fs) =
     fs_dispatched fs - fs_completed fs - 1"
  by (simp_all add: flow_Dispatch_def flow_Complete_def Let_def)

lemma lb_inv_same_bal:
  assumes "lb_inv w" and "frames (w_bal w) bal'"
  shows "lb_inv (w\<lparr>w_bal := bal'\<rparr>)" and "lb_inv (w\<lparr>w_bal := bal', w_jobs := js\<rparr>)" and "lb_inv (w\<lparr>w_jobs := js\<rparr>)"
  using assms lb_inv_reqs by (auto intro!: lb_inv_frames [OF assms(1)])

lemma lb_step_inv:
  assumes "lb_step pf w w'" and inv: "lb_inv w"
  shows "lb_inv w'"
  using assms(1)
proof cases
  case (arrive g grp ords now key ctx st bal')
  have fr: "frames (w_bal w) bal'" using frames_Select arrive(4) by (metis snd_conv)
  have "state_at (w_bal w) g (ID st) = Some st"
    using Select_state arrive(2-4) inv by (auto simp: lb_inv_def)
  then have reqs: "\<exists>g st'. state_at (w_bal w) g (rq_backend r) = Some st'"
    if "r \<in> set (w_reqs w @ [\<lparr>rq_backend = ID st, rq_phase = PSelected\<rparr>])" for r
    using that lb_inv_reqs [OF inv] by fastforce
  show ?thesis
    unfolding arrive(1)
    by (rule lb_inv_frames [OF inv])
      (use fr reqs in \<open>simp_all add: open_reqs_def pending_reqs_def in_flight_def\<close>)
next
  case (reject now ords g key ctx err bal')
  then show ?thesis using lb_inv_same_bal(1) [OF inv] frames_Select by (metis snd_conv)
next
  case (incr n ks)
  then show ?thesis
    unfolding incr(1) Incr_def
    by (intro lb_inv_call [OF inv incr(2) incr(4)])
      (auto simp: counts_ok_def phase_counts)
next
  case (dispatch n ks now)
  then show ?thesis
    unfolding dispatch(1) balancer_Dispatch_def
    by (intro lb_inv_call [OF inv dispatch(2) dispatch(4)])
      (auto simp: counts_ok_def phase_counts flow_pending flow_inv_Dispatch)
next
  case (complete n ks now success timedOut ttft)
  then show ?thesis
    unfolding complete(1) balancer_Complete_def
    by (intro lb_inv_call [OF inv complete(2) complete(4)])
      (auto simp: counts_ok_def phase_counts flow_pending flow_inv_Complete)
next
  case (decr n success timedOut ks)
  then show ?thesis
    unfolding decr(1) Decr_def
    by (intro lb_inv_call [OF inv decr(2) decr(4)])
      (auto simp: counts_ok_def phase_counts)
next
  case (outcome n success timedOut now)
  have eq: "open_reqs i (set_phase n PDone (w_reqs w)) = open_reqs i (w_reqs w)"
    "pending_reqs i (set_phase n PDone (w_reqs w)) = pending_reqs i (w_reqs w)" for i
    using open_reqs_set_phase [OF outcome(2), of i PDone] pending_reqs_set_phase [OF outcome(2), of i PDone]
      outcome(3) by (simp_all add: in_flight_def split: if_splits)
  show ?thesis
    unfolding outcome(1)
    by (intro lb_inv_frames [OF inv])
      (auto simp: eq frames_recordRequestOutcome dest!: set_phase_backends [OF outcome(2)] dest: lb_inv_reqs [OF inv])
next
  case (invalidate now g key)
  then show ?thesis using lb_inv_same_bal(1) [OF inv frames_InvalidatePin] by simp
next
  case (job n j' bal')
  then show ?thesis using lb_inv_same_bal(2) [OF inv frames_job_step] by simp
next
  case stop
  have "frames (w_bal w) ((w_bal w)\<lparr>bal_done := True\<rparr>)"
    by (simp add: frames_def bal_wf_def groups_disjoint_def state_at_def)
  then show ?thesis using lb_inv_same_bal(1) [OF inv] stop by simp
next
  case (job_exit n)
  then show ?thesis using lb_inv_same_bal(3) [OF inv frames_refl] by simp
qed

section \<open>The initial state\<close>

lemma group_states_get:
  assumes "gm_get (group_states cfg name gc) i = Some st"
  shows "\<exists>be\<in>set (GroupBackends cfg name). be_ID be = i \<and>
    st = NewBackendState (be_ID be) (be_BaseURL be) 1 (GetFlowWindowDuration cfg (Some gc))"
proof -
  have "gm_get (fold (\<lambda>be. gm_set (be_ID be) (f be)) bs m) i = Some st \<Longrightarrow>
      gm_get m i = Some st \<or> (\<exists>be\<in>set bs. be_ID be = i \<and> st = f be)" for f bs m
    by (induction bs arbitrary: m) (fastforce simp: gm_get_set split: if_splits)+
  from this [of _ _ "[]"] assms show ?thesis by (fastforce simp: group_states_def)
qed

lemma group_states_wf: "gm_wf (group_states cfg name gc)"
proof -
  have "gm_wf m \<Longrightarrow> gm_wf (fold (\<lambda>be. gm_set (be_ID be) (f be)) bs m)" for f bs m
    by (induction bs arbitrary: m) auto
  from this [OF gm_wf_Nil] show ?thesis by (simp add: group_states_def)
qed

lemma group_selector_ok: "case group_selector gc of None \<Rightarrow> False | Some sel \<Rightarrow> Selector_ok sel"
  by (auto simp: group_selector_def NewSelector_def NewStickyLeastLoaded_def Let_def)

lemma balancer_New_wf:
  assumes "gm_wf (cfg_Groups cfg)"
  shows "bal_wf (balancer_New cfg)"
proof -
  have "ID st = i" if "(i, st) \<in> set (group_states cfg name gc)" for i st name gc
    using that group_states_get [of cfg name gc i st] group_states_wf
    by (auto simp: gm_get_iff NewBackendState_def)
  then show ?thesis
    using assms group_states_wf group_selector_ok
    by (auto simp: bal_wf_def balancer_New_def group_ok_def set_map_values list_all_iff gm_wf_def)
qed

lemma balancer_New_state:
  assumes "state_at (balancer_New cfg) g i = Some st"
  shows "\<exists>be\<in>set (cfg_Backends cfg). be_Group be = g \<and> be_ID be = i \<and>
    (\<exists>w. st = NewBackendState i (be_BaseURL be) 1 w)"
  using assms group_states_get
  by (fastforce simp: state_at_def balancer_New_def gm_get_map_values GroupBackends_def bind_eq_Some_conv)

lemma balancer_New_disjoint:
  assumes "distinct (map be_ID (cfg_Backends cfg))"
  shows "groups_disjoint (balancer_New cfg)"
proof -
  have "inj_on be_ID (set (cfg_Backends cfg))" using assms by (simp add: distinct_map)
  then show ?thesis
    unfolding groups_disjoint_def by (metis (no_types, lifting) balancer_New_state inj_onD not_None_eq)
qed

lemma lb_init_inv:
  assumes "gm_wf (cfg_Groups cfg)" and "distinct (map be_ID (cfg_Backends cfg))"
  shows "lb_inv (lb_init cfg ords scrape)"
  using assms balancer_New_state
  by (fastforce simp: lb_inv_def lb_init_def balancer_New_wf balancer_New_disjoint counts_ok_def open_reqs_def
      pending_reqs_def NewBackendState_def NewFlowStats_def flow_inv_def)

lemma lb_reachable_inv:
  assumes "(lb_step pf)\<^sup>*\<^sup>* (lb_init cfg ords scrape) w"
    and "gm_wf (cfg_Groups cfg)" and "distinct (map be_ID (cfg_Backends cfg))"
  shows "lb_inv w"
  using assms(1)
proof (induction rule: rtranclp_induct)
  case base
  then show ?case using assms(2,3) by (rule lb_init_inv)
next
  case (step w w')
  then show ?case using lb_step_inv by blast
qed

section \<open>The total\<close>

lemma sum_count_distinct:
  "distinct xs \<Longrightarrow> sum_list (map (\<lambda>x. int (length (filter (\<lambda>r. f r = x \<and> P r) rs))) xs) =
     int (length (filter (\<lambda>r. f r \<in> set xs \<and> P r) rs))"
proof (induction xs)
  case Nil
  then show ?case by simp
next
  case (Cons x xs)
  have "length (filter (\<lambda>r. f r \<in> set (x # xs) \<and> P r) rs) =
      length (filter (\<lambda>r. f r = x \<and> P r) rs) + length (filter (\<lambda>r. f r \<in> set xs \<and> P r) rs)"
    using Cons.prems by (induction rs) auto
  with Cons show ?case by simp
qed

definition state_ids :: "Balancer \<Rightarrow> string list" where
  "state_ids bal = concat (map (\<lambda>p. gm_keys (bg_States (snd p))) (bal_groups bal))"

lemma state_at_pair:
  assumes "bal_wf bal" and "p \<in> set (bal_groups bal)"
  shows "state_at bal (fst p) i = gm_get (bg_States (snd p)) i" and "group_ok (snd p)"
proof -
  have "gm_get (bal_groups bal) (fst p) = Some (snd p)"
    using assms by (simp add: bal_wf_def gm_get_iff)
  then show "state_at bal (fst p) i = gm_get (bg_States (snd p)) i" "group_ok (snd p)"
    using bal_wf_group [OF assms(1)] by (simp_all add: state_at_def)
qed

lemma state_ids_iff:
  assumes "bal_wf bal"
  shows "i \<in> set (state_ids bal) \<longleftrightarrow> (\<exists>g st. state_at bal g i = Some st)"
proof
  assume "i \<in> set (state_ids bal)"
  then obtain p where p: "p \<in> set (bal_groups bal)" "i \<in> set (gm_keys (bg_States (snd p)))"
    by (auto simp: state_ids_def)
  then have "state_at bal (fst p) i \<noteq> None"
    by (simp add: state_at_pair [OF assms] gm_get_None_iff)
  then show "\<exists>g st. state_at bal g i = Some st" by blast
next
  assume "\<exists>g st. state_at bal g i = Some st"
  then obtain g grp st where "gm_get (bal_groups bal) g = Some grp" "gm_get (bg_States grp) i = Some st"
    by (auto simp: state_at_def bind_eq_Some_conv)
  then have "(g, grp) \<in> set (bal_groups bal)" "i \<in> set (gm_keys (bg_States grp))"
    using gm_get_in_keys [of "bg_States grp" i st] by (simp_all add: map_of_SomeD)
  then show "i \<in> set (state_ids bal)"
    unfolding state_ids_def set_concat set_map by (auto intro!: bexI [of _ "(g, grp)"])
qed

lemma distinct_concat_map:
  assumes "distinct xs" and "\<And>x. x \<in> set xs \<Longrightarrow> distinct (f x)"
    and "\<And>x y. x \<in> set xs \<Longrightarrow> y \<in> set xs \<Longrightarrow> x \<noteq> y \<Longrightarrow> set (f x) \<inter> set (f y) = {}"
  shows "distinct (concat (map f xs))"
  using assms
proof (induction xs)
  case Nil
  then show ?case by simp
next
  case (Cons x xs)
  have "set (f x) \<inter> set (f y) = {}" if "y \<in> set xs" for y
    using Cons.prems(1) that by (intro Cons.prems(3)) auto
  moreover have "distinct (concat (map f xs))" using Cons.prems by (intro Cons.IH) simp_all
  ultimately show ?case using Cons.prems(2) by (auto simp: disjoint_iff)
qed

lemma state_ids_distinct:
  assumes wf: "bal_wf bal" and "groups_disjoint bal"
  shows "distinct (state_ids bal)"
  unfolding state_ids_def
proof (rule distinct_concat_map)
  show "distinct (bal_groups bal)" using wf by (simp add: bal_wf_def gm_wf_def distinct_map)
  show "distinct (gm_keys (bg_States (snd p)))" if "p \<in> set (bal_groups bal)" for p
    using state_at_pair(2) [OF wf that] by (simp add: group_ok_def gm_wf_def)
  fix p q assume p: "p \<in> set (bal_groups bal)" and q: "q \<in> set (bal_groups bal)" and "p \<noteq> q"
  have "inj_on fst (set (bal_groups bal))" using wf by (simp add: bal_wf_def gm_wf_def distinct_map)
  with p q \<open>p \<noteq> q\<close> have "fst p \<noteq> fst q" by (auto dest: inj_onD)
  then have "state_at bal (fst p) i = None \<or> state_at bal (fst q) i = None" for i
    using assms(2) unfolding groups_disjoint_def by blast
  then show "set (gm_keys (bg_States (snd p))) \<inter> set (gm_keys (bg_States (snd q))) = {}"
    unfolding state_at_pair(1) [OF wf p] state_at_pair(1) [OF wf q] gm_get_None_iff by blast
qed

lemma sum_list_concat_map: "sum_list (map f (concat xss)) = sum_list (map (\<lambda>xs. sum_list (map f xs)) xss)"
  by (induction xss) simp_all

lemma TotalInFlight_open:
  assumes "lb_inv w"
  shows "TotalInFlight (w_bal w) = int (length (filter (\<lambda>r. in_flight (rq_phase r)) (w_reqs w)))"
proof -
  let ?bal = "w_bal w" and ?open = "\<lambda>i. int (open_reqs i (w_reqs w))"
  have wf: "bal_wf ?bal" "groups_disjoint ?bal" using assms by (simp_all add: lb_inv_def)
  have "InFlight (snd s) = ?open (fst s)" if "p \<in> set (bal_groups ?bal)" "s \<in> set (bg_States (snd p))" for p s
  proof -
    have "gm_get (bg_States (snd p)) (fst s) = Some (snd s)"
      using that state_at_pair(2) [OF wf(1) that(1)] by (simp add: group_ok_def gm_get_iff)
    then have "state_at ?bal (fst p) (fst s) = Some (snd s)"
      by (simp add: state_at_pair(1) [OF wf(1) that(1)])
    with assms show ?thesis unfolding lb_inv_def counts_ok_def by blast
  qed
  then have "TotalInFlight ?bal = sum_list (map (\<lambda>p. sum_list (map (\<lambda>s. ?open (fst s)) (bg_States (snd p)))) (bal_groups ?bal))"
    unfolding TotalInFlight_def split_beta by (intro arg_cong [where f = sum_list] map_cong) auto
  also have "\<dots> = sum_list (map ?open (state_ids ?bal))"
    unfolding state_ids_def by (simp add: sum_list_concat_map comp_def)
  also have "\<dots> = int (length (filter (\<lambda>r. rq_backend r \<in> set (state_ids ?bal) \<and> in_flight (rq_phase r)) (w_reqs w)))"
    unfolding open_reqs_def by (rule sum_count_distinct [OF state_ids_distinct [OF wf]])
  also have "filter (\<lambda>r. rq_backend r \<in> set (state_ids ?bal) \<and> in_flight (rq_phase r)) (w_reqs w) =
      filter (\<lambda>r. in_flight (rq_phase r)) (w_reqs w)"
    using lb_inv_reqs [OF assms] by (intro filter_cong) (auto simp: state_ids_iff [OF wf(1)])
  finally show ?thesis .
qed

section \<open>Properties\<close>

text \<open>
  C1: the counters are exact under every interleaving. From a new balancer whose configuration
  gives no id to two backends, after any interleaving of request calls, pin invalidations, job
  starts and ticks: the in-flight counter of a backend is the number of requests between \<open>Incr\<close> and
  \<open>Decr\<close> on it, its stalled count is the number of requests dispatched and not completed,
  \<open>TotalInFlight\<close> is the number of all requests in flight, and the balancer stays well formed.
\<close>

theorem reachable_counters_exact:
  assumes "(lb_step pf)\<^sup>*\<^sup>* (lb_init cfg ords scrape) w"
    and "gm_wf (cfg_Groups cfg)" and "distinct (map be_ID (cfg_Backends cfg))"
  shows "bal_wf (w_bal w) \<and>
    (\<forall>g i st. state_at (w_bal w) g i = Some st \<longrightarrow>
       InFlight st = int (length (filter (\<lambda>r. rq_backend r = i \<and> in_flight (rq_phase r)) (w_reqs w))) \<and>
       (\<exists>fs. Flow st = Some fs \<and> Stalled (flow_GetStats now fs) =
          int (length (filter (\<lambda>r. rq_backend r = i \<and> rq_phase r = PDispatched) (w_reqs w))))) \<and>
    TotalInFlight (w_bal w) = int (length (filter (\<lambda>r. in_flight (rq_phase r)) (w_reqs w)))"
proof -
  have inv: "lb_inv w" by (rule lb_reachable_inv [OF assms])
  then have "InFlight st = int (open_reqs i (w_reqs w)) \<and>
      (\<exists>fs. Flow st = Some fs \<and> Stalled (flow_GetStats now fs) = int (pending_reqs i (w_reqs w)))"
    if "state_at (w_bal w) g i = Some st" for g i st
    using that unfolding lb_inv_def counts_ok_def
    by (fastforce simp: flow_GetStats_def Let_def)
  with inv TotalInFlight_open [OF inv] show ?thesis
    by (simp add: lb_inv_def open_reqs_def pending_reqs_def)
qed

text \<open>One request that has arrived and incremented its backend on the sample configuration.\<close>

lemma sample_config_groups:
  "gm_wf (cfg_Groups sample_config)" "distinct (map be_ID (cfg_Backends sample_config))"
  "gm_get (cfg_Groups sample_config) ''gpu'' = Some (default_group None)"
  "map be_ID (GroupBackends sample_config ''gpu'') = [''g1'', ''g2'']"
  by (simp_all add: sample_config_def Load_def Let_def validate_def validateBackends_def validateRoutes_def
      applyDefaults_def sample_defs default_backend_def system_prompt_ops_def gm_map_values_def gm_wf_def
      GroupBackends_def)

lemma group_states_has:
  assumes "be \<in> set (GroupBackends cfg name)"
  shows "gm_get (group_states cfg name gc) (be_ID be) \<noteq> None"
proof -
  have has: "gm_get m i \<noteq> None \<or> i \<in> be_ID ` set bs \<Longrightarrow> gm_get (fold (\<lambda>be. gm_set (be_ID be) (f be)) bs m) i \<noteq> None"
    for f bs m i
    by (induction bs arbitrary: m) (auto simp: gm_get_set)
  show ?thesis unfolding group_states_def by (rule has) (use assms in simp)
qed

lemma sample_incremented:
  "\<exists>w. (lb_step pf)\<^sup>*\<^sup>* (lb_init sample_config ords scrape) w \<and>
     (\<exists>i. w_reqs w = [\<lparr>rq_backend = i, rq_phase = PIncremented\<rparr>])"
proof -
  let ?w = "lb_init sample_config ords scrape" and ?bal = "balancer_New sample_config"
  let ?gc = "default_group None"
  have wf: "bal_wf ?bal" by (rule balancer_New_wf [OF sample_config_groups(1)])
  obtain grp where grp: "gm_get (bal_groups ?bal) ''gpu'' = Some grp"
    and sts: "bg_States grp = group_states sample_config ''gpu'' ?gc"
    using sample_config_groups(3) by (simp add: balancer_New_def gm_get_map_values)
  obtain be where "be \<in> set (GroupBackends sample_config ''gpu'')"
    using sample_config_groups(4) by (cases "GroupBackends sample_config ''gpu''") auto
  from group_states_has [OF this, of ?gc] obtain st where "state_at ?bal ''gpu'' (be_ID be) = Some st"
    by (auto simp: state_at_def grp sts)
  moreover have keys: "\<forall>n :: nat. range_order (gm_keys (bg_States grp)) (bg_States grp)"
    by (simp add: sts group_states_wf)
  ultimately obtain st' bal' where sel: "balancer_Select 0 (\<lambda>_. gm_keys (bg_States grp)) ''gpu'' '''' None ?bal = (Inr st', bal')"
    using balancer_Select_member [OF wf grp, of "\<lambda>_. gm_keys (bg_States grp)"] by (metis prod.collapse)
  let ?w1 = "?w\<lparr>w_bal := bal', w_reqs := w_reqs ?w @ [\<lparr>rq_backend = ID st', rq_phase = PSelected\<rparr>]\<rparr>"
  have "lb_step pf ?w ?w1"
    by (rule lb_step.arrive [of _ _ grp "\<lambda>_. gm_keys (bg_States grp)"])
      (use grp keys sel in \<open>simp_all add: lb_init_def\<close>)
  moreover have "bal_wf bal'" using bal_wf_Select [OF wf] sel by (metis snd_conv)
  then have "lb_step pf ?w1 (?w1\<lparr>w_bal := Incr (gm_keys (bal_groups bal')) (rq_backend (w_reqs ?w1 ! 0)) (w_bal ?w1),
      w_reqs := set_phase 0 PIncremented (w_reqs ?w1)\<rparr>)"
    by (intro lb_step.incr) (simp_all add: lb_init_def bal_wf_def)
  ultimately have run: "(lb_step pf)\<^sup>*\<^sup>* ?w (?w1\<lparr>w_bal := Incr (gm_keys (bal_groups bal')) (rq_backend (w_reqs ?w1 ! 0)) (w_bal ?w1),
      w_reqs := set_phase 0 PIncremented (w_reqs ?w1)\<rparr>)" (is "(lb_step pf)\<^sup>*\<^sup>* _ ?w2")
    by (meson r_into_rtranclp rtranclp.rtrancl_into_rtrancl)
  have "w_reqs ?w2 = [\<lparr>rq_backend = ID st', rq_phase = PIncremented\<rparr>]"
    by (simp add: lb_init_def set_phase_def)
  with run show ?thesis by blast
qed

theorem reachable_counters_exact_witness:
  "\<exists>w. (lb_step parse_digit)\<^sup>*\<^sup>* (lb_init sample_config (\<lambda>_. []) (\<lambda>_ _. None)) w \<and> TotalInFlight (w_bal w) = 1"
proof -
  obtain w i where w: "(lb_step parse_digit)\<^sup>*\<^sup>* (lb_init sample_config (\<lambda>_. []) (\<lambda>_ _. None)) w"
    and reqs: "w_reqs w = [\<lparr>rq_backend = i, rq_phase = PIncremented\<rparr>]"
    using sample_incremented by blast
  have "TotalInFlight (w_bal w) = 1"
    using reachable_counters_exact [OF w sample_config_groups(1,2)] by (simp add: reqs in_flight_def)
  with w show ?thesis by blast
qed

end
