(* ===== verification/Request_Defender.thy ===== *)
theory Request_Defender
  imports Proxy_Config Affinity_Key
begin

text \<open>
  Request defenders (\<open>internal/proxy/defender.go\<close>): loop detection over repeated user messages and
  zero-content detection.

  \<open>sha256\<close> (the 32 digest bytes of a string) and \<open>sprint\<close> (the text \<open>fmt.Sprint\<close> gives for a list of
  tool calls) are parameters. \<open>checkDefenders\<close> is \<open>None\<close> where the code would dereference the
  entry of a loop that is not in the map. A check reads the clock once.
\<close>

section \<open>Loop detection\<close>

record loopEntry =
  le_hash :: string
  le_count :: int
  le_firstSeen :: time
  le_escaped :: bool

type_synonym loopDetector = "(string, loopEntry) gomap"

definition hex_encode :: "string \<Rightarrow> string" where
  "hex_encode bs = concat (map (\<lambda>b. [hex_digit (of_char b div 16), hex_digit (of_char b mod 16)]) bs)"

definition hashString :: "(string \<Rightarrow> string) \<Rightarrow> string \<Rightarrow> string" where
  "hashString sha256 s = hex_encode (sha256 s)"

definition cleanupStale :: "time \<Rightarrow> int \<Rightarrow> loopDetector \<Rightarrow> loopDetector" where
  "cleanupStale now windowSeconds st =
     (let cutoff = now + seconds (- windowSeconds)
      in filter (\<lambda>(_, e). \<not> le_firstSeen e < cutoff) st)"

definition loop_key :: "(string \<Rightarrow> string) \<Rightarrow> string \<Rightarrow> string \<Rightarrow> string" where
  "loop_key sha256 affinityKey lastUserMsgHash = hex_encode (sha256 (affinityKey @ '':'' @ lastUserMsgHash))"

definition checkLoop ::
  "(string \<Rightarrow> string) \<Rightarrow> time \<Rightarrow> string \<Rightarrow> string \<Rightarrow> LoopDetectionConfig \<Rightarrow> loopDetector \<Rightarrow>
   (bool \<times> bool \<times> string) \<times> loopDetector" where
  "checkLoop sha256 now affinityKey lastUserMsgHash cfg st0 =
     (if \<not> ld_Enabled cfg then ((False, False, ''''), st0)
      else
        (let hexHash = loop_key sha256 affinityKey lastUserMsgHash;
             st = (if length st0 mod 1000 = 0 \<and> length st0 > 100
                   then cleanupStale now (ld_WindowSeconds cfg) st0 else st0);
             fresh = ((False, False, ''''),
                gm_set hexHash \<lparr>le_hash = lastUserMsgHash, le_count = 1, le_firstSeen = now, le_escaped = False\<rparr> st)
         in case gm_get st hexHash of
              None \<Rightarrow> fresh
            | Some entry \<Rightarrow>
                (if real_of_int (time_sub now (le_firstSeen entry)) / 10 ^ 9 > real_of_int (ld_WindowSeconds cfg)
                 then fresh
                 else
                   (let entry1 = entry\<lparr>le_count := le_count entry + 1\<rparr>;
                        action = (if ld_Action cfg = '''' then ''inject_forcing_message'' else ld_Action cfg);
                        escalation = (if ld_EscalateAction cfg = '''' then ''refuse_429'' else ld_EscalateAction cfg)
                    in if le_count entry1 < ld_ConsecutiveThreshold cfg
                       then ((False, False, ''''), gm_set hexHash entry1 st)
                       else if le_escaped entry1 then ((True, True, escalation), gm_set hexHash entry1 st)
                       else if le_count entry1 \<ge> ld_ConsecutiveThreshold cfg + ld_EscalateAfter cfg
                       then ((True, True, escalation), gm_set hexHash (entry1\<lparr>le_escaped := True\<rparr>) st)
                       else ((True, False, action),
                             gm_set hexHash (entry1\<lparr>le_count := ld_ConsecutiveThreshold cfg\<rparr>) st)))))"

definition getEntry :: "(string \<Rightarrow> string) \<Rightarrow> string \<Rightarrow> string \<Rightarrow> loopDetector \<Rightarrow> loopEntry option" where
  "getEntry sha256 affinityKey lastUserMsgHash st = gm_get st (loop_key sha256 affinityKey lastUserMsgHash)"

section \<open>Messages\<close>

definition getLastUserMessage :: "obj \<Rightarrow> json option" where
  "getLastUserMessage body =
     (case get_arr body ''messages'' of
        None \<Rightarrow> None
      | Some msgs \<Rightarrow>
          find (\<lambda>m. case m of JObj msg \<Rightarrow> or_zero (get_str msg ''role'') '''' = ''user'' | _ \<Rightarrow> False) (rev msgs))"

definition getMessageContent :: "json \<Rightarrow> string" where
  "getMessageContent msg =
     (case msg of JObj m \<Rightarrow> or_zero (get_str m ''content'') '''' | _ \<Rightarrow> '''')"

definition message_bytes :: "(json list \<Rightarrow> string) \<Rightarrow> json \<Rightarrow> int" where
  "message_bytes sprint m =
     (case m of
        JObj msg \<Rightarrow>
          (case get_str msg ''content'' of Some c \<Rightarrow> int (length c) | None \<Rightarrow> 0) +
          (case get_arr msg ''tool_calls'' of Some tc \<Rightarrow> int (length (sprint tc)) | None \<Rightarrow> 0)
      | _ \<Rightarrow> 0)"

definition checkZeroContent :: "(json list \<Rightarrow> string) \<Rightarrow> obj \<Rightarrow> ZeroContentDetectionConfig \<Rightarrow> bool" where
  "checkZeroContent sprint body cfg =
     (if \<not> zc_Enabled cfg then False
      else (case getLastUserMessage body of
              None \<Rightarrow> False
            | Some lastUserMsg \<Rightarrow>
                (let stripped = TrimSpace (getMessageContent lastUserMsg) in
                 if int (length stripped) \<ge> zc_MinUserContentChars cfg then False
                 else
                   (let totalBytes = sum_list (map (message_bytes sprint) (or_zero (get_arr body ''messages'') []));
                        minTokens = (if zc_MinTotalInputTokens cfg = 0 then 2000 else zc_MinTotalInputTokens cfg)
                    in totalBytes div 4 \<ge> minTokens))))"

definition is_system_message :: "json \<Rightarrow> bool" where
  "is_system_message m = (case m of JObj msg \<Rightarrow> get_str msg ''role'' = Some ''system'' | _ \<Rightarrow> False)"

text \<open>The assignment to the first system message of the list, through its map.\<close>

fun append_to_system :: "string \<Rightarrow> json list \<Rightarrow> json list" where
  "append_to_system content [] = []"
| "append_to_system content (m # ms) =
     (if is_system_message m then
        (case m of
           JObj msg \<Rightarrow>
             JObj (gm_set ''content''
               (JStr (or_zero (get_str msg ''content'') '''' @ [CHR 0x0A, CHR 0x0A] @ content)) msg) # ms
         | _ \<Rightarrow> m # ms)
      else m # append_to_system content ms)"

definition injectSystemMessage :: "obj \<Rightarrow> string \<Rightarrow> obj" where
  "injectSystemMessage body content =
     (case get_arr body ''messages'' of
        None \<Rightarrow> body
      | Some msgs \<Rightarrow>
          (if list_ex is_system_message msgs
           then gm_set ''messages'' (JArr (append_to_system content msgs)) body
           else gm_set ''messages''
                  (JArr (JObj [(''role'', JStr ''system''), (''content'', JStr content)] # msgs)) body))"

section \<open>Actions\<close>

definition refuse_text :: "int \<Rightarrow> string" where
  \<open>refuse_text n =
     ''{"error":{"message":"loop detected: same request repeated '' @ Itoa n @
     '' times. Stop retrying.","type":"defender"},"code":429}''\<close>

definition forcing_text :: "int \<Rightarrow> string" where
  \<open>forcing_text n =
     ''Your previous '' @ Itoa n @
     '' attempts of this exact request returned the same result. Stop retrying. Either fix the underlying issue (e.g. read the tool's error output and address it directly) or stop and surface to the human.''\<close>

text \<open>Short circuit, status and response, and the body as the action leaves it.\<close>

definition applyLoopDetected :: "string \<Rightarrow> int \<Rightarrow> obj \<Rightarrow> (bool \<times> int \<times> string) \<times> obj" where
  "applyLoopDetected action n body =
     (if action = ''refuse_429'' then ((True, 429, refuse_text n), body)
      else if action = ''inject_forcing_message''
      then ((False, 0, ''''), injectSystemMessage body (forcing_text n))
      else ((False, 0, ''''), body))"

definition zero_text :: string where
  \<open>zero_text =
     ''{"error":{"message":"request blocked: minimal user content in a large payload. Add meaningful content or reduce system/tool overhead.","type":"defender"},"code":400}''\<close>

definition minimal_text :: "int \<Rightarrow> string" where
  \<open>minimal_text created =
     ''{"id":"def-zero-content","object":"chat.completion","created":'' @ Itoa created @
     '',"model":"","choices":[{"index":0,"message":{"role":"assistant","content":""},"finish_reason":"length"}]}''\<close>

definition applyZeroContent :: "int \<Rightarrow> string \<Rightarrow> bool \<times> int \<times> string" where
  "applyZeroContent unix action =
     (if action = ''refuse_400'' then (True, 400, zero_text)
      else if action = ''inject_minimal_response'' then (True, 200, minimal_text unix)
      else (False, 0, ''''))"

record defender_result =
  dr_short :: bool
  dr_status :: int
  dr_body :: string
  dr_header :: string

definition checkDefenders ::
  "(string \<Rightarrow> string) \<Rightarrow> (json list \<Rightarrow> string) \<Rightarrow> int \<Rightarrow> time \<Rightarrow> Config \<Rightarrow> Route option \<Rightarrow> obj \<Rightarrow> string \<Rightarrow>
   loopDetector \<Rightarrow> (defender_result \<times> obj \<times> loopDetector) option" where
  "checkDefenders sha256 sprint unix now cfg route body affinityKey st =
     (let zcCfg = GetZeroContentDetection cfg route;
          (zshort, zstatus, zresp) = applyZeroContent unix (zc_Action zcCfg)
      in if checkZeroContent sprint body zcCfg \<and> zshort
         then Some (\<lparr>dr_short = True, dr_status = zstatus, dr_body = zresp, dr_header = ''zero_content_blocked''\<rparr>, body, st)
         else
           (case getLastUserMessage body of
              None \<Rightarrow> Some (\<lparr>dr_short = False, dr_status = 0, dr_body = '''', dr_header = ''''\<rparr>, body, st)
            | Some lastUserMsg \<Rightarrow>
                (let lastUserHash = hashString sha256 (getMessageContent lastUserMsg);
                     ((detected, escalated, action), st') =
                       checkLoop sha256 now affinityKey lastUserHash (GetLoopDetection cfg route) st
                 in if detected then
                      (case getEntry sha256 affinityKey lastUserHash st' of
                         None \<Rightarrow> None
                       | Some entry \<Rightarrow>
                           (let ((short, status, resp), body') = applyLoopDetected action (le_count entry) body
                            in Some (\<lparr>dr_short = short, dr_status = status, dr_body = resp,
                                 dr_header = (if escalated then ''loop_detection_escalated'' else ''loop_detection_inject'')\<rparr>,
                               body', st')))
                    else Some (\<lparr>dr_short = False, dr_status = 0, dr_body = '''', dr_header = ''''\<rparr>, body, st'))))"

section \<open>Loop detection counts repetitions\<close>

text \<open>The check of one key on an enabled detector, as a change of that key's entry.\<close>

definition in_window :: "LoopDetectionConfig \<Rightarrow> time \<Rightarrow> loopEntry \<Rightarrow> bool" where
  "in_window cfg now e \<longleftrightarrow> real_of_int (time_sub now (le_firstSeen e)) / 10 ^ 9 \<le> real_of_int (ld_WindowSeconds cfg)"

definition entry_step ::
  "LoopDetectionConfig \<Rightarrow> time \<Rightarrow> string \<Rightarrow> loopEntry option \<Rightarrow> (bool \<times> bool) \<times> loopEntry" where
  "entry_step cfg now h oe =
     (case oe of
        Some e \<Rightarrow>
          (if in_window cfg now e then
             (let e1 = e\<lparr>le_count := le_count e + 1\<rparr> in
              if le_count e1 < ld_ConsecutiveThreshold cfg then ((False, False), e1)
              else if le_escaped e1 then ((True, True), e1)
              else if le_count e1 \<ge> ld_ConsecutiveThreshold cfg + ld_EscalateAfter cfg
              then ((True, True), e1\<lparr>le_escaped := True\<rparr>)
              else ((True, False), e1\<lparr>le_count := ld_ConsecutiveThreshold cfg\<rparr>))
           else ((False, False), \<lparr>le_hash = h, le_count = 1, le_firstSeen = now, le_escaped = False\<rparr>))
      | None \<Rightarrow> ((False, False), \<lparr>le_hash = h, le_count = 1, le_firstSeen = now, le_escaped = False\<rparr>))"

text \<open>The entries a check sees: those of the map, less the stale ones when it cleans up.\<close>

definition visible :: "time \<Rightarrow> LoopDetectionConfig \<Rightarrow> loopDetector \<Rightarrow> loopDetector" where
  "visible now cfg st =
     (if length st mod 1000 = 0 \<and> length st > 100 then cleanupStale now (ld_WindowSeconds cfg) st else st)"

lemma checkLoop_step:
  assumes "ld_Enabled cfg"
  shows "map_prod (\<lambda>(d, e, _). (d, e)) id (checkLoop sha now ak h cfg st) =
    (let k = loop_key sha ak h; (r, e) = entry_step cfg now h (gm_get (visible now cfg st) k)
     in (r, gm_set k e (visible now cfg st)))"
  using assms
  by (auto simp: checkLoop_def visible_def entry_step_def in_window_def Let_def not_le not_less split: option.split)

lemma checkLoop_off: "\<not> ld_Enabled cfg \<Longrightarrow> checkLoop sha now ak h cfg st = ((False, False, ''''), st)"
  by (simp add: checkLoop_def)

lemma visible_wf: "gm_wf st \<Longrightarrow> gm_wf (visible now cfg st)"
  by (simp add: visible_def cleanupStale_def gm_wf_filter Let_def)

lemma visible_get:
  assumes "gm_wf st"
  shows "gm_get (visible now cfg st) k = Some e \<Longrightarrow> gm_get st k = Some e"
    and "gm_get st k = Some e \<Longrightarrow> le_firstSeen e \<ge> now + seconds (- ld_WindowSeconds cfg) \<Longrightarrow>
      gm_get (visible now cfg st) k = Some e"
  using assms visible_wf [OF assms, of now cfg]
  by (auto simp: gm_get_iff) (auto simp: visible_def cleanupStale_def Let_def split: if_splits)

lemma checkLoop_state:
  assumes "ld_Enabled cfg"
  shows "snd (checkLoop sha now ak h cfg st) =
      gm_set (loop_key sha ak h) (snd (entry_step cfg now h (gm_get (visible now cfg st) (loop_key sha ak h))))
        (visible now cfg st)"
    and "fst (fst (checkLoop sha now ak h cfg st)) =
      fst (fst (entry_step cfg now h (gm_get (visible now cfg st) (loop_key sha ak h))))"
    and "fst (snd (fst (checkLoop sha now ak h cfg st))) =
      snd (fst (entry_step cfg now h (gm_get (visible now cfg st) (loop_key sha ak h))))"
  using checkLoop_step [OF assms, of sha now ak h st]
  by (auto simp: Let_def split_beta map_prod_def prod_eq_iff)

lemma checkLoop_wf: "gm_wf st \<Longrightarrow> gm_wf (snd (checkLoop sha now ak h cfg st))"
  by (cases "ld_Enabled cfg") (auto simp: checkLoop_off checkLoop_state visible_wf)

text \<open>A run of checks under one configuration.\<close>

type_synonym loop_call = "time \<times> string \<times> string"

definition loop_run :: "(string \<Rightarrow> string) \<Rightarrow> LoopDetectionConfig \<Rightarrow> loopDetector \<Rightarrow> loop_call list \<Rightarrow> loopDetector" where
  "loop_run sha cfg st calls = foldl (\<lambda>st (now, ak, h). snd (checkLoop sha now ak h cfg st)) st calls"

lemma loop_run_snoc:
  "loop_run sha cfg st (calls @ [(now, ak, h)]) = snd (checkLoop sha now ak h cfg (loop_run sha cfg st calls))"
  by (simp add: loop_run_def)

lemma loop_run_wf: "gm_wf (loop_run sha cfg [] calls)"
proof (induction calls rule: rev_induct)
  case Nil
  then show ?case by (simp add: loop_run_def)
next
  case (snoc c calls)
  then show ?case by (cases c) (simp add: loop_run_snoc checkLoop_wf)
qed

text \<open>With an escalation distance of at least two no entry ever escalates.\<close>

definition calm :: "LoopDetectionConfig \<Rightarrow> loopEntry \<Rightarrow> bool" where
  "calm cfg e \<longleftrightarrow> \<not> le_escaped e \<and> le_count e \<le> max 1 (ld_ConsecutiveThreshold cfg)"

lemma entry_step_calm:
  assumes "2 \<le> ld_EscalateAfter cfg" and "1 \<le> ld_ConsecutiveThreshold cfg"
    and "case oe of None \<Rightarrow> True | Some e \<Rightarrow> calm cfg e"
  shows "calm cfg (snd (entry_step cfg now h oe)) \<and> \<not> snd (fst (entry_step cfg now h oe))"
  using assms by (auto simp: entry_step_def calm_def Let_def split: option.splits)

lemma loop_run_calm:
  assumes "2 \<le> ld_EscalateAfter cfg" and "1 \<le> ld_ConsecutiveThreshold cfg"
  shows "gm_get (loop_run sha cfg [] calls) k = Some e \<Longrightarrow> calm cfg e"
proof (induction calls arbitrary: k e rule: rev_induct)
  case Nil
  then show ?case by (simp add: loop_run_def)
next
  case (snoc c calls)
  obtain now ak h where c: "c = (now, ak, h)" by (cases c)
  let ?st = "loop_run sha cfg [] calls" and ?k = "loop_key sha ak h"
  show ?case
  proof (cases "ld_Enabled cfg")
    case False
    with snoc c show ?thesis by (simp add: loop_run_snoc checkLoop_off)
  next
    case True
    have vis: "calm cfg e'" if "gm_get (visible now cfg ?st) k' = Some e'" for k' e'
      using snoc.IH visible_get(1) [OF loop_run_wf that] by blast
    then have "calm cfg (snd (entry_step cfg now h (gm_get (visible now cfg ?st) ?k)))"
      using entry_step_calm [OF assms] by (auto split: option.splits)
    with snoc.prems vis show ?thesis
      by (auto simp: c loop_run_snoc checkLoop_state [OF True] gm_get_set split: if_splits)
  qed
qed

definition same_key :: "(string \<Rightarrow> string) \<Rightarrow> string \<Rightarrow> loop_call list \<Rightarrow> nat" where
  "same_key sha k calls = length (filter (\<lambda>(_, ak, h). loop_key sha ak h = k) calls)"

lemma same_key_snoc:
  "same_key sha k (calls @ [(now, ak, h)]) = (if loop_key sha ak h = k then Suc (same_key sha k calls) else same_key sha k calls)"
  by (simp add: same_key_def)

text \<open>What a run within one window knows of a key after \<open>c\<close> calls with it.\<close>

definition tracks :: "LoopDetectionConfig \<Rightarrow> time \<Rightarrow> nat \<Rightarrow> loopEntry option \<Rightarrow> bool" where
  "tracks cfg t0 c oe \<longleftrightarrow>
     (case oe of
        None \<Rightarrow> c = 0
      | Some e \<Rightarrow> 0 < c \<and> t0 \<le> le_firstSeen e \<and> le_firstSeen e \<le> t0 + seconds (ld_WindowSeconds cfg) \<and>
          (if int c < ld_ConsecutiveThreshold cfg then le_count e = int c
           else ld_ConsecutiveThreshold cfg \<le> le_count e))"

definition small_window :: "LoopDetectionConfig \<Rightarrow> bool" where
  "small_window cfg \<longleftrightarrow> 0 \<le> ld_WindowSeconds cfg \<and> ld_WindowSeconds cfg \<le> 10 ^ 9"

lemma small_window_seconds:
  assumes "small_window cfg"
  shows "seconds (ld_WindowSeconds cfg) = ld_WindowSeconds cfg * 10 ^ 9"
    and "seconds (- ld_WindowSeconds cfg) = - (ld_WindowSeconds cfg * 10 ^ 9)"
  using assms by (simp_all add: small_window_def seconds_def wrap64_id)

lemma window_facts:
  assumes "small_window cfg" and "t0 \<le> now" and "now \<le> t0 + seconds (ld_WindowSeconds cfg)" and "t0 \<le> le_firstSeen e"
    and "le_firstSeen e \<le> t0 + seconds (ld_WindowSeconds cfg)"
  shows "in_window cfg now e" and "now + seconds (- ld_WindowSeconds cfg) \<le> le_firstSeen e"
proof -
  let ?W = "ld_WindowSeconds cfg"
  have "time_sub now (le_firstSeen e) \<le> ?W * 10 ^ 9"
    using assms small_window_seconds [OF assms(1)] by (auto simp: time_sub_def small_window_def)
  then have "real_of_int (time_sub now (le_firstSeen e)) \<le> real_of_int (?W * 10 ^ 9)"
    by (rule of_int_le_iff [THEN iffD2])
  then show "in_window cfg now e" by (simp add: in_window_def divide_le_eq)
  show "now + seconds (- ?W) \<le> le_firstSeen e"
    using assms small_window_seconds [OF assms(1)] by simp
qed

lemma entry_step_tracks:
  assumes "small_window cfg" and "1 \<le> ld_ConsecutiveThreshold cfg" and "t0 \<le> now"
    and "now \<le> t0 + seconds (ld_WindowSeconds cfg)" and "tracks cfg t0 c oe"
  shows "tracks cfg t0 (Suc c) (Some (snd (entry_step cfg now h oe)))"
    and "fst (fst (entry_step cfg now h oe)) \<longleftrightarrow> int (Suc c) \<ge> max 2 (ld_ConsecutiveThreshold cfg)"
proof -
  have win: "in_window cfg now e" if "oe = Some e" for e
    using window_facts(1) [OF assms(1,3,4)] assms(5) that by (simp add: tracks_def)
  show "tracks cfg t0 (Suc c) (Some (snd (entry_step cfg now h oe)))"
    using assms win by (cases oe) (auto simp: tracks_def entry_step_def Let_def split: if_splits)
  show "fst (fst (entry_step cfg now h oe)) \<longleftrightarrow> int (Suc c) \<ge> max 2 (ld_ConsecutiveThreshold cfg)"
    using assms win by (cases oe) (auto simp: tracks_def entry_step_def Let_def split: if_splits)
qed

lemma visible_tracks:
  assumes "small_window cfg" and "t0 \<le> now" and "now \<le> t0 + seconds (ld_WindowSeconds cfg)" and "gm_wf st"
    and "tracks cfg t0 c (gm_get st k)"
  shows "gm_get (visible now cfg st) k = gm_get st k"
proof (cases "gm_get st k")
  case None
  then show ?thesis using visible_get(1) [OF assms(4)] by (metis not_None_eq)
next
  case (Some e)
  then have "now + seconds (- ld_WindowSeconds cfg) \<le> le_firstSeen e"
    using assms by (intro window_facts(2) [OF assms(1-3)]) (simp_all add: tracks_def)
  with Some visible_get(2) [OF assms(4)] show ?thesis by simp
qed

lemma loop_run_tracks:
  assumes "ld_Enabled cfg" and "small_window cfg" and "1 \<le> ld_ConsecutiveThreshold cfg"
    and "\<forall>(t, _)\<in>set calls. t0 \<le> t \<and> t \<le> t0 + seconds (ld_WindowSeconds cfg)"
  shows "tracks cfg t0 (same_key sha k calls) (gm_get (loop_run sha cfg [] calls) k)"
  using assms(4)
proof (induction calls arbitrary: k rule: rev_induct)
  case Nil
  then show ?case by (simp add: loop_run_def tracks_def same_key_def)
next
  case (snoc c calls)
  obtain now ak h where c: "c = (now, ak, h)" by (cases c)
  let ?st = "loop_run sha cfg [] calls" and ?k = "loop_key sha ak h"
  have now: "t0 \<le> now" "now \<le> t0 + seconds (ld_WindowSeconds cfg)" using snoc.prems c by auto
  have IH: "tracks cfg t0 (same_key sha k' calls) (gm_get ?st k')" for k'
    using snoc by simp
  have vis: "gm_get (visible now cfg ?st) k' = gm_get ?st k'" for k'
    using visible_tracks [OF assms(2) now loop_run_wf IH] .
  show ?case
    using entry_step_tracks(1) [OF assms(2,3) now IH [of ?k], of h] IH [of k]
    by (auto simp: c loop_run_snoc checkLoop_state [OF assms(1)] same_key_snoc gm_get_set vis)
qed

section \<open>Injection of a system message\<close>

lemma append_to_system_split:
  assumes "list_ex is_system_message ms"
  obtains pre msg post where "ms = pre @ JObj msg # post" and "\<forall>m\<in>set pre. \<not> is_system_message m"
    and "is_system_message (JObj msg)"
    and "append_to_system content ms = pre @ JObj (gm_set ''content''
      (JStr (or_zero (get_str msg ''content'') '''' @ [CHR 0x0A, CHR 0x0A] @ content)) msg) # post"
proof -
  have "\<exists>pre msg post. ms = pre @ JObj msg # post \<and> (\<forall>m\<in>set pre. \<not> is_system_message m) \<and>
      is_system_message (JObj msg) \<and>
      append_to_system content ms = pre @ JObj (gm_set ''content''
        (JStr (or_zero (get_str msg ''content'') '''' @ [CHR 0x0A, CHR 0x0A] @ content)) msg) # post"
    using assms
  proof (induction ms)
    case Nil
    then show ?case by simp
  next
    case (Cons m ms)
    show ?case
    proof (cases "is_system_message m")
      case True
      then obtain msg where "m = JObj msg" by (cases m) (simp_all add: is_system_message_def)
      with True show ?thesis by (intro exI [of _ "[]"] exI [of _ msg] exI [of _ ms]) simp
    next
      case False
      with Cons obtain pre msg post where "ms = pre @ JObj msg # post" "\<forall>m\<in>set pre. \<not> is_system_message m"
        "is_system_message (JObj msg)"
        "append_to_system content ms = pre @ JObj (gm_set ''content''
          (JStr (or_zero (get_str msg ''content'') '''' @ [CHR 0x0A, CHR 0x0A] @ content)) msg) # post"
        by auto
      with False show ?thesis by (intro exI [of _ "m # pre"] exI [of _ msg] exI [of _ post]) simp
    qed
  qed
  then show thesis using that by blast
qed

section \<open>Properties\<close>

text \<open>
  C26: loop detection counts exactly. While all checks fall into one window, a check is reported as
  a loop exactly when the calls with the same key, this one included, have reached the configured
  threshold (and are at least two); calls with other keys and the periodic clean-up, in any
  interleaving, never change that.
\<close>

theorem checkLoop_detects_exactly:
  assumes "ld_Enabled cfg" and "0 \<le> ld_WindowSeconds cfg" and "ld_WindowSeconds cfg \<le> 10 ^ 9"
    and "1 \<le> ld_ConsecutiveThreshold cfg"
    and "\<forall>(t, _)\<in>set (calls @ [(now, ak, h)]). t0 \<le> t \<and> t \<le> t0 + seconds (ld_WindowSeconds cfg)"
  shows "fst (fst (checkLoop sha now ak h cfg (loop_run sha cfg [] calls))) \<longleftrightarrow>
    int (length (filter (\<lambda>(_, ak', h'). loop_key sha ak' h' = loop_key sha ak h) calls)) + 1
      \<ge> max 2 (ld_ConsecutiveThreshold cfg)"
proof -
  let ?st = "loop_run sha cfg [] calls" and ?k = "loop_key sha ak h"
  have small: "small_window cfg" using assms(2,3) by (simp add: small_window_def)
  have now: "t0 \<le> now" "now \<le> t0 + seconds (ld_WindowSeconds cfg)" using assms(5) by auto
  have "tracks cfg t0 (same_key sha ?k calls) (gm_get ?st ?k)"
    using assms(5) by (intro loop_run_tracks [OF assms(1) small assms(4)]) auto
  with visible_tracks [OF small now loop_run_wf this] entry_step_tracks(2) [OF small assms(4) now]
  have "fst (fst (checkLoop sha now ak h cfg ?st)) \<longleftrightarrow>
      int (Suc (same_key sha ?k calls)) \<ge> max 2 (ld_ConsecutiveThreshold cfg)"
    by (simp add: checkLoop_state [OF assms(1)])
  then show ?thesis by (simp add: same_key_def add.commute)
qed

definition sample_loop_cfg :: LoopDetectionConfig where
  "sample_loop_cfg = \<lparr>ld_Enabled = True, ld_ConsecutiveThreshold = 3, ld_WindowSeconds = 60,
     ld_Action = '''', ld_EscalateAfter = 2, ld_EscalateAction = ''''\<rparr>"

theorem checkLoop_detects_exactly_witness:
  "fst (fst (checkLoop id 30 ''s'' ''h'' sample_loop_cfg
     (loop_run id sample_loop_cfg [] [(10, ''s'', ''h''), (15, ''t'', ''h''), (20, ''s'', ''h'')]))) = True"
proof -
  have "loop_key id ''t'' ''h'' \<noteq> loop_key id ''s'' ''h''"
    by (simp add: loop_key_def hex_encode_def hex_digit_def)
  with checkLoop_detects_exactly [of sample_loop_cfg "[(10, ''s'', ''h''), (15, ''t'', ''h''), (20, ''s'', ''h'')]" 30 "''s''" "''h''" 0 id]
  show ?thesis by (simp add: sample_loop_cfg_def time_simps)
qed

text \<open>
  C27: with \<open>escalate_after\<close> of two or more, which includes the default, no check ever escalates,
  however long the loop goes on: after each detection the count is set back to the threshold, so
  it never reaches threshold plus \<open>escalate_after\<close>, and no entry is ever marked as escaped.
\<close>

theorem checkLoop_never_escalates:
  assumes "2 \<le> ld_EscalateAfter cfg" and "1 \<le> ld_ConsecutiveThreshold cfg"
  shows "fst (snd (fst (checkLoop sha now ak h cfg (loop_run sha cfg [] calls)))) = False"
proof (cases "ld_Enabled cfg")
  case False
  then show ?thesis by (simp add: checkLoop_off)
next
  case True
  let ?oe = "gm_get (visible now cfg (loop_run sha cfg [] calls)) (loop_key sha ak h)"
  have "case ?oe of None \<Rightarrow> True | Some e \<Rightarrow> calm cfg e"
    using loop_run_calm [OF assms] visible_get(1) [OF loop_run_wf]
    by (cases ?oe) (simp_all, blast)
  with entry_step_calm [OF assms this] show ?thesis by (simp add: checkLoop_state [OF True])
qed

theorem checkLoop_never_escalates_witness:
  "GetLoopDetection sample_config None = \<lparr>ld_Enabled = True, ld_ConsecutiveThreshold = 3, ld_WindowSeconds = 60,
     ld_Action = ''inject_forcing_message'', ld_EscalateAfter = 2, ld_EscalateAction = ''refuse_429''\<rparr> \<and>
   fst (snd (fst (checkLoop id 50 ''s'' ''h'' (GetLoopDetection sample_config None)
     (loop_run id (GetLoopDetection sample_config None) [] (replicate 100 (10, ''s'', ''h'')))))) = False"
proof
  show cfg: "GetLoopDetection sample_config None = \<lparr>ld_Enabled = True, ld_ConsecutiveThreshold = 3, ld_WindowSeconds = 60,
     ld_Action = ''inject_forcing_message'', ld_EscalateAfter = 2, ld_EscalateAction = ''refuse_429''\<rparr>"
    by (simp add: GetLoopDetection_def sample_config_def Load_def Let_def validate_def validateBackends_def
        validateRoutes_def applyDefaults_def sample_defs default_backend_def system_prompt_ops_def)
  show "fst (snd (fst (checkLoop id 50 ''s'' ''h'' (GetLoopDetection sample_config None)
     (loop_run id (GetLoopDetection sample_config None) [] (replicate 100 (10, ''s'', ''h'')))))) = False"
    by (rule checkLoop_never_escalates) (simp_all add: cfg)
qed


definition padded_body :: obj where
  "padded_body = [(''messages'', JArr [JObj [(''role'', JStr ''system''), (''content'', JStr (replicate 8000 CHR ''x''))],
     JObj [(''role'', JStr ''user''), (''content'', JStr '''')]])]"


end
