(* ===== verification/Model_Router.thy ===== *)
theory Model_Router
  imports Proxy_Config
begin

text \<open>
  \<open>internal/router/router.go\<close>: resolution of a virtual model name to a backend and the three-layer
  merge of sampling parameters (defaults, then caller, then clamp).
\<close>

section \<open>Parameters\<close>

definition samplingKeys :: "string list" where
  "samplingKeys =
     [''temperature'', ''top_p'', ''top_k'', ''max_tokens'', ''max_completion_tokens'',
      ''presence_penalty'', ''frequency_penalty'', ''seed'', ''stop'', ''enable_thinking'',
      ''thinking_budget'']"

definition mergeParams :: "obj \<Rightarrow> obj \<Rightarrow> obj \<Rightarrow> obj" where
  "mergeParams defaults body clamp =
     (let out1 = gm_copy_into defaults [];
          out2 = fold (\<lambda>(k, v) out. if k \<in> set samplingKeys then gm_set k v out else out) body out1
      in gm_copy_into clamp out2)"

section \<open>Multimodal content\<close>

definition is_media_part :: "json \<Rightarrow> bool" where
  "is_media_part p =
     (case p of
        JObj part \<Rightarrow>
          (case get_str part ''type'' of
             None \<Rightarrow> False
           | Some t \<Rightarrow> t \<in> {''image_url'', ''image'', ''video_url'', ''video'', ''document'', ''file''})
      | _ \<Rightarrow> False)"

fun IsMultimodal :: "json list \<Rightarrow> bool" where
  "IsMultimodal [] = False"
| "IsMultimodal (JObj msg # ms) =
     (case get_arr msg ''content'' of
        None \<Rightarrow> IsMultimodal ms
      | Some parts \<Rightarrow> (if list_ex is_media_part parts then True else IsMultimodal ms))"
| "IsMultimodal (_ # ms) = IsMultimodal ms"

section \<open>Resolution\<close>

record Resolution =
  res_Backend :: Backend
  res_Route :: Route
  res_RealModel :: string
  res_Params :: obj
  res_SystemPrompt :: SystemPromptOp
  res_Inject :: obj
  res_Headers :: HeadersOp
  res_Group :: string

datatype route_error =
    RoutingCycle string
  | UnknownModel string
  | GroupNoBackends string string
  | UnknownBackend string string

definition make_resolution :: "string \<Rightarrow> obj \<Rightarrow> Route \<Rightarrow> Backend \<Rightarrow> string \<Rightarrow> Resolution" where
  "make_resolution modelName body route backend grp =
     \<lparr>res_Backend = backend, res_Route = route,
      res_RealModel = (if rt_RealModel route = '''' then modelName else rt_RealModel route),
      res_Params = mergeParams (rt_Defaults route) body (rt_Clamp route),
      res_SystemPrompt = rt_SystemPrompt route, res_Inject = rt_Inject route,
      res_Headers = rt_Headers route, res_Group = grp\<rparr>"

function resolve :: "Config \<Rightarrow> string \<Rightarrow> obj \<Rightarrow> nat \<Rightarrow> route_error + Resolution" where
  "resolve cfg modelName body depth =
     (if depth > 1 then Inl (RoutingCycle modelName)
      else case cfg_Route cfg modelName of
        None \<Rightarrow> Inl (UnknownModel modelName)
      | Some route \<Rightarrow>
          (case rt_AutoRoute route of
             Some ar \<Rightarrow>
               (let messages = or_zero (get_arr body ''messages'') [];
                    target = (if IsMultimodal messages then ar_Vision ar else ar_Text ar)
                in resolve cfg target body (depth + 1))
           | None \<Rightarrow>
               (if rt_BackendGroup route \<noteq> '''' then
                  (case GroupBackends cfg (rt_BackendGroup route) of
                     [] \<Rightarrow> Inl (GroupNoBackends modelName (rt_BackendGroup route))
                   | b # _ \<Rightarrow> Inr (make_resolution modelName body route b (rt_BackendGroup route)))
                else
                  (case cfg_Backend cfg (rt_Backend route) of
                     None \<Rightarrow> Inl (UnknownBackend modelName (rt_Backend route))
                   | Some b \<Rightarrow> Inr (make_resolution modelName body route b '''')))))"
  by pat_completeness auto
termination
  by (relation "measure (\<lambda>(cfg, m, body, depth). 2 - depth)") auto

definition Resolve :: "Config \<Rightarrow> string \<Rightarrow> obj \<Rightarrow> route_error + Resolution" where
  "Resolve cfg modelName body = resolve cfg modelName body 0"

declare resolve.simps [simp del]

section \<open>The merge\<close>

lemma copy_sampling:
  "fold (\<lambda>(k, v) out. if k \<in> set samplingKeys then gm_set k v out else out) body out =
     gm_copy_into (filter (\<lambda>kv. fst kv \<in> set samplingKeys) body) out"
  by (induction body arbitrary: out) (auto simp: gm_copy_into_def)

lemma gm_get_filter_keys:
  "gm_wf m \<Longrightarrow> gm_get (filter (\<lambda>kv. P (fst kv)) m) k = (if P k then gm_get m k else None)"
  by (induction m) (auto simp: map_of_eq_None_iff [THEN iffD2])

lemma mergeParams_get:
  assumes "gm_wf defaults" "gm_wf body" "gm_wf clamp"
  shows "gm_get (mergeParams defaults body clamp) k =
    (case gm_get clamp k of
       Some v \<Rightarrow> Some v
     | None \<Rightarrow>
         (case (if k \<in> set samplingKeys then gm_get body k else None) of
            Some v \<Rightarrow> Some v
          | None \<Rightarrow> gm_get defaults k))"
  using assms gm_get_filter_keys [OF assms(2), of "\<lambda>k. k \<in> set samplingKeys" k]
  by (auto simp: mergeParams_def Let_def copy_sampling gomap_simps gm_wf_filter map_add_def
      split: option.splits)

lemma gm_wf_mergeParams: "gm_wf (mergeParams d b c)"
  by (simp add: mergeParams_def Let_def copy_sampling gm_wf_copy_into)

section \<open>Resolution of a loaded configuration\<close>

lemma IsMultimodal_iff:
  "IsMultimodal ms \<longleftrightarrow>
     (\<exists>msg parts p. JObj msg \<in> set ms \<and> get_arr msg ''content'' = Some parts \<and>
        p \<in> set parts \<and> is_media_part p)"
proof (induction ms rule: IsMultimodal.induct)
  case 1
  then show ?case by simp
next
  case (2 msg ms)
  then show ?case
    by (cases "get_arr msg ''content''") (auto simp: list_ex_iff)
qed auto

lemma resolve_direct:
  assumes "d \<le> 1" and "cfg_Route c m = Some r" and "rt_AutoRoute r = None"
  shows "resolve c m body d =
    (if rt_BackendGroup r \<noteq> '''' then
       (case GroupBackends c (rt_BackendGroup r) of
          [] \<Rightarrow> Inl (GroupNoBackends m (rt_BackendGroup r))
        | b # _ \<Rightarrow> Inr (make_resolution m body r b (rt_BackendGroup r)))
     else
       (case cfg_Backend c (rt_Backend r) of
          None \<Rightarrow> Inl (UnknownBackend m (rt_Backend r))
        | Some b \<Rightarrow> Inr (make_resolution m body r b '''')))"
  using assms by (simp add: resolve.simps)

lemma resolve_auto:
  assumes "cfg_Route c m = Some r" and "rt_AutoRoute r = Some ar"
  shows "resolve c m body 0 =
    resolve c (if IsMultimodal (or_zero (get_arr body ''messages'') []) then ar_Vision ar else ar_Text ar)
      body 1"
  using assms by (subst resolve.simps) (simp add: Let_def)

lemma resolve_auto_deep:
  assumes "cfg_Route c m = Some r" and "rt_AutoRoute r = Some ar"
  shows "\<exists>m'. resolve c m body 1 = Inl (RoutingCycle m')"
  using assms by (subst resolve.simps, subst resolve.simps) (auto simp: Let_def)

text \<open>A successful resolution is the route of the name itself or of one \<open>auto_route\<close> target.\<close>

lemma resolve_InrE:
  assumes "resolve c m body d = Inr res"
  obtains m' where "cfg_Route c m' = Some (res_Route res)" and "rt_AutoRoute (res_Route res) = None"
    and "res = make_resolution m' body (res_Route res) (res_Backend res) (rt_BackendGroup (res_Route res))"
    and "rt_BackendGroup (res_Route res) = '''' \<Longrightarrow> cfg_Backend c (rt_Backend (res_Route res)) = Some (res_Backend res)"
    and "rt_BackendGroup (res_Route res) \<noteq> '''' \<Longrightarrow> res_Backend res \<in> set (GroupBackends c (rt_BackendGroup (res_Route res)))"
    and "m' = m \<or> (\<exists>r ar. cfg_Route c m = Some r \<and> rt_AutoRoute r = Some ar \<and>
      m' = (if IsMultimodal (or_zero (get_arr body ''messages'') []) then ar_Vision ar else ar_Text ar))"
proof -
  note found = that
  have direct: thesis
    if d: "d' \<le> 1" and r: "cfg_Route c m' = Some r" "rt_AutoRoute r = None"
      and eq: "resolve c m' body d' = Inr res"
      and m': "m' = m \<or> (\<exists>r ar. cfg_Route c m = Some r \<and> rt_AutoRoute r = Some ar \<and>
        m' = (if IsMultimodal (or_zero (get_arr body ''messages'') []) then ar_Vision ar else ar_Text ar))"
    for d' m' r
    using resolve_direct [OF d r, of body] eq m' r
    by (intro found [of m']) (auto simp: make_resolution_def split: if_splits list.splits option.splits)
  have "d \<le> 1" using assms by (auto simp: resolve.simps [of c m body d] split: if_splits)
  from assms obtain r where r: "cfg_Route c m = Some r"
    by (auto simp: resolve.simps [of c m body d] split: if_splits option.splits)
  show thesis
  proof (cases "rt_AutoRoute r")
    case None
    show ?thesis using direct [OF \<open>d \<le> 1\<close> r None assms] by simp
  next
    case (Some ar)
    let ?t = "if IsMultimodal (or_zero (get_arr body ''messages'') []) then ar_Vision ar else ar_Text ar"
    have "d = 0" using \<open>d \<le> 1\<close> resolve_auto_deep [OF r Some, of body] assms
      by (cases "d = 0") (auto simp: le_Suc_eq)
    with assms r Some have eq: "resolve c ?t body 1 = Inr res"
      by (simp add: resolve_auto)
    then obtain r' where r': "cfg_Route c ?t = Some r'"
      by (subst (asm) resolve.simps) (auto split: option.splits)
    show ?thesis
    proof (cases "rt_AutoRoute r'")
      case None
      show ?thesis using direct [OF _ r' None eq] r Some by simp
    next
      case (Some ar')
      from resolve_auto_deep [OF r' this, of body] eq show ?thesis by auto
    qed
  qed
qed

section \<open>Properties of the router\<close>

text \<open>
  The three-layer merge. A clamped parameter always has the clamp's value; otherwise a sampling
  parameter of the caller wins over the default; parameters that are neither clamped nor sampling
  parameters cannot be set by the caller.
\<close>

theorem mergeParams_precedence:
  assumes "gm_wf defaults" and "gm_wf body" and "gm_wf clamp"
  shows "gm_get (mergeParams defaults body clamp) k =
    (if gm_get clamp k \<noteq> None then gm_get clamp k
     else if k \<in> set samplingKeys \<and> gm_get body k \<noteq> None then gm_get body k
     else gm_get defaults k)"
  using mergeParams_get [OF assms, of k] by (auto split: option.split)

theorem mergeParams_precedence_witness:
  "gm_get (mergeParams [(''temperature'', JNum 1), (''top_p'', JNum 1)]
     [(''temperature'', JNum 2), (''top_p'', JNum 2), (''model'', JStr ''m'')]
     [(''top_p'', JNum 3)]) ''temperature'' = Some (JNum 2) \<and>
   gm_get (mergeParams [(''temperature'', JNum 1), (''top_p'', JNum 1)]
     [(''temperature'', JNum 2), (''top_p'', JNum 2), (''model'', JStr ''m'')]
     [(''top_p'', JNum 3)]) ''top_p'' = Some (JNum 3)"
  using mergeParams_precedence [of "[(''temperature'', JNum 1), (''top_p'', JNum 1)]"
      "[(''temperature'', JNum 2), (''top_p'', JNum 2), (''model'', JStr ''m'')]" "[(''top_p'', JNum 3)]"]
  by (simp add: samplingKeys_def)

lemma Load_route_backend:
  assumes load: "Load u gs raw = Inr c" and r: "cfg_Route c m = Some r"
    and "rt_AutoRoute r = None" and "rt_BackendGroup r = ''''"
  shows "\<exists>b. cfg_Backend c (rt_Backend r) = Some b \<and> b \<in> set (cfg_Backends c) \<and> be_ID b = rt_Backend r"
proof -
  from load r have "r \<in> set (cfg_Routes c)" by (simp add: Load_route)
  moreover from load have "config_ok c" by (rule Load_InrD)
  ultimately have "route_ok (be_ID ` set (cfg_Backends c)) r"
    by (simp add: config_ok_def list_all_iff)
  with assms obtain b where "b \<in> set (cfg_Backends c)" "be_ID b = rt_Backend r"
    by (auto simp: route_ok_def)
  with Load_backend [OF load, of b] show ?thesis by auto
qed

lemma resolve_direct_loaded:
  assumes load: "Load u gs raw = Inr c" and "d \<le> 1" and r: "cfg_Route c m = Some r"
    and "rt_AutoRoute r = None"
  shows "resolve c m body d \<noteq> Inl (UnknownBackend m' b)"
    and "rt_BackendGroup r = '''' \<Longrightarrow> \<exists>res. resolve c m body d = Inr res"
  using Load_route_backend [OF load r] assms
  by (auto simp: resolve_direct split: list.split)

lemma resolve_loaded:
  assumes load: "Load u gs raw = Inr c"
  shows "resolve c m body d \<noteq> Inl (UnknownBackend m' b)"
proof (induction "2 - d" arbitrary: m d)
  case 0
  then show ?case by (simp add: resolve.simps)
next
  case (Suc n)
  then have d: "d \<le> 1" by simp
  show ?case
  proof (cases "cfg_Route c m")
    case None
    then show ?thesis using d by (simp add: resolve.simps)
  next
    case (Some r)
    show ?thesis
    proof (cases "rt_AutoRoute r")
      case None
      with load d Some show ?thesis by (rule resolve_direct_loaded)
    next
      case (Some ar)
      have "n = 2 - (d + 1)" using Suc.hyps(2) by simp
      from Suc.hyps(1) [OF this] show ?thesis
        using \<open>cfg_Route c m = Some r\<close> Some d
        by (subst resolve.simps) (simp add: Let_def)
    qed
  qed
qed

text \<open>
  C33: resolution on a loaded configuration. It always terminates; it never fails because a route
  names an unknown backend; a name whose route has a backend of its own always resolves; and what
  it returns is a route of the configuration that is not itself an \<open>auto_route\<close>, with a backend of
  the configuration: the one the route names, or a member of the group the route names.
\<close>

theorem Resolve_loaded:
  assumes load: "Load url_norm groups raw = Inr c"
  shows "(\<forall>m' b. Resolve c m body \<noteq> Inl (UnknownBackend m' b)) \<and>
    (\<forall>r. cfg_Route c m = Some r \<and> rt_AutoRoute r = None \<and> rt_BackendGroup r = '''' \<longrightarrow>
       (\<exists>res. Resolve c m body = Inr res)) \<and>
    (\<forall>res. Resolve c m body = Inr res \<longrightarrow>
       res_Route res \<in> set (cfg_Routes c) \<and> rt_AutoRoute (res_Route res) = None \<and>
       res_Backend res \<in> set (cfg_Backends c) \<and> res_Group res = rt_BackendGroup (res_Route res) \<and>
       (if res_Group res = '''' then be_ID (res_Backend res) = rt_Backend (res_Route res)
        else be_Group (res_Backend res) = res_Group res))"
proof (intro conjI allI impI)
  show "Resolve c m body \<noteq> Inl (UnknownBackend m' b)" for m' b
    unfolding Resolve_def by (rule resolve_loaded [OF load])
  show "\<exists>res. Resolve c m body = Inr res"
    if "cfg_Route c m = Some r \<and> rt_AutoRoute r = None \<and> rt_BackendGroup r = ''''" for r
    using that resolve_direct_loaded(2) [OF load, of 0 m r body] by (simp add: Resolve_def)
next
  fix res assume "Resolve c m body = Inr res"
  then have "resolve c m body 0 = Inr res" by (simp add: Resolve_def)
  then obtain m' where r: "cfg_Route c m' = Some (res_Route res)" and auto: "rt_AutoRoute (res_Route res) = None"
    and res: "res = make_resolution m' body (res_Route res) (res_Backend res) (rt_BackendGroup (res_Route res))"
    and one: "rt_BackendGroup (res_Route res) = '''' \<Longrightarrow> cfg_Backend c (rt_Backend (res_Route res)) = Some (res_Backend res)"
    and grp: "rt_BackendGroup (res_Route res) \<noteq> '''' \<Longrightarrow> res_Backend res \<in> set (GroupBackends c (rt_BackendGroup (res_Route res)))"
    by (rule resolve_InrE) blast
  show "res_Route res \<in> set (cfg_Routes c)" using load r by (simp add: Load_route)
  show "rt_AutoRoute (res_Route res) = None" by (rule auto)
  show g: "res_Group res = rt_BackendGroup (res_Route res)"
    by (subst res) (simp add: make_resolution_def)
  show "res_Backend res \<in> set (cfg_Backends c)"
    using one grp Load_backend_mem [OF load] by (cases "rt_BackendGroup (res_Route res) = ''''") (auto simp: GroupBackends_def)
  show "if res_Group res = '''' then be_ID (res_Backend res) = rt_Backend (res_Route res)
        else be_Group (res_Backend res) = res_Group res"
    using g one grp Load_backend_mem [OF load] by (auto simp: GroupBackends_def)
qed

theorem Resolve_loaded_witness:
  "(\<exists>res. Resolve sample_config ''direct'' [] = Inr res) \<and> cfg_Route sample_config ''direct'' \<noteq> None"
proof -
  have "sample_route ''direct'' ''cl'' '''' None \<in> set (cfg_Routes sample_config)"
    using sample_load by (rule Load_InrD) (simp add: sample_raw_def)
  then have "cfg_Route sample_config ''direct'' = Some (sample_route ''direct'' ''cl'' '''' None)"
    by (simp add: Load_route [OF sample_load]) (simp add: sample_route_def)
  with Resolve_loaded [OF sample_load, of "''direct''" "[]"] show ?thesis
    by (simp add: sample_route_def)
qed

text \<open>
  An \<open>auto_route\<close> name resolves as its vision target when some message has a content part that
  is an image, a video, a document or a file, and as its text target otherwise; a target that is
  itself an \<open>auto_route\<close> is refused, so at most one hop is taken.
\<close>

theorem Resolve_auto_route:
  assumes "cfg_Route c m = Some r" and "rt_AutoRoute r = Some ar"
    and "messages = (case get_arr body ''messages'' of None \<Rightarrow> [] | Some ms \<Rightarrow> ms)"
    and "target = (if \<exists>msg parts p. JObj msg \<in> set messages \<and> get_arr msg ''content'' = Some parts \<and>
                        p \<in> set parts \<and> is_media_part p then ar_Vision ar else ar_Text ar)"
  shows "(case cfg_Route c target of
       None \<Rightarrow> Resolve c m body = Inl (UnknownModel target)
     | Some r' \<Rightarrow>
         if rt_AutoRoute r' = None then Resolve c m body = Resolve c target body
         else \<exists>m'. Resolve c m body = Inl (RoutingCycle m'))"
proof -
  have "or_zero (get_arr body ''messages'') [] = messages"
    using assms(3) by (simp split: option.split)
  then have "target = (if IsMultimodal (or_zero (get_arr body ''messages'') []) then ar_Vision ar else ar_Text ar)"
    using assms(4) by (simp add: IsMultimodal_iff)
  then have step: "Resolve c m body = resolve c target body 1"
    using resolve_auto [OF assms(1,2), of body] by (simp add: Resolve_def)
  show ?thesis
  proof (cases "cfg_Route c target")
    case None
    then show ?thesis by (simp add: step resolve.simps)
  next
    case (Some r')
    then show ?thesis
      using resolve_auto_deep [OF Some, of _ body] resolve_direct [of 0 c target r' body]
        resolve_direct [of 1 c target r' body]
      by (cases "rt_AutoRoute r'") (simp_all add: step, simp add: Resolve_def)
  qed
qed

theorem Resolve_auto_route_witness:
  "Resolve sample_config ''auto'' [(''messages'', JArr [JObj [(''content'', JArr [JObj [(''type'', JStr ''image'')]])]])] =
   Resolve sample_config ''pool'' [(''messages'', JArr [JObj [(''content'', JArr [JObj [(''type'', JStr ''image'')]])]])]"
proof -
  let ?ar = "\<lparr>ar_Text = ''direct'', ar_Vision = ''pool''\<rparr>"
  have routes: "cfg_Routes sample_config = cfg_Routes sample_raw"
    using sample_load by (rule Load_InrD)
  have auto: "cfg_Route sample_config ''auto'' = Some (sample_route ''auto'' '''' '''' (Some ?ar))"
    and pool: "cfg_Route sample_config ''pool'' = Some (sample_route ''pool'' '''' ''gpu'' None)"
    by (simp_all add: Load_route [OF sample_load] routes sample_raw_def) (simp_all add: sample_route_def)
  show ?thesis
    using Resolve_auto_route [OF auto, of ?ar
        "[JObj [(''content'', JArr [JObj [(''type'', JStr ''image'')]])]]"
        "[(''messages'', JArr [JObj [(''content'', JArr [JObj [(''type'', JStr ''image'')]])]])]" "''pool''"] pool
    by (simp add: sample_route_def is_media_part_def)
qed

end
