(* ===== verification/Body_Rewrite.thy ===== *)
theory Body_Rewrite
  imports Model_Router Http_Header
begin

text \<open>
  The rewriting of a request body in \<open>internal/proxy/server.go\<close>: the merged sampling parameters,
  Ollama's nested options, the per-route system prompt and injected settings, the translation of
  \<open>enable_thinking\<close> for each kind of backend, and the check for empty messages. A body is a
  decoded JSON object; every function here mutates it in place in the source and returns it here.

  The maps of a route's \<open>inject\<close> block are values here. In the source they are shared: see the
  notes of the root theory.
\<close>

section \<open>Ollama options and sampling parameters\<close>

text \<open>
  \<open>ollamaKeys\<close> is nil except for the Ollama protocol; the set of keys is a list without duplicates.
\<close>

definition flatten_options :: "obj \<Rightarrow> string list \<times> obj" where
  "flatten_options body =
     (case get_obj body ''options'' of
        None \<Rightarrow> ([], body)
      | Some opts \<Rightarrow> (fold List.insert (gm_keys opts) [], gm_del ''options'' (gm_copy_into opts body)))"

definition apply_params :: "obj \<Rightarrow> string list option \<Rightarrow> obj \<Rightarrow> string list option \<times> obj" where
  "apply_params params keys body =
     (map_option (fold List.insert (gm_keys params)) keys, gm_copy_into params body)"

definition dedup_max_tokens :: "obj \<Rightarrow> obj" where
  "dedup_max_tokens body =
     (if gm_get body ''max_tokens'' \<noteq> None then gm_del ''max_completion_tokens'' body else body)"

definition apply_inject :: "obj \<Rightarrow> string list option \<Rightarrow> obj \<Rightarrow> string list option \<times> obj" where
  "apply_inject injected keys body =
     (if injected = [] then (keys, body)
      else
        let body' = deepMergeInto body injected in
        (map_option (fold List.insert (filter (\<lambda>k. gm_get body' k \<noteq> None) (gm_keys injected))) keys, body'))"

definition renest_options :: "string list \<Rightarrow> obj \<Rightarrow> obj" where
  "renest_options keys body =
     (if keys = [] then body
      else
        let (options, body') =
          fold (\<lambda>k (options, b).
                  case gm_get b k of
                    None \<Rightarrow> (options, b)
                  | Some v \<Rightarrow> (gm_set k v options, gm_del k b)) keys ([], body)
        in if options \<noteq> [] then gm_set ''options'' (JObj options) body' else body')"

section \<open>System prompt\<close>

definition mutateString :: "string \<Rightarrow> SystemPromptOp \<Rightarrow> string" where
  "mutateString s op =
     (if sp_Replace op \<noteq> '''' then sp_Replace op
      else if sp_Prepend op \<noteq> '''' then sp_Prepend op @ s
      else if sp_Append op \<noteq> '''' then s @ sp_Append op
      else s)"

definition text_block :: "string \<Rightarrow> json" where
  "text_block t = JObj [(''type'', JStr ''text''), (''text'', JStr t)]"

definition applySystemPromptAnthropic :: "SystemPromptOp \<Rightarrow> obj \<Rightarrow> obj" where
  "applySystemPromptAnthropic op body =
     (case gm_get body ''system'' of
        Some (JArr v) \<Rightarrow>
          (if sp_Replace op \<noteq> '''' then gm_set ''system'' (JStr (sp_Replace op)) body
           else if sp_Prepend op \<noteq> ''''
           then gm_set ''system'' (JArr (text_block (sp_Prepend op) # v)) body
           else if sp_Append op \<noteq> ''''
           then gm_set ''system'' (JArr (v @ [text_block (sp_Append op)])) body
           else body)
      | v \<Rightarrow> gm_set ''system'' (JStr (mutateString (or_zero (as_str v) '''') op)) body)"

definition has_system_role :: "json \<Rightarrow> bool" where
  "has_system_role m =
     (case m of JObj msg \<Rightarrow> or_zero (get_str msg ''role'') '''' = ''system'' | _ \<Rightarrow> False)"

text \<open>The index of the first system message.\<close>

fun sys_index :: "json list \<Rightarrow> nat option" where
  "sys_index [] = None"
| "sys_index (m # ms) = (if has_system_role m then Some 0 else map_option Suc (sys_index ms))"

definition applySystemPromptMessages :: "SystemPromptOp \<Rightarrow> obj \<Rightarrow> obj" where
  "applySystemPromptMessages op body =
     (let messages = or_zero (get_arr body ''messages'') [] in
      case sys_index messages of
        None \<Rightarrow>
          gm_set ''messages''
            (JArr (JObj [(''role'', JStr ''system''), (''content'', JStr (mutateString '''' op))] # messages))
            body
      | Some i \<Rightarrow>
          let msg = or_zero (as_obj (Some (messages ! i))) [] in
          case get_str msg ''content'' of
            None \<Rightarrow> body
          | Some s \<Rightarrow>
              gm_set ''messages''
                (JArr (messages[i := JObj (gm_set ''content'' (JStr (mutateString s op)) msg)])) body)"

definition applySystemPrompt :: "string \<Rightarrow> SystemPromptOp \<Rightarrow> obj \<Rightarrow> obj" where
  "applySystemPrompt protocol op body =
     (if SystemPromptOp_IsZero op then body
      else if protocol = ''anthropic'' then applySystemPromptAnthropic op body
      else if get_arr body ''messages'' = None then body
      else applySystemPromptMessages op body)"

section \<open>Translation of parameters\<close>

definition include_usage :: "obj \<Rightarrow> obj" where
  "include_usage body =
     gm_set ''stream_options''
       (JObj (gm_set ''include_usage'' (JBool True) (or_zero (get_obj body ''stream_options'') []))) body"

definition thinking_kwargs :: "json \<Rightarrow> obj \<Rightarrow> obj" where
  "thinking_kwargs et body =
     gm_set ''chat_template_kwargs''
       (JObj (gm_set ''enable_thinking'' et (or_zero (get_obj body ''chat_template_kwargs'') []))) body"

text \<open>
  The budget of an Anthropic request: \<open>thinking_budget\<close>, else \<open>max_tokens\<close>, else 8000. Only
  \<open>float64\<close> values count, that is numbers of the JSON body; integers of the YAML configuration are
  not recognised.
\<close>

definition thinking_budget :: "(real \<Rightarrow> int) \<Rightarrow> real \<Rightarrow> obj \<Rightarrow> int" where
  "thinking_budget big thinkingBudget body =
     (let budget = int64_of big thinkingBudget;
          mt = or_zero (get_num body ''max_tokens'') 0;
          budget' = (if budget = 0 \<and> mt > 0 then int64_of big mt else budget)
      in if budget' = 0 then 8000 else budget')"

definition thinking_anthropic :: "(real \<Rightarrow> int) \<Rightarrow> real \<Rightarrow> json \<Rightarrow> obj \<Rightarrow> obj" where
  "thinking_anthropic big thinkingBudget et body =
     (if or_zero (as_bool (Some et)) False
      then gm_set ''temperature'' (JNum 1)
             (gm_set ''thinking''
               (JObj [(''type'', JStr ''enabled''),
                      (''budget_tokens'', JInt (thinking_budget big thinkingBudget body))]) body)
      else body)"

definition translateParams :: "(real \<Rightarrow> int) \<Rightarrow> Backend \<Rightarrow> bool \<Rightarrow> obj \<Rightarrow> obj" where
  "translateParams big backend isStreaming body0 =
     (let body1 = (if isStreaming \<and> be_Type backend = ''openai'' then include_usage body0 else body0);
          enableThinking = gm_get body1 ''enable_thinking'';
          thinkingBudget = or_zero (get_num body1 ''thinking_budget'') 0;
          body2 = gm_del ''thinking_budget'' (gm_del ''enable_thinking'' body1)
      in case enableThinking of
           None \<Rightarrow> body2
         | Some et \<Rightarrow>
             if be_Type backend = ''openai'' then thinking_kwargs et body2
             else if be_Type backend = ''anthropic''
             then thinking_anthropic big thinkingBudget et body2
             else body2)"

section \<open>Empty messages\<close>

definition nonempty_text_part :: "json \<Rightarrow> bool" where
  "nonempty_text_part part =
     (case part of
        JObj p \<Rightarrow> gm_get p ''type'' = Some (JStr ''text'') \<and>
          (case get_str p ''content'' of Some txt \<Rightarrow> TrimSpace txt \<noteq> '''' | None \<Rightarrow> False)
      | _ \<Rightarrow> False)"

definition isEmptyContent :: "json option \<Rightarrow> bool" where
  "isEmptyContent content =
     (case content of
        None \<Rightarrow> True
      | Some JNull \<Rightarrow> True
      | Some (JStr v) \<Rightarrow> TrimSpace v = ''''
      | Some (JArr parts) \<Rightarrow> \<not> list_ex nonempty_text_part parts
      | Some _ \<Rightarrow> False)"

text \<open>\<open>True\<close> is the error \<open>ErrEmptyContent\<close>.\<close>

definition checkEmptyMessages :: "Config \<Rightarrow> Route option \<Rightarrow> Backend option \<Rightarrow> obj \<Rightarrow> bool" where
  "checkEmptyMessages cfg route backend body =
     (if \<not> ShouldDropEmptyContent cfg route backend then False
      else case get_arr body ''messages'' of
        None \<Rightarrow> False
      | Some msgs \<Rightarrow>
          list_ex (\<lambda>raw. case raw of JObj m \<Rightarrow> isEmptyContent (gm_get m ''content'') | _ \<Rightarrow> False) msgs)"

section \<open>Protocol and size\<close>

definition HasSuffix :: "string \<Rightarrow> string \<Rightarrow> bool" where
  "HasSuffix s p \<longleftrightarrow> suffix p s"

definition detectProtocol :: "string \<Rightarrow> header \<Rightarrow> string" where
  "detectProtocol path h =
     (if HasSuffix path ''/messages'' \<or> header_Get h ''anthropic-version'' \<noteq> '''' then ''anthropic''
      else ''openai'')"

definition part_chars :: "json \<Rightarrow> int" where
  "part_chars p =
     (case p of
        JObj part \<Rightarrow>
          (if gm_get part ''type'' = Some (JStr ''text'')
           then int (length (or_zero (get_str part ''text'') '''')) else 0)
      | _ \<Rightarrow> 0)"

definition message_chars :: "json \<Rightarrow> int" where
  "message_chars m =
     (case m of
        JObj msg \<Rightarrow>
          (case gm_get msg ''content'' of
             Some (JStr content) \<Rightarrow> int (length content)
           | Some (JArr content) \<Rightarrow> sum_list (map part_chars content)
           | _ \<Rightarrow> 0)
      | _ \<Rightarrow> 0)"

definition estimateTokens :: "obj \<Rightarrow> int" where
  "estimateTokens body =
     sum_list (map message_chars (or_zero (get_arr body ''messages'') [])) div 4"

section \<open>The options round trip\<close>

lemma set_fold_insert [simp]: "set (fold List.insert ks acc) = set ks \<union> set acc"
  by (induction ks arbitrary: acc) auto

lemma distinct_fold_insert [simp]: "distinct acc \<Longrightarrow> distinct (fold List.insert ks acc)"
  by (induction ks arbitrary: acc) auto

lemma renest_fold:
  assumes "distinct keys"
  shows "gm_get (fst (fold (\<lambda>k (options, b).
              case gm_get b k of None \<Rightarrow> (options, b) | Some v \<Rightarrow> (gm_set k v options, gm_del k b))
            keys (options, b))) x =
      (if x \<in> set keys \<and> gm_get b x \<noteq> None then gm_get b x else gm_get options x)"
    and "gm_get (snd (fold (\<lambda>k (options, b).
              case gm_get b k of None \<Rightarrow> (options, b) | Some v \<Rightarrow> (gm_set k v options, gm_del k b))
            keys (options, b))) x = (if x \<in> set keys then None else gm_get b x)"
  using assms
  by (induction keys arbitrary: options b) (auto simp: gomap_simps split: option.split)

text \<open>What the body and its options hold after re-nesting.\<close>

lemma renest_options_get:
  assumes "distinct keys" and "k0 \<in> set keys" and "gm_get body k0 \<noteq> None"
  shows "\<exists>options. get_obj (renest_options keys body) ''options'' = Some options \<and>
      (\<forall>x. gm_get options x = (if x \<in> set keys then gm_get body x else None)) \<and>
      (\<forall>x. x \<noteq> ''options'' \<longrightarrow>
         gm_get (renest_options keys body) x = (if x \<in> set keys then None else gm_get body x))"
proof -
  let ?r = "fold (\<lambda>k (options, b).
      case gm_get b k of None \<Rightarrow> (options, b) | Some v \<Rightarrow> (gm_set k v options, gm_del k b)) keys ([], body)"
  obtain options b where r: "?r = (options, b)" by fastforce
  have o: "gm_get options x = (if x \<in> set keys then gm_get body x else None)" for x
    using renest_fold(1) [OF assms(1), of "[]" body x] r by auto
  have b: "gm_get b x = (if x \<in> set keys then None else gm_get body x)" for x
    using renest_fold(2) [OF assms(1), of "[]" body x] r by simp
  have "options \<noteq> []" using o [of k0] assms(2,3) by auto
  moreover have "keys \<noteq> []" using assms(2) by auto
  ultimately have "renest_options keys body = gm_set ''options'' (JObj options) b"
    by (simp add: renest_options_def r)
  with o b show ?thesis by (simp add: gomap_simps)
qed

section \<open>System messages\<close>

lemma sys_index_Some:
  "sys_index ms = Some i \<longleftrightarrow>
     i < length ms \<and> has_system_role (ms ! i) \<and> (\<forall>j < i. \<not> has_system_role (ms ! j))"
proof (induction ms arbitrary: i)
  case (Cons m ms)
  then show ?case by (cases i) (auto simp: less_Suc_eq_0_disj)
qed simp

lemma sys_index_None: "sys_index ms = None \<longleftrightarrow> (\<forall>m \<in> set ms. \<not> has_system_role m)"
  by (induction ms) auto

lemma sys_index_split:
  assumes "sys_index ms = Some i"
  obtains pre msg post where "ms = pre @ JObj msg # post" "length pre = i"
    "has_system_role (JObj msg)" "\<forall>m \<in> set pre. \<not> has_system_role m"
proof -
  have i: "i < length ms" "has_system_role (ms ! i)" "\<forall>j < i. \<not> has_system_role (ms ! j)"
    using assms by (auto simp: sys_index_Some)
  then obtain msg where msg: "ms ! i = JObj msg"
    by (cases "ms ! i") (auto simp: has_system_role_def)
  have "ms = take i ms @ JObj msg # drop (Suc i) ms"
    using i(1) msg by (metis id_take_nth_drop)
  moreover have "\<forall>m \<in> set (take i ms). \<not> has_system_role m"
    using i(1,3) by (auto simp: in_set_conv_nth)
  ultimately show thesis
    using that [of "take i ms" msg "drop (Suc i) ms"] i msg by simp
qed

lemma find_system_split:
  "\<forall>m \<in> set pre. \<not> has_system_role m \<Longrightarrow> has_system_role m' \<Longrightarrow>
     find has_system_role (pre @ m' # post) = Some m'"
  by (induction pre) auto

text \<open>The content of the first system message, or the empty string when there is none.\<close>

definition system_content :: "json list \<Rightarrow> json option" where
  "system_content ms =
     (case find has_system_role ms of
        None \<Rightarrow> Some (JStr '''')
      | Some m \<Rightarrow> gm_get (or_zero (as_obj (Some m)) []) ''content'')"

lemma applySystemPromptMessages_None:
  assumes "get_arr body ''messages'' = Some ms" and "sys_index ms = None"
  shows "applySystemPromptMessages op body = gm_set ''messages''
    (JArr (JObj [(''role'', JStr ''system''), (''content'', JStr (mutateString '''' op))] # ms)) body"
  using assms by (simp add: applySystemPromptMessages_def)

lemma applySystemPromptMessages_Some:
  assumes "get_arr body ''messages'' = Some (pre @ JObj msg # post)"
    and "has_system_role (JObj msg)" and "\<forall>m \<in> set pre. \<not> has_system_role m"
  shows "applySystemPromptMessages op body =
    (case get_str msg ''content'' of
       None \<Rightarrow> body
     | Some s \<Rightarrow> gm_set ''messages''
         (JArr (pre @ JObj (gm_set ''content'' (JStr (mutateString s op)) msg) # post)) body)"
proof -
  have "sys_index (pre @ JObj msg # post) = Some (length pre)"
    using assms(2,3) by (auto simp: sys_index_Some nth_append)
  with assms(1) show ?thesis
    by (simp add: applySystemPromptMessages_def list_update_append split: option.split)
qed

lemma system_role_content [simp]:
  "has_system_role (JObj (gm_set ''content'' v msg)) = has_system_role (JObj msg)"
  by (simp add: has_system_role_def gomap_simps)

section \<open>Properties\<close>





lemma include_usage_get:
  "gm_get (include_usage body) k =
     (if k = ''stream_options''
      then Some (JObj (gm_set ''include_usage'' (JBool True) (or_zero (get_obj body ''stream_options'') [])))
      else gm_get body k)"
  by (simp add: include_usage_def gomap_simps)

lemma thinking_budget_nonzero: "thinking_budget big b body \<noteq> 0"
  by (simp add: thinking_budget_def Let_def)

lemma thinking_kwargs_get:
  "gm_get (thinking_kwargs et body) k =
     (if k = ''chat_template_kwargs''
      then Some (JObj (gm_set ''enable_thinking'' et (or_zero (get_obj body ''chat_template_kwargs'') [])))
      else gm_get body k)"
  by (simp add: thinking_kwargs_def gomap_simps)

lemma thinking_anthropic_get:
  "gm_get (thinking_anthropic big b et body) k =
     (if or_zero (as_bool (Some et)) False \<and> k = ''temperature'' then Some (JNum 1)
      else if or_zero (as_bool (Some et)) False \<and> k = ''thinking''
      then Some (JObj [(''type'', JStr ''enabled''), (''budget_tokens'', JInt (thinking_budget big b body))])
      else gm_get body k)"
  by (simp add: thinking_anthropic_def gomap_simps)

text \<open>The body after the first half of \<open>translateParams\<close>.\<close>

definition untranslated :: "Backend \<Rightarrow> bool \<Rightarrow> obj \<Rightarrow> obj" where
  "untranslated backend streaming body =
     gm_del ''thinking_budget'' (gm_del ''enable_thinking''
       (if streaming \<and> be_Type backend = ''openai'' then include_usage body else body))"

lemma untranslated_get:
  "gm_get (untranslated backend streaming body) k =
     (if k = ''enable_thinking'' \<or> k = ''thinking_budget'' then None
      else if k = ''stream_options'' \<and> streaming \<and> be_Type backend = ''openai''
      then Some (JObj (gm_set ''include_usage'' (JBool True) (or_zero (get_obj body ''stream_options'') [])))
      else gm_get body k)"
  by (simp add: untranslated_def gomap_simps include_usage_get)

lemma translateParams_cases:
  "\<exists>b. translateParams big backend streaming body =
     (case gm_get body ''enable_thinking'' of
        None \<Rightarrow> untranslated backend streaming body
      | Some et \<Rightarrow>
          if be_Type backend = ''openai'' then thinking_kwargs et (untranslated backend streaming body)
          else if be_Type backend = ''anthropic''
          then thinking_anthropic big b et (untranslated backend streaming body)
          else untranslated backend streaming body)"
  by (rule exI [of _ "or_zero (get_num (if streaming \<and> be_Type backend = ''openai''
      then include_usage body else body) ''thinking_budget'') 0"])
    (auto simp: translateParams_def untranslated_def Let_def include_usage_get split: option.split)


definition plain_backend :: "string \<Rightarrow> Backend" where
  "plain_backend ty =
     \<lparr>be_ID = ''b'', be_Type = ty, be_BaseURL = ''http://b'', be_APIKey = '''', be_AuthType = '''',
      be_Group = '''', be_TimeoutSeconds = 0, be_MaxConcurrency = 0, be_SkipProbe = False,
      be_Default = False, be_Ports = [],
      be_Headers = \<lparr>hdr_Add = [], hdr_Remove = [], hdr_Rename = []\<rparr>, be_DropEmptyContent = None\<rparr>"


text \<open>
  The guard against empty messages refuses every multimodal message in the OpenAI format. With
  the guard on, a body is refused exactly when some message has empty content; and content made of
  parts that carry their text under \<open>text\<close>, and no string under \<open>content\<close>, counts as empty
  whatever the text says.
\<close>

theorem checkEmptyMessages_refuses:
  assumes "ShouldDropEmptyContent cfg route backend"
    and "get_arr body ''messages'' = Some ms"
  shows "(checkEmptyMessages cfg route backend body \<longleftrightarrow>
      (\<exists>m. JObj m \<in> set ms \<and> isEmptyContent (gm_get m ''content''))) \<and>
    (\<forall>parts. (\<forall>p. JObj p \<in> set parts \<longrightarrow> get_str p ''content'' = None) \<longrightarrow>
       isEmptyContent (Some (JArr parts)))"
proof -
  have "(case raw of JObj m \<Rightarrow> isEmptyContent (gm_get m ''content'') | _ \<Rightarrow> False) \<longleftrightarrow>
      (\<exists>m. raw = JObj m \<and> isEmptyContent (gm_get m ''content''))" for raw
    by (cases raw) auto
  with assms have iff: "checkEmptyMessages cfg route backend body \<longleftrightarrow>
      (\<exists>m. JObj m \<in> set ms \<and> isEmptyContent (gm_get m ''content''))"
    by (auto simp: checkEmptyMessages_def list_ex_iff)
  have "\<not> nonempty_text_part part"
    if "\<forall>p. JObj p \<in> set parts \<longrightarrow> get_str p ''content'' = None" "part \<in> set parts" for parts part
    using that by (cases part) (auto simp: nonempty_text_part_def)
  with iff show ?thesis by (auto simp: isEmptyContent_def list_ex_iff)
qed

text \<open>
  A configuration that turns the guard on for every request, and a message of one text part.
\<close>

definition guarded_route :: Route where
  "guarded_route =
     \<lparr>rt_VirtualModel = ''m'', rt_Backend = ''b'', rt_BackendGroup = '''', rt_RealModel = '''',
      rt_ContextLength = 0, rt_Defaults = [], rt_Clamp = [], rt_AutoRoute = None,
      rt_SystemPrompt = \<lparr>sp_Prepend = '''', sp_Append = '''', sp_Replace = ''''\<rparr>, rt_Inject = [],
      rt_Headers = \<lparr>hdr_Add = [], hdr_Remove = [], hdr_Rename = []\<rparr>,
      rt_DropEmptyContent = Some True, rt_Defenders = None\<rparr>"

theorem checkEmptyMessages_refuses_witness:
  "\<forall>cfg. checkEmptyMessages cfg (Some guarded_route) None
     [(''messages'', JArr [JObj [(''role'', JStr ''user''),
        (''content'', JArr [JObj [(''type'', JStr ''text''), (''text'', JStr ''hello'')]])]])]"
proof
  fix cfg
  let ?m = "[(''role'', JStr ''user''),
    (''content'', JArr [JObj [(''type'', JStr ''text''), (''text'', JStr ''hello'')]])]"
  have "ShouldDropEmptyContent cfg (Some guarded_route) None"
    by (simp add: ShouldDropEmptyContent_def guarded_route_def)
  moreover have "get_arr [(''messages'', JArr [JObj ?m])] ''messages'' = Some [JObj ?m]" by simp
  ultimately show "checkEmptyMessages cfg (Some guarded_route) None [(''messages'', JArr [JObj ?m])]"
    using checkEmptyMessages_refuses [of cfg "Some guarded_route" None "[(''messages'', JArr [JObj ?m])]" "[JObj ?m]"]
    by simp
qed

end
