(* ===== verification/Request_Journal.thy ===== *)
theory Request_Journal
  imports Body_Rewrite
begin

text \<open>
  \<open>internal/journal/analyze.go\<close>, the statistics that the journal emits for each request, and
  \<open>internal/logger\<close>, the log level. The build tag \<open>hardened\<close> is the flag \<open>hardened\<close>: it sets
  \<open>captureMessageText\<close> and \<open>MaxAllowedLevel\<close> and turns two of the log functions off. The exporters
  behind the journal are third-party code.
\<close>

section \<open>Counting in a text\<close>

lemma str_index_drop_less: "str_index s pat = Some i \<Longrightarrow> pat \<noteq> [] \<Longrightarrow> length (drop (i + length pat) s) < length s"
  using str_index_bound [of s pat i] by (cases pat) auto

text \<open>\<open>strings.Count\<close>: occurrences that do not overlap, for a pattern that is not empty\<close>

function str_count :: "string \<Rightarrow> string \<Rightarrow> nat" where
  "str_count s pat =
     (if pat = [] then 0
      else case str_index s pat of
        None \<Rightarrow> 0
      | Some i \<Rightarrow> Suc (str_count (drop (i + length pat) s) pat))"
  by pat_completeness auto
termination
  by (relation "measure (\<lambda>(s, pat). length s)") (auto dest: str_index_drop_less)

declare str_count.simps [simp del]

definition fence :: string where
  "fence = ''```''"

definition countCodeFences :: "string \<Rightarrow> int" where
  "countCodeFences t = int (str_count t fence) div 2"

definition truncate_text :: "string \<Rightarrow> nat \<Rightarrow> string" where
  "truncate_text s maxBytes = (if length s \<le> maxBytes then s else take maxBytes s @ ''[truncated]'')"

function json_blocks :: "string \<Rightarrow> int \<Rightarrow> int" where
  "json_blocks rest n =
     (case str_index rest (fence @ ''json'') of
        None \<Rightarrow> n
      | Some i \<Rightarrow>
          let rest1 = drop (i + 7) rest in
          case str_index rest1 fence of
            None \<Rightarrow> n
          | Some e \<Rightarrow>
              json_blocks (drop (e + 3) rest1)
                (if length (TrimSpace (take e rest1)) > 50 then n + 1 else n))"
  by pat_completeness auto
termination
  by (relation "measure (\<lambda>(rest, n). length rest)")
    (auto simp: fence_def dest: str_index_bound)

definition countJSONBlocks :: "string \<Rightarrow> int" where
  "countJSONBlocks t = json_blocks t 0"

section \<open>Analysis\<close>

definition maxSystemText :: nat where "maxSystemText = 2048"
definition maxLastUserText :: nat where "maxLastUserText = 8192"

record Entry =
  e_RequestID :: string
  e_VirtualModel :: string
  e_RealModel :: string
  e_Backend :: string
  e_Protocol :: string
  e_Streaming :: bool
  e_MessageCount :: int
  e_SystemChars :: int
  e_LastUserChars :: int
  e_TotalChars :: int
  e_EstTokens :: int
  e_HasTools :: bool
  e_HasToolChoice :: bool
  e_CodeFences :: int
  e_JSONBlocks :: int
  e_IsMultimodal :: bool
  e_SystemText :: string
  e_LastUserText :: string
  e_Params :: obj

definition captureMessageText :: "bool \<Rightarrow> bool" where
  "captureMessageText hardened = (\<not> hardened)"

definition part_text :: "json \<Rightarrow> string" where
  "part_text p =
     (case p of
        JObj part \<Rightarrow>
          (if gm_get part ''type'' = Some (JStr ''text'') then or_zero (get_str part ''text'') '''' else '''')
      | _ \<Rightarrow> '''')"

definition part_is_media :: "json \<Rightarrow> bool" where
  "part_is_media p =
     (case p of
        JObj part \<Rightarrow>
          gm_get part ''type'' \<in> Some ` JStr ` {''image_url'', ''image'', ''video_url'', ''video'', ''document'', ''file''}
      | _ \<Rightarrow> False)"

definition extractMessageText :: "obj \<Rightarrow> string \<times> bool" where
  "extractMessageText msg =
     (case gm_get msg ''content'' of
        Some (JStr content) \<Rightarrow> (content, False)
      | Some (JArr content) \<Rightarrow> (concat (map part_text content), list_ex part_is_media content)
      | _ \<Rightarrow> ('''', False))"

definition analyze_system :: "bool \<Rightarrow> string \<Rightarrow> Entry \<Rightarrow> Entry" where
  "analyze_system hardened sys e =
     e\<lparr>e_SystemChars := int (length sys), e_TotalChars := e_TotalChars e + int (length sys),
       e_SystemText := (if captureMessageText hardened then truncate_text sys maxSystemText else e_SystemText e),
       e_CodeFences := e_CodeFences e + countCodeFences sys,
       e_JSONBlocks := e_JSONBlocks e + countJSONBlocks sys\<rparr>"

definition analyze_message :: "bool \<Rightarrow> json \<Rightarrow> Entry \<Rightarrow> Entry" where
  "analyze_message hardened m e0 =
     (case m of
        JObj msg \<Rightarrow>
          (let role = or_zero (get_str msg ''role'') '''';
               (txt, multimodal) = extractMessageText msg;
               chars = int (length txt);
               e1 = e0\<lparr>e_TotalChars := e_TotalChars e0 + chars,
                       e_IsMultimodal := (e_IsMultimodal e0 \<or> multimodal)\<rparr>;
               e2 = (if role = ''system''
                     then e1\<lparr>e_SystemChars := e_SystemChars e1 + chars,
                             e_SystemText := (if captureMessageText hardened
                               then truncate_text txt maxSystemText else e_SystemText e1)\<rparr>
                     else if role = ''user''
                     then e1\<lparr>e_LastUserChars := chars,
                             e_LastUserText := (if captureMessageText hardened
                               then truncate_text txt maxLastUserText else e_LastUserText e1)\<rparr>
                     else e1)
           in e2\<lparr>e_CodeFences := e_CodeFences e2 + countCodeFences txt,
                 e_JSONBlocks := e_JSONBlocks e2 + countJSONBlocks txt\<rparr>)
      | _ \<Rightarrow> e0)"

definition Analyze :: "bool \<Rightarrow> obj \<Rightarrow> string \<Rightarrow> Entry" where
  "Analyze hardened body protocol =
     (let e0 = \<lparr>e_RequestID = '''', e_VirtualModel = '''', e_RealModel = '''', e_Backend = '''',
                e_Protocol = protocol, e_Streaming = or_zero (get_bool body ''stream'') False,
                e_MessageCount = 0, e_SystemChars = 0, e_LastUserChars = 0, e_TotalChars = 0,
                e_EstTokens = 0, e_HasTools = (gm_get body ''tools'' \<noteq> None),
                e_HasToolChoice = (gm_get body ''tool_choice'' \<noteq> None),
                e_CodeFences = 0, e_JSONBlocks = 0, e_IsMultimodal = False,
                e_SystemText = '''', e_LastUserText = '''', e_Params = []\<rparr>;
          e1 = (case get_str body ''system'' of None \<Rightarrow> e0 | Some sys \<Rightarrow> analyze_system hardened sys e0);
          messages = or_zero (get_arr body ''messages'') [];
          e2 = fold (analyze_message hardened) messages (e1\<lparr>e_MessageCount := int (length messages)\<rparr>)
      in e2\<lparr>e_EstTokens := e_TotalChars e2 div 4\<rparr>)"

section \<open>Log level\<close>

definition LevelError :: int where "LevelError = 0"
definition LevelRequest :: int where "LevelRequest = 1"
definition LevelHeaders :: int where "LevelHeaders = 2"
definition LevelBody :: int where "LevelBody = 3"
definition LevelContent :: int where "LevelContent = 4"

definition MaxAllowedLevel :: "bool \<Rightarrow> int" where
  "MaxAllowedLevel hardened = (if hardened then LevelHeaders else LevelContent)"

text \<open>
  The level that \<open>Apply\<close> stores, given the value of the environment variable as \<open>strconv.Atoi\<close>
  reads it (\<open>None\<close> when it is unset, empty or not a number).
\<close>

definition logger_Apply :: "bool \<Rightarrow> int option \<Rightarrow> int option \<Rightarrow> int" where
  "logger_Apply hardened env yamlLevel =
     (let l1 = (case yamlLevel of
                  Some n \<Rightarrow> if LevelError \<le> n \<and> n \<le> LevelContent then n else LevelError
                | None \<Rightarrow> LevelError);
          l2 = (case env of
                  Some n \<Rightarrow> if LevelError \<le> n \<and> n \<le> LevelContent then n else l1
                | None \<Rightarrow> l1)
      in if l2 > MaxAllowedLevel hardened then MaxAllowedLevel hardened else l2)"

text \<open>The lines a call adds to the log at a level.\<close>

definition log_Request :: "int \<Rightarrow> string \<Rightarrow> string list" where
  "log_Request level line = (if level \<ge> LevelRequest then [''[req] '' @ line] else [])"

definition log_Headers :: "int \<Rightarrow> string \<Rightarrow> string list" where
  "log_Headers level line = (if level \<ge> LevelHeaders then [''[hdr] '' @ line] else [])"

definition log_Body :: "bool \<Rightarrow> int \<Rightarrow> string \<Rightarrow> string list" where
  "log_Body hardened level line =
     (if hardened then [] else if level \<ge> LevelBody then [''[body] '' @ line] else [])"

definition log_Content :: "bool \<Rightarrow> int \<Rightarrow> string \<Rightarrow> string list" where
  "log_Content hardened level line =
     (if hardened then [] else if level \<ge> LevelContent then [line] else [])"

section \<open>Facts about the analysis\<close>

lemma extractMessageText_chars:
  "message_chars (JObj msg) = int (length (fst (extractMessageText msg)))"
proof -
  have part: "part_chars p = int (length (part_text p))" for p
    by (cases p) (auto simp: part_chars_def part_text_def)
  have "sum_list (map part_chars ps) = int (length (concat (map part_text ps)))" for ps
    by (induction ps) (simp_all add: part)
  then show ?thesis
    by (auto simp: message_chars_def extractMessageText_def split: option.split json.split)
qed

lemma analyze_message_chars: "e_TotalChars (analyze_message hrd m e) = e_TotalChars e + message_chars m"
proof (cases m)
  case (JObj msg)
  then show ?thesis
    using extractMessageText_chars [of msg] by (simp add: analyze_message_def Let_def split_beta)
qed (simp_all add: analyze_message_def message_chars_def)

lemma analyze_messages_chars:
  "e_TotalChars (fold (analyze_message hrd) ms e) = e_TotalChars e + sum_list (map message_chars ms)"
  by (induction ms arbitrary: e) (simp_all add: analyze_message_chars)

text \<open>What the two text fields may hold.\<close>

definition texts_ok :: "bool \<Rightarrow> Entry \<Rightarrow> bool" where
  "texts_ok hardened e \<longleftrightarrow>
     length (e_SystemText e) \<le> maxSystemText + 11 \<and> length (e_LastUserText e) \<le> maxLastUserText + 11 \<and>
     (hardened \<longrightarrow> e_SystemText e = '''' \<and> e_LastUserText e = '''')"

lemma truncate_text_bound: "length (truncate_text s n) \<le> n + 11"
  by (simp add: truncate_text_def)

lemma analyze_message_texts: "texts_ok hrd e \<Longrightarrow> texts_ok hrd (analyze_message hrd m e)"
  by (cases m)
    (auto simp: texts_ok_def analyze_message_def Let_def captureMessageText_def truncate_text_bound split_beta)

lemma analyze_messages_texts: "texts_ok hrd e \<Longrightarrow> texts_ok hrd (fold (analyze_message hrd) ms e)"
  by (induction ms arbitrary: e) (simp_all add: analyze_message_texts)

lemma texts_ok_counts [simp]:
  "texts_ok hrd (e\<lparr>e_EstTokens := n\<rparr>) = texts_ok hrd e" "texts_ok hrd (e\<lparr>e_MessageCount := n\<rparr>) = texts_ok hrd e"
  by (simp_all add: texts_ok_def)

lemma texts_ok_empty: "e_SystemText e = [] \<Longrightarrow> e_LastUserText e = [] \<Longrightarrow> texts_ok hrd e"
  by (simp add: texts_ok_def)

lemma analyze_system_texts: "texts_ok hrd e \<Longrightarrow> texts_ok hrd (analyze_system hrd sys e)"
  by (simp add: texts_ok_def analyze_system_def captureMessageText_def truncate_text_bound)

lemma Analyze_texts: "texts_ok hrd (Analyze hrd body protocol)"
  unfolding Analyze_def Let_def texts_ok_counts
  by (intro analyze_messages_texts)
    (simp add: texts_ok_empty analyze_system_texts split: option.split)

lemma logger_Apply_range: "0 \<le> logger_Apply hrd env yaml \<and> logger_Apply hrd env yaml \<le> MaxAllowedLevel hrd"
  by (auto simp: logger_Apply_def Let_def MaxAllowedLevel_def LevelError_def LevelContent_def LevelHeaders_def
      split: option.split)

section \<open>Properties\<close>

text \<open>
  The two token estimates agree. The estimate that the load balancer receives with a request is
  the one the journal reports, for every body without a top-level system string; with one, the
  journal counts its bytes too.
\<close>

theorem estimateTokens_agrees:
  "e_EstTokens (Analyze hardened body protocol) =
     (case get_str body ''system'' of
        None \<Rightarrow> estimateTokens body
      | Some sys \<Rightarrow>
          (int (length sys) + sum_list (map message_chars (or_zero (get_arr body ''messages'') []))) div 4)"
  by (simp add: Analyze_def Let_def estimateTokens_def analyze_messages_chars analyze_system_def
      split: option.split)

end
