(* ===== verification/Telemetry_Metrics.thy ===== *)
theory Telemetry_Metrics
  imports Go_Prelude
begin

text \<open>
  \<open>internal/telemetry/metrics.go\<close>: the instruments of the \<open>Metrics\<close> struct, the label sets, how
  \<open>Init\<close> creates the instruments and what each instrument takes. The OpenTelemetry SDK behind them is
  third-party code; what the proxy does to it is the sequence of measurements it records, which the
  components keep as a list. Values are real numbers, whether the instrument is an integer or a
  floating-point one; the rounding of \<open>float64\<close> is not modelled.
\<close>

datatype Metrics =
    RequestDuration
  | TTFT
  | PromptTokens
  | CompletionTokens
  | ActiveRequests
  | ActiveRequestsTotal
  | RequestsTotal
  | GenerationTokensPerSec
  | ThinkContentRatio
  | PromptTokensPerRequest
  | AffinityCacheEntries
  | RequestBodyBytesBuffered

type_synonym attrs = "(string \<times> string) list"

datatype measurement = Measure (instrument: Metrics) (quantity: real) (labels: attrs)

definition Attrs :: "string \<Rightarrow> string \<Rightarrow> string \<Rightarrow> attrs" where
  "Attrs backend model status = [(''backend'', backend), (''model'', model), (''status'', status)]"

definition BackendAttrs :: "string \<Rightarrow> string \<Rightarrow> attrs" where
  "BackendAttrs backend model = [(''backend'', backend), (''model'', model)]"

text \<open>\<open>d.Seconds()\<close> of a duration\<close>

definition Seconds :: "duration \<Rightarrow> real" where
  "Seconds d = of_int d / 1000000000"

text \<open>What a counter shows after a sequence of measurements: the sum of what was added to it.\<close>

definition counted :: "Metrics \<Rightarrow> measurement list \<Rightarrow> real" where
  "counted i ms = sum_list (map quantity (filter (\<lambda>m. instrument m = i) ms))"

lemma counted_Nil [simp]: "counted i [] = 0"
  by (simp add: counted_def)

lemma counted_append [simp]: "counted i (xs @ ys) = counted i xs + counted i ys"
  by (simp add: counted_def)

lemma counted_Cons [simp]:
  "counted i (Measure j q a # ms) = (if i = j then q else 0) + counted i ms"
  by (simp add: counted_def)

text \<open>The same measurements with the value of a timing instrument left out.\<close>

definition untimed :: "Metrics \<Rightarrow> measurement list \<Rightarrow> measurement list" where
  "untimed i = map (\<lambda>m. if instrument m = i then Measure i 0 (labels m) else m)"

lemma untimed_append [simp]: "untimed i (xs @ ys) = untimed i xs @ untimed i ys"
  by (simp add: untimed_def)

lemma untimed_Nil [simp]: "untimed i [] = []"
  by (simp add: untimed_def)

lemma untimed_Cons [simp]:
  "untimed i (Measure j q a # ms) = (if j = i then Measure i 0 a else Measure j q a) # untimed i ms"
  by (simp add: untimed_def)

lemma untimed_idem [simp]: "untimed i (untimed i ms) = untimed i ms"
  by (auto simp: untimed_def)

section \<open>The instruments\<close>

text \<open>How \<open>Init\<close> asks the meter for an instrument: its type, name, description and, for a histogram, buckets.\<close>

datatype instrument_type = Float64Histogram | Int64Histogram | Int64Counter | Int64UpDownCounter | Float64Gauge

record instrument_spec =
  is_type :: instrument_type
  is_name :: string
  is_description :: string
  is_boundaries :: "real list"

fun spec_of :: "Metrics \<Rightarrow> instrument_spec" where
  "spec_of RequestDuration =
     \<lparr>is_type = Float64Histogram, is_name = ''llm_request_duration_seconds'',
      is_description = ''End-to-end request duration in seconds'',
      is_boundaries = [1 / 2, 1, 2, 5, 10, 30, 60, 120, 300]\<rparr>"
| "spec_of TTFT =
     \<lparr>is_type = Float64Histogram, is_name = ''llm_time_to_first_token_seconds'',
      is_description = ''Seconds from request start to first streamed content token'',
      is_boundaries = [1 / 2, 1, 2, 5, 10, 20, 30, 45, 60, 90, 120, 180, 300]\<rparr>"
| "spec_of PromptTokens =
     \<lparr>is_type = Int64Counter, is_name = ''llm_prompt_tokens_total'',
      is_description = ''Cumulative prompt/input tokens processed'', is_boundaries = []\<rparr>"
| "spec_of CompletionTokens =
     \<lparr>is_type = Int64Counter, is_name = ''llm_completion_tokens_total'',
      is_description = ''Cumulative completion/output tokens generated'', is_boundaries = []\<rparr>"
| "spec_of ActiveRequests =
     \<lparr>is_type = Int64UpDownCounter, is_name = ''llm_active_requests'',
      is_description = ''Number of requests currently in flight'', is_boundaries = []\<rparr>"
| "spec_of RequestsTotal =
     \<lparr>is_type = Int64Counter, is_name = ''llm_requests_total'',
      is_description = ''Total requests by backend, model and HTTP status'', is_boundaries = []\<rparr>"
| "spec_of GenerationTokensPerSec =
     \<lparr>is_type = Float64Gauge, is_name = ''llm_generation_tokens_per_second'',
      is_description = ''Output token generation speed for the last completed request'', is_boundaries = []\<rparr>"
| "spec_of ThinkContentRatio =
     \<lparr>is_type = Float64Histogram, is_name = ''llm_think_content_ratio'',
      is_description = ''Fraction of response that is think/reasoning vs content tokens'',
      is_boundaries = [0, 1 / 10, 2 / 10, 3 / 10, 4 / 10, 5 / 10, 6 / 10, 7 / 10, 8 / 10, 9 / 10, 1]\<rparr>"
| "spec_of PromptTokensPerRequest =
     \<lparr>is_type = Int64Histogram, is_name = ''llm_prompt_tokens_per_request'',
      is_description = ''Prompt token count per request'',
      is_boundaries = [128, 256, 512, 1024, 2048, 4096, 8192, 16384, 32768, 65536, 131072]\<rparr>"
| "spec_of ActiveRequestsTotal =
     \<lparr>is_type = Float64Gauge, is_name = ''hikyaku_active_requests'',
      is_description = ''Total requests currently in flight across all backends'', is_boundaries = []\<rparr>"
| "spec_of AffinityCacheEntries =
     \<lparr>is_type = Float64Gauge, is_name = ''hikyaku_affinity_cache_entries'',
      is_description = ''Number of affinity pins currently cached'', is_boundaries = []\<rparr>"
| "spec_of RequestBodyBytesBuffered =
     \<lparr>is_type = Float64Gauge, is_name = ''hikyaku_request_body_bytes_buffered'',
      is_description = ''Bytes currently held in the proxy waiting to forward or waiting on responses'',
      is_boundaries = []\<rparr>"

text \<open>
  \<open>Init\<close> creates the instruments one after the other and stops at the first error. The exporter and
  the meter are third-party code: \<open>exporter\<close> is the error of its construction, if any, and \<open>meter\<close>
  answers a request for an instrument with an error or a handle. The struct that \<open>Init\<close> returns is
  the list of its fields with their handles.
\<close>

definition init_order :: "Metrics list" where
  "init_order =
     [RequestDuration, TTFT, PromptTokens, CompletionTokens, ActiveRequests, RequestsTotal, GenerationTokensPerSec,
      ThinkContentRatio, PromptTokensPerRequest, ActiveRequestsTotal, AffinityCacheEntries, RequestBodyBytesBuffered]"

fun create_instruments ::
  "(instrument_spec \<Rightarrow> string + 'h) \<Rightarrow> Metrics list \<Rightarrow> string + (Metrics \<times> 'h) list" where
  "create_instruments meter [] = Inr []"
| "create_instruments meter (i # is) =
     (case meter (spec_of i) of
        Inl err \<Rightarrow> Inl err
      | Inr h \<Rightarrow>
          (case create_instruments meter is of
             Inl err \<Rightarrow> Inl err
           | Inr hs \<Rightarrow> Inr ((i, h) # hs)))"

definition telemetry_Init ::
  "string option \<Rightarrow> (instrument_spec \<Rightarrow> string + 'h) \<Rightarrow> string + (Metrics \<times> 'h) list" where
  "telemetry_Init exporter meter =
     (case exporter of Some err \<Rightarrow> Inl err | None \<Rightarrow> create_instruments meter init_order)"

lemma init_order_complete: "i \<in> set init_order"
  by (cases i) (simp_all add: init_order_def)

lemma init_order_distinct: "distinct (map (is_name \<circ> spec_of) init_order)"
  by (simp add: init_order_def)

lemma buckets_increase: "sorted_wrt (<) (is_boundaries (spec_of i))"
  by (cases i) simp_all

lemma create_instruments_handles:
  "create_instruments meter is = Inr hs \<Longrightarrow> map fst hs = is \<and> (\<forall>(i, h) \<in> set hs. meter (spec_of i) = Inr h)"
  by (induction "is" arbitrary: hs) (auto split: sum.splits)

lemma telemetry_Init_handle:
  assumes "telemetry_Init exporter meter = Inr hs"
  shows "\<exists>h. (i, h) \<in> set hs \<and> meter (spec_of i) = Inr h"
proof -
  have "create_instruments meter init_order = Inr hs"
    using assms by (simp add: telemetry_Init_def split: option.splits)
  note handles = create_instruments_handles [OF this]
  then have "i \<in> fst ` set hs" using init_order_complete [of i] by (simp flip: set_map)
  then obtain h where "(i, h) \<in> set hs" by auto
  with handles show ?thesis by blast
qed

section \<open>What an instrument takes\<close>

text \<open>
  The label names of an instrument and the values it takes: integers for the \<open>Int64\<close> instruments,
  and nothing negative for a counter, which only goes up. \<open>saturating\<close> says whether that is to be
  checked.
\<close>

definition label_names :: "Metrics \<Rightarrow> string list" where
  "label_names i =
     (if i \<in> {RequestDuration, RequestsTotal} then [''backend'', ''model'', ''status'']
      else if i \<in> {ActiveRequestsTotal, AffinityCacheEntries, RequestBodyBytesBuffered} then []
      else [''backend'', ''model''])"

definition takes_value :: "bool \<Rightarrow> Metrics \<Rightarrow> real \<Rightarrow> bool" where
  "takes_value saturating i q \<longleftrightarrow>
     (is_type (spec_of i) \<in> {Int64Histogram, Int64Counter, Int64UpDownCounter} \<longrightarrow> of_int \<lfloor>q\<rfloor> = q) \<and>
     (saturating \<and> is_type (spec_of i) = Int64Counter \<longrightarrow> 0 \<le> q)"

text \<open>A measurement made for the requests of a backend and model.\<close>

definition recorded_for :: "bool \<Rightarrow> string \<Rightarrow> string \<Rightarrow> measurement \<Rightarrow> bool" where
  "recorded_for saturating backend model m \<longleftrightarrow>
     map fst (labels m) = label_names (instrument m) \<and>
     (labels m \<noteq> [] \<longrightarrow> take 2 (labels m) = BackendAttrs backend model) \<and>
     takes_value saturating (instrument m) (quantity m)"

lemma recorded_Measure [simp]:
  "recorded_for c b m (Measure i q (BackendAttrs b m)) \<longleftrightarrow> label_names i = [''backend'', ''model''] \<and> takes_value c i q"
  "recorded_for c b m (Measure i q (Attrs b m st)) \<longleftrightarrow> label_names i = [''backend'', ''model'', ''status''] \<and> takes_value c i q"
  "recorded_for c b m (Measure i q []) \<longleftrightarrow> label_names i = [] \<and> takes_value c i q"
  by (auto simp: recorded_for_def BackendAttrs_def Attrs_def)

lemma takes_value_int [simp]:
  "takes_value c i (of_int n) \<longleftrightarrow> (c \<and> is_type (spec_of i) = Int64Counter \<longrightarrow> 0 \<le> n)"
  by (simp add: takes_value_def)

end
