(* ===== verification/Message_Capture.thy ===== *)
theory Message_Capture
  imports Go_Prelude
begin

text \<open>
  The debug capture of \<open>internal/capture\<close>: a window of at most \<open>max_messages\<close> slots opened by
  SIGUSR1 (\<open>Arm\<close>), slots claimed by concurrent requests with a compare-and-swap loop (\<open>Reserve\<close>),
  and the capped buffer that keeps the first bytes of a streamed response. The counter is an
  \<open>int32\<close> kept at its width. The file written by \<open>Slot.Write\<close> is described by its name and the
  order of the file operations; the file system is a parameter.

  The locale \<open>capped_sink\<close> is the contract of a sink that keeps the first bytes of a stream up to a
  cap. It is shared by \<open>CappedBuffer\<close> here and by the content capture of the SSE parser.
\<close>

section \<open>A sink with a cap\<close>

locale capped_sink =
  fixes emit :: "string \<Rightarrow> 's \<Rightarrow> 's"
    and contents :: "'s \<Rightarrow> string"
    and is_truncated :: "'s \<Rightarrow> bool"
    and cap :: "'s \<Rightarrow> nat"
    and accepting :: "'s \<Rightarrow> bool"
  assumes emit_cap: "cap (emit bs s) = cap s"
    and emit_accepting: "accepting (emit bs s) = accepting s"
    and emit_truncated: "is_truncated s \<Longrightarrow>
      contents (emit bs s) = contents s \<and> is_truncated (emit bs s)"
    and emit_fits: "accepting s \<Longrightarrow> \<not> is_truncated s \<Longrightarrow> bs \<noteq> [] \<Longrightarrow>
      length (contents s) + length bs \<le> cap s \<Longrightarrow>
      contents (emit bs s) = contents s @ bs \<and> \<not> is_truncated (emit bs s)"
    and emit_overflows: "accepting s \<Longrightarrow> \<not> is_truncated s \<Longrightarrow> bs \<noteq> [] \<Longrightarrow>
      length (contents s) \<le> cap s \<Longrightarrow> cap s < length (contents s) + length bs \<Longrightarrow>
      contents (emit bs s) = take (cap s) (contents s @ bs) \<and> is_truncated (emit bs s)"
begin

text \<open>What was offered to the sink so far, as the sink shows it.\<close>

definition shows_prefix :: "string \<Rightarrow> 's \<Rightarrow> bool" where
  "shows_prefix offered s \<longleftrightarrow> accepting s \<and>
     contents s = take (cap s) offered \<and> (is_truncated s \<longleftrightarrow> cap s < length offered)"

lemma shows_prefix_emit:
  assumes "shows_prefix offered s" and "bs \<noteq> []"
  shows "shows_prefix (offered @ bs) (emit bs s)"
proof (cases "is_truncated s")
  case True
  with assms emit_truncated [of s bs] show ?thesis
    by (simp add: shows_prefix_def emit_cap emit_accepting)
next
  case False
  with assms have c: "accepting s" "contents s = offered" "length offered \<le> cap s"
    by (auto simp: shows_prefix_def)
  show ?thesis
  proof (cases "length offered + length bs \<le> cap s")
    case True
    with emit_fits [of s bs] False assms c show ?thesis
      by (simp add: shows_prefix_def emit_cap emit_accepting)
  next
    case overflow: False
    with emit_overflows [of s bs] False assms c show ?thesis
      by (simp add: shows_prefix_def emit_cap emit_accepting)
  qed
qed

lemma shows_prefix_bound: "shows_prefix offered s \<Longrightarrow> length (contents s) \<le> cap s"
  by (simp add: shows_prefix_def)

end

section \<open>The capped buffer\<close>

record CappedBuffer =
  cb_Max :: int
  cb_buf :: string
  cb_Truncated :: bool

text \<open>\<open>Write\<close> returns the length it claims to have written.\<close>

definition CappedBuffer_Write :: "string \<Rightarrow> CappedBuffer \<Rightarrow> nat \<times> CappedBuffer" where
  "CappedBuffer_Write p b =
     (if cb_Truncated b then (length p, b)
      else
        let remaining = cb_Max b - int (length (cb_buf b)) in
        if remaining \<le> 0 then (length p, b\<lparr>cb_Truncated := True\<rparr>)
        else if remaining < int (length p)
        then (length p, b\<lparr>cb_buf := cb_buf b @ take (nat remaining) p, cb_Truncated := True\<rparr>)
        else (length p, b\<lparr>cb_buf := cb_buf b @ p\<rparr>))"

interpretation cb: capped_sink "\<lambda>bs b. snd (CappedBuffer_Write bs b)" cb_buf cb_Truncated
  "\<lambda>b. nat (cb_Max b)" "\<lambda>_. True"
proof
  show "nat (cb_Max (snd (CappedBuffer_Write bs s))) = nat (cb_Max s)" for bs s
    by (simp add: CappedBuffer_Write_def Let_def)
  show "cb_buf (snd (CappedBuffer_Write bs s)) = cb_buf s \<and> cb_Truncated (snd (CappedBuffer_Write bs s))"
    if "cb_Truncated s" for bs s
    using that by (simp add: CappedBuffer_Write_def)
  show "cb_buf (snd (CappedBuffer_Write bs s)) = cb_buf s @ bs \<and>
      \<not> cb_Truncated (snd (CappedBuffer_Write bs s))"
    if "\<not> cb_Truncated s" "bs \<noteq> []" "length (cb_buf s) + length bs \<le> nat (cb_Max s)" for s bs
  proof -
    from that(2) have "0 < length bs" by simp
    with that(3) have "0 < cb_Max s - int (length (cb_buf s))"
      "\<not> cb_Max s - int (length (cb_buf s)) < int (length bs)" by linarith+
    with that(1) show ?thesis by (simp add: CappedBuffer_Write_def Let_def)
  qed
  show "cb_buf (snd (CappedBuffer_Write bs s)) = take (nat (cb_Max s)) (cb_buf s @ bs) \<and>
      cb_Truncated (snd (CappedBuffer_Write bs s))"
    if "\<not> cb_Truncated s" "bs \<noteq> []" "length (cb_buf s) \<le> nat (cb_Max s)"
      "nat (cb_Max s) < length (cb_buf s) + length bs" for s bs
    using that by (auto simp: CappedBuffer_Write_def Let_def nat_diff_distrib)
qed simp

section \<open>Configuration\<close>

definition MaxResponseBytes :: int where
  "MaxResponseBytes = 5 * 1024 * 1024"

definition DefaultMaxMessages :: int where
  "DefaultMaxMessages = 5"

definition MaxAllowedMessages :: int where
  "MaxAllowedMessages = 10000"

record CaptureConfig =
  cc_Enabled :: bool
  cc_OutputFolder :: string
  cc_MaxMessages :: int

record Capture =
  cap_outputFolder :: string
  cap_maxMessages :: "32 word"
  cap_remaining :: "32 word"

datatype capture_error = MkdirFailed string | MaxMessagesExceeded int

text \<open>
  \<open>New\<close> of a build without the \<open>hardened\<close> tag; \<open>mkdir\<close> tells whether \<open>os.MkdirAll\<close> fails. A nil
  handle is \<open>None\<close>.
\<close>

definition capture_New_debug ::
  "(string \<Rightarrow> string option) \<Rightarrow> CaptureConfig \<Rightarrow> capture_error + Capture option" where
  "capture_New_debug mkdir cfg =
     (if \<not> cc_Enabled cfg \<or> cc_OutputFolder cfg = '''' then Inr None
      else case mkdir (cc_OutputFolder cfg) of
        Some e \<Rightarrow> Inl (MkdirFailed e)
      | None \<Rightarrow>
          let m = (if cc_MaxMessages cfg \<le> 0 then DefaultMaxMessages else cc_MaxMessages cfg) in
          if m > MaxAllowedMessages then Inl (MaxMessagesExceeded m)
          else Inr (Some \<lparr>cap_outputFolder = cc_OutputFolder cfg, cap_maxMessages = word_of_int m,
                           cap_remaining = 0\<rparr>))"

definition capture_New_hardened :: "CaptureConfig \<Rightarrow> capture_error + Capture option" where
  "capture_New_hardened cfg = Inr None"

definition Configured :: "Capture option \<Rightarrow> bool" where
  "Configured c \<longleftrightarrow> c \<noteq> None"

definition OutputFolder :: "Capture option \<Rightarrow> string" where
  "OutputFolder c = (case c of None \<Rightarrow> '''' | Some cap \<Rightarrow> cap_outputFolder cap)"

definition MaxMessages :: "Capture option \<Rightarrow> int" where
  "MaxMessages c = (case c of None \<Rightarrow> 0 | Some cap \<Rightarrow> sint (cap_maxMessages cap))"

definition Arm :: "Capture option \<Rightarrow> int \<times> Capture option" where
  "Arm c =
     (case c of
        None \<Rightarrow> (0, None)
      | Some cap \<Rightarrow>
          (sint (cap_maxMessages cap), Some (cap\<lparr>cap_remaining := cap_maxMessages cap\<rparr>)))"

section \<open>Claiming a slot\<close>

record Slot =
  slot_folder :: string
  slot_seq :: int
  slot_total :: int

definition claimed_slot :: "Capture \<Rightarrow> 32 word \<Rightarrow> Slot" where
  "claimed_slot cap n =
     \<lparr>slot_folder = cap_outputFolder cap, slot_seq = sint (cap_maxMessages cap - n + 1),
      slot_total = sint (cap_maxMessages cap)\<rparr>"

text \<open>\<open>CompareAndSwap(old, new)\<close> on the counter\<close>

definition cas_remaining :: "32 word \<Rightarrow> 32 word \<Rightarrow> Capture \<Rightarrow> bool \<times> Capture" where
  "cas_remaining old new cap =
     (if cap_remaining cap = old then (True, cap\<lparr>cap_remaining := new\<rparr>) else (False, cap))"

text \<open>
  One pass of the loop of \<open>Reserve\<close>. Other goroutines may run between the load and the swap:
  \<open>seen\<close> is the counter that the load returned, \<open>cap\<close> the state at the swap. The result \<open>None\<close>
  means that the loop goes round again.
\<close>

definition reserve_attempt ::
  "32 word \<Rightarrow> Capture \<Rightarrow> Slot option option \<times> Capture" where
  "reserve_attempt seen cap =
     (if seen <=s 0 then (Some None, cap)
      else
        let (swapped, cap') = cas_remaining seen (seen - 1) cap in
        if swapped then (Some (Some (claimed_slot cap seen)), cap') else (None, cap'))"

text \<open>\<open>Reserve\<close> called while nothing else runs: the first pass succeeds.\<close>

definition Reserve :: "Capture option \<Rightarrow> Slot option \<times> Capture option" where
  "Reserve c =
     (case c of
        None \<Rightarrow> (None, None)
      | Some cap \<Rightarrow>
          (case reserve_attempt (cap_remaining cap) cap of
             (Some slot, cap') \<Rightarrow> (slot, Some cap')
           | (None, cap') \<Rightarrow> (None, Some cap')))"

text \<open>
  Several requests in the loop of \<open>Reserve\<close> at once, and signals that arm the window. Each thread
  has either nothing loaded or the counter value of its last load. \<open>win_slots\<close> are the slots
  claimed since the last \<open>Arm\<close>, in the order of their swaps, with the thread that claimed each;
  \<open>win_refused\<close> are the threads that were told that the window is closed.
\<close>

record window =
  win_cap :: Capture
  win_loaded :: "nat \<rightharpoonup> 32 word"
  win_armed :: bool
  win_slots :: "(nat \<times> Slot) list"
  win_refused :: "nat list"

inductive window_step :: "window \<Rightarrow> window \<Rightarrow> bool" where
  arm: "Arm (Some (win_cap w)) = (n, Some cap') \<Longrightarrow>
     window_step w (w\<lparr>win_cap := cap', win_armed := True, win_slots := []\<rparr>)"
| load: "win_loaded w t = None \<Longrightarrow>
     window_step w (w\<lparr>win_loaded := (win_loaded w)(t \<mapsto> cap_remaining (win_cap w))\<rparr>)"
| claim: "win_loaded w t = Some n \<Longrightarrow> reserve_attempt n (win_cap w) = (Some (Some slot), cap') \<Longrightarrow>
     window_step w (w\<lparr>win_cap := cap', win_loaded := (win_loaded w)(t := None),
       win_slots := win_slots w @ [(t, slot)]\<rparr>)"
| refuse: "win_loaded w t = Some n \<Longrightarrow> reserve_attempt n (win_cap w) = (Some None, cap') \<Longrightarrow>
     window_step w (w\<lparr>win_cap := cap', win_loaded := (win_loaded w)(t := None),
       win_refused := win_refused w @ [t]\<rparr>)"
| retry: "win_loaded w t = Some n \<Longrightarrow> reserve_attempt n (win_cap w) = (None, cap') \<Longrightarrow>
     window_step w (w\<lparr>win_cap := cap', win_loaded := (win_loaded w)(t := None)\<rparr>)"

definition window_start :: "Capture \<Rightarrow> window" where
  "window_start cap =
     \<lparr>win_cap = cap, win_loaded = Map.empty, win_armed = False, win_slots = [], win_refused = []\<rparr>"

definition window_reachable :: "Capture \<Rightarrow> window \<Rightarrow> bool" where
  "window_reachable cap w \<longleftrightarrow> window_step\<^sup>*\<^sup>* (window_start cap) w"

text \<open>
  The invariant: the counter is what the claimed slots leave of the window, and the slots are
  numbered in the order in which they were claimed.
\<close>

definition window_inv :: "Capture \<Rightarrow> window \<Rightarrow> bool" where
  "window_inv cap w \<longleftrightarrow>
     cap_maxMessages (win_cap w) = cap_maxMessages cap \<and>
     0 < sint (cap_maxMessages cap) \<and> sint (cap_maxMessages cap) \<le> MaxAllowedMessages \<and>
     int (length (win_slots w)) \<le> sint (cap_maxMessages cap) \<and>
     sint (cap_remaining (win_cap w)) =
       (if win_armed w then sint (cap_maxMessages cap) - int (length (win_slots w)) else 0) \<and>
     (\<not> win_armed w \<longrightarrow> win_slots w = []) \<and>
     map (slot_seq \<circ> snd) (win_slots w) = map (\<lambda>i. int i + 1) [0..<length (win_slots w)]"

lemma capture_New_debug_Some:
  assumes "capture_New_debug mkdir cfg = Inr (Some cap)"
  shows "0 < sint (cap_maxMessages cap) \<and> sint (cap_maxMessages cap) \<le> MaxAllowedMessages \<and>
    cap_remaining cap = 0"
proof -
  let ?m = "if cc_MaxMessages cfg \<le> 0 then DefaultMaxMessages else cc_MaxMessages cfg"
  from assms have cap: "cap_maxMessages cap = word_of_int ?m" "cap_remaining cap = 0"
    and le: "?m \<le> MaxAllowedMessages"
    by (auto simp: capture_New_debug_def Let_def split: if_splits option.splits)
  have "0 < ?m" by (auto simp: DefaultMaxMessages_def)
  with le have "sint (word_of_int ?m :: 32 word) = ?m"
    by (intro signed_take_bit_int_eq_self [THEN trans [OF sint_sbintrunc']])
      (auto simp: MaxAllowedMessages_def)
  with cap le \<open>0 < ?m\<close> show ?thesis by simp
qed

lemma reserve_attempt_claims:
  "reserve_attempt n cap = (Some (Some slot), cap') \<longleftrightarrow>
     0 <s n \<and> cap_remaining cap = n \<and> cap' = cap\<lparr>cap_remaining := n - 1\<rparr> \<and> slot = claimed_slot cap n"
  by (auto simp: reserve_attempt_def cas_remaining_def word_sless_alt word_sle_eq)

lemma reserve_attempt_keeps:
  "reserve_attempt n cap = (Some None, cap') \<longleftrightarrow> n <=s 0 \<and> cap' = cap"
  "reserve_attempt n cap = (None, cap') \<longleftrightarrow> 0 <s n \<and> cap_remaining cap \<noteq> n \<and> cap' = cap"
  by (auto simp: reserve_attempt_def cas_remaining_def word_sless_alt word_sle_eq)

text \<open>Signed arithmetic on small words does not wrap.\<close>

lemma sint32_diff:
  fixes a b :: "32 word"
  assumes "- (2 ^ 31) \<le> sint a - sint b" and "sint a - sint b < 2 ^ 31"
  shows "sint (a - b) = sint a - sint b"
  using assms by (simp add: sint_word_diff signed_take_bit_int_eq_self)

lemma sint32_add:
  fixes a b :: "32 word"
  assumes "- (2 ^ 31) \<le> sint a + sint b" and "sint a + sint b < 2 ^ 31"
  shows "sint (a + b) = sint a + sint b"
  using assms by (simp add: sint_word_add signed_take_bit_int_eq_self)

lemma claimed_slot_seq:
  assumes "0 < sint n" and "sint n \<le> sint (cap_maxMessages cap)"
    and "sint (cap_maxMessages cap) \<le> MaxAllowedMessages"
  shows "slot_seq (claimed_slot cap n) = sint (cap_maxMessages cap) - sint n + 1"
proof -
  have "sint (cap_maxMessages cap - n) = sint (cap_maxMessages cap) - sint n"
    using assms by (intro sint32_diff) (auto simp: MaxAllowedMessages_def)
  moreover from this have "sint (cap_maxMessages cap - n + 1) = sint (cap_maxMessages cap - n) + 1"
    using assms by (subst sint32_add) (auto simp: MaxAllowedMessages_def)
  ultimately show ?thesis by (simp add: claimed_slot_def)
qed

lemma window_inv_claim:
  assumes inv: "window_inv cap w" and n: "0 <s n" "cap_remaining (win_cap w) = n"
  shows "window_inv cap (w\<lparr>win_cap := (win_cap w)\<lparr>cap_remaining := n - 1\<rparr>, win_loaded := l,
      win_slots := win_slots w @ [(t, claimed_slot (win_cap w) n)]\<rparr>)"
proof -
  have pos: "0 < sint n" using n by (simp add: word_sless_alt)
  with inv n have armed: "win_armed w" by (auto simp: window_inv_def split: if_splits)
  with inv n have left: "sint n = sint (cap_maxMessages cap) - int (length (win_slots w))"
    by (simp add: window_inv_def)
  have "sint (n - 1) = sint n - 1"
    using pos left inv by (subst sint32_diff) (auto simp: window_inv_def MaxAllowedMessages_def)
  moreover have "slot_seq (claimed_slot (win_cap w) n) = int (length (win_slots w)) + 1"
    using pos left inv by (subst claimed_slot_seq) (auto simp: window_inv_def)
  ultimately show ?thesis using inv pos left armed by (auto simp: window_inv_def)
qed

lemma window_inv_step: "window_step w w' \<Longrightarrow> window_inv cap w \<Longrightarrow> window_inv cap w'"
proof (induction rule: window_step.induct)
  case (claim w t n slot cap')
  then show ?case by (simp add: reserve_attempt_claims window_inv_claim)
qed (auto simp: window_inv_def Arm_def reserve_attempt_keeps)

lemma window_inv_reachable:
  assumes "capture_New_debug mkdir cfg = Inr (Some cap)" and "window_reachable cap w"
  shows "window_inv cap w"
  using assms(2) unfolding window_reachable_def
proof (induction rule: rtranclp_induct)
  case base
  with capture_New_debug_Some [OF assms(1)] show ?case
    by (simp add: window_inv_def window_start_def)
next
  case (step w w')
  then show ?case by (blast intro: window_inv_step)
qed

lemma window_seqs_distinct: "window_inv cap w \<Longrightarrow> distinct (map (slot_seq \<circ> snd) (win_slots w))"
  by (simp add: window_inv_def distinct_map inj_on_def del: map_map)

lemma Reserve_window:
  assumes "window_inv cap w"
  shows "Reserve (Some (win_cap w)) =
    (if win_armed w \<and> int (length (win_slots w)) < sint (cap_maxMessages cap)
     then (Some (claimed_slot (win_cap w) (cap_remaining (win_cap w))),
       Some ((win_cap w)\<lparr>cap_remaining := cap_remaining (win_cap w) - 1\<rparr>))
     else (None, Some (win_cap w)))"
proof -
  have "cap_remaining (win_cap w) <=s 0 \<longleftrightarrow>
      \<not> (win_armed w \<and> int (length (win_slots w)) < sint (cap_maxMessages cap))"
    using assms by (auto simp: window_inv_def word_sle_eq split: if_splits)
  then show ?thesis by (simp add: Reserve_def reserve_attempt_def cas_remaining_def)
qed

lemma Reserve_window_seq:
  assumes inv: "window_inv cap w"
    and "win_armed w" and "int (length (win_slots w)) < sint (cap_maxMessages cap)"
  shows "slot_seq (claimed_slot (win_cap w) (cap_remaining (win_cap w))) =
    int (length (win_slots w)) + 1"
  using assms by (subst claimed_slot_seq) (auto simp: window_inv_def)

section \<open>Writing a slot\<close>

text \<open>
  The files as a map from paths to contents. \<open>os.WriteFile\<close> may fail and leave any partial content
  in the temporary file, \<open>os.Rename\<close> moves a file or fails and changes nothing, \<open>os.Remove\<close> may
  itself fail; each outcome is an argument.
\<close>

type_synonym files = "(string, string) gomap"

datatype write_outcome = WriteOk | WriteFails string "string option"

datatype slot_error = MarshalFailed | WriteFailed string | RenameFailed string

definition os_WriteFile :: "write_outcome \<Rightarrow> string \<Rightarrow> string \<Rightarrow> files \<Rightarrow> string option \<times> files" where
  "os_WriteFile out path bytes fs =
     (case out of
        WriteOk \<Rightarrow> (None, gm_set path bytes fs)
      | WriteFails e partial \<Rightarrow>
          (Some e, case partial of None \<Rightarrow> fs | Some bs \<Rightarrow> gm_set path bs fs))"

definition os_Rename :: "string option \<Rightarrow> string \<Rightarrow> string \<Rightarrow> files \<Rightarrow> string option \<times> files" where
  "os_Rename fails old new fs =
     (case (fails, gm_get fs old) of
        (None, Some bytes) \<Rightarrow> (None, gm_set new bytes (gm_del old fs))
      | (None, None) \<Rightarrow> (Some ''no such file'', fs)
      | (Some e, _) \<Rightarrow> (Some e, fs))"

text \<open>
  \<open>stamp\<close> is \<open>FileTimestamp\<close> of the parsed timestamp of the payload, \<open>join\<close> is
  \<open>filepath.Join\<close>, \<open>marshalled\<close> the indented JSON of the payload (\<open>None\<close> when it cannot be
  encoded).
\<close>

definition capture_file_name :: "string \<Rightarrow> string \<Rightarrow> string" where
  "capture_file_name stamp rid = stamp @ ''-'' @ rid @ ''.json''"

definition Slot_Write ::
  "(string \<Rightarrow> string \<Rightarrow> string) \<Rightarrow> write_outcome \<Rightarrow> string option \<Rightarrow> bool \<Rightarrow>
     Slot option \<Rightarrow> string \<Rightarrow> string \<Rightarrow> string option \<Rightarrow> files \<Rightarrow> slot_error option \<times> files" where
  "Slot_Write join out rename_fails removable s stamp rid marshalled fs =
     (case s of
        None \<Rightarrow> (None, fs)
      | Some sl \<Rightarrow>
          let final = join (slot_folder sl) (capture_file_name stamp rid);
              tmp = final @ ''.tmp''
          in case marshalled of
               None \<Rightarrow> (Some MarshalFailed, fs)
             | Some bytes \<Rightarrow>
                 (case os_WriteFile out tmp bytes fs of
                    (Some e, fs1) \<Rightarrow> (Some (WriteFailed e), fs1)
                  | (None, fs1) \<Rightarrow>
                      (case os_Rename rename_fails tmp final fs1 of
                         (Some e, fs2) \<Rightarrow>
                           (Some (RenameFailed e), if removable then gm_del tmp fs2 else fs2)
                       | (None, fs2) \<Rightarrow> (None, fs2))))"

lemma Slot_Write_final:
  assumes "Slot_Write join out rename_fails removable (Some sl) stamp rid (Some bytes) fs = (err, fs')"
  defines "final \<equiv> join (slot_folder sl) (capture_file_name stamp rid)"
  shows "gm_get fs' final = (if err = None then Some bytes else gm_get fs final)"
    and "path \<noteq> final \<Longrightarrow> path \<noteq> final @ ''.tmp'' \<Longrightarrow> gm_get fs' path = gm_get fs path"
    and "err = None \<Longrightarrow> gm_get fs' (final @ ''.tmp'') = None"
  using assms
  by (auto simp: Slot_Write_def Let_def os_WriteFile_def os_Rename_def gomap_simps
      split: write_outcome.splits option.splits if_splits)

section \<open>Properties\<close>

text \<open>
  C6: the capture window is bounded under every interleaving. Whatever requests race in the
  compare-and-swap loop of \<open>Reserve\<close> and however often the signal re-arms the window, the slots
  claimed since the last \<open>Arm\<close> are at most \<open>max_messages\<close> (itself at most 10000), they are numbered
  1, 2, \dots without a duplicate or a gap, none is claimed before the first \<open>Arm\<close>, and a request
  that runs alone next gets the following number exactly while the window is open.
\<close>

theorem capture_window_bounded:
  assumes "capture_New_debug mkdir cfg = Inr (Some cap)" and "window_reachable cap w"
  shows "int (length (win_slots w)) \<le> sint (cap_maxMessages cap) \<and>
    sint (cap_maxMessages cap) \<le> MaxAllowedMessages \<and>
    map (slot_seq \<circ> snd) (win_slots w) = map (\<lambda>i. int i + 1) [0..<length (win_slots w)] \<and>
    distinct (map (slot_seq \<circ> snd) (win_slots w)) \<and>
    (\<not> win_armed w \<longrightarrow> win_slots w = []) \<and>
    map_option slot_seq (fst (Reserve (Some (win_cap w)))) =
      (if win_armed w \<and> int (length (win_slots w)) < sint (cap_maxMessages cap)
       then Some (int (length (win_slots w)) + 1) else None)"
proof -
  have inv: "window_inv cap w" using assms by (rule window_inv_reachable)
  then show ?thesis
    using window_seqs_distinct [OF inv] Reserve_window [OF inv] Reserve_window_seq [OF inv]
    by (auto simp: window_inv_def)
qed

lemma three_steps: "r a b \<Longrightarrow> r b c \<Longrightarrow> r c d \<Longrightarrow> r\<^sup>*\<^sup>* a d"
  by (meson converse_rtranclp_into_rtranclp r_into_rtranclp)

definition sample_capture :: Capture where
  "sample_capture = \<lparr>cap_outputFolder = ''/cap'', cap_maxMessages = 2, cap_remaining = 0\<rparr>"

theorem capture_window_bounded_witness:
  "\<exists>w. window_reachable sample_capture w \<and> length (win_slots w) = 1 \<and>
     map_option slot_seq (fst (Reserve (Some (win_cap w)))) = Some 2"
proof -
  let ?cfg = "\<lparr>cc_Enabled = True, cc_OutputFolder = ''/cap'', cc_MaxMessages = 2\<rparr>"
  have new: "capture_New_debug (\<lambda>_. None) ?cfg = Inr (Some sample_capture)"
    by (simp add: capture_New_debug_def sample_capture_def MaxAllowedMessages_def)
  let ?w0 = "window_start sample_capture"
  let ?w1 = "?w0\<lparr>win_cap := sample_capture\<lparr>cap_remaining := 2\<rparr>, win_armed := True, win_slots := []\<rparr>"
  let ?w2 = "?w1\<lparr>win_loaded := (win_loaded ?w1)(7 \<mapsto> 2)\<rparr>"
  let ?w3 = "?w2\<lparr>win_cap := sample_capture\<lparr>cap_remaining := 1\<rparr>, win_loaded := (win_loaded ?w2)(7 := None),
    win_slots := win_slots ?w2 @ [(7, claimed_slot (win_cap ?w2) 2)]\<rparr>"
  have "window_step ?w0 ?w1"
    by (rule window_step.arm [where n = 2]) (simp add: Arm_def window_start_def sample_capture_def)
  moreover have "window_step ?w1 ?w2"
    using window_step.load [of ?w1 7] by (simp add: window_start_def)
  moreover have "window_step ?w2 ?w3"
    by (rule window_step.claim [where n = 2])
      (simp_all add: reserve_attempt_def cas_remaining_def word_sle_eq)
  ultimately have reach: "window_reachable sample_capture ?w3"
    unfolding window_reachable_def by (rule three_steps)
  have "map_option slot_seq (fst (Reserve (Some (win_cap ?w3)))) = Some 2"
    using capture_window_bounded [OF new reach]
    by (simp add: window_start_def sample_capture_def)
  with reach show ?thesis by (intro exI [of _ ?w3]) (simp add: window_start_def)
qed

text \<open>
  A capture file appears whole or not at all. Whatever fails while a slot is written, the final
  file holds either what it held before or all of the encoded payload, the latter exactly when no
  error is returned; no other file than it and its temporary one changes, and after a success the
  temporary file is gone.
\<close>

theorem Slot_Write_atomic:
  assumes "Slot_Write join out rename_fails removable (Some sl) stamp rid (Some bytes) fs = (err, fs')"
  shows "gm_get fs' (join (slot_folder sl) (capture_file_name stamp rid)) =
      (if err = None then Some bytes
       else gm_get fs (join (slot_folder sl) (capture_file_name stamp rid))) \<and>
    (\<forall>path. path \<noteq> join (slot_folder sl) (capture_file_name stamp rid) \<and>
       path \<noteq> join (slot_folder sl) (capture_file_name stamp rid) @ ''.tmp'' \<longrightarrow>
       gm_get fs' path = gm_get fs path) \<and>
    (err = None \<longrightarrow>
       gm_get fs' (join (slot_folder sl) (capture_file_name stamp rid) @ ''.tmp'') = None)"
  using Slot_Write_final [OF assms] by blast

theorem Slot_Write_atomic_witness:
  "gm_get (snd (Slot_Write (\<lambda>d f. d @ ''/'' @ f) WriteOk (Some ''busy'') False
      (Some \<lparr>slot_folder = ''/cap'', slot_seq = 1, slot_total = 2\<rparr>) ''t'' ''r'' (Some ''{}'')
      [(''/cap/t-r.json'', ''old'')])) ''/cap/t-r.json'' = Some ''old''"
  (is "gm_get (snd ?res) _ = _")
proof -
  obtain err fs' where res: "?res = (err, fs')" by (cases ?res)
  then have "err \<noteq> None"
    by (auto simp: Slot_Write_def os_WriteFile_def os_Rename_def split: option.splits)
  then show ?thesis
    using Slot_Write_atomic [OF res] res by (simp add: capture_file_name_def)
qed

end
