(* ===== verification/Sse_Stream.thy ===== *)
theory Sse_Stream
  imports Json_Values Telemetry_Metrics Message_Capture
begin

text \<open>
  \<open>internal/proxy/stream.go\<close>: the parser that extracts telemetry from a streamed response while its
  bytes pass through, the first-byte parser for Ollama, and the two body wrappers.

  \<open>unmarshal\<close> stands for \<open>json.Unmarshal\<close> into a map (\<open>None\<close> is an error, a JSON null is the empty
  map) and \<open>big\<close> for the conversion of a float outside the range of \<open>int64\<close>, whose result the
  language leaves open; both are arguments. Measurements are appended to \<open>sse_emitted\<close>, the
  instant of a clock read is the argument \<open>now\<close>.
\<close>

section \<open>Byte strings\<close>

fun IndexByte :: "string \<Rightarrow> char \<Rightarrow> nat option" where
  "IndexByte [] c = None"
| "IndexByte (b # bs) c = (if b = c then Some 0 else map_option Suc (IndexByte bs c))"

definition TrimRight :: "string \<Rightarrow> char \<Rightarrow> string" where
  "TrimRight s c = rev (dropWhile (\<lambda>b. b = c) (rev s))"

definition NL :: char where "NL = CHR 0x0A"
definition CR :: char where "CR = CHR 0x0D"

section \<open>The SSE parser\<close>

definition maxContentCapture :: nat where
  "maxContentCapture = 32768"

record sseParser =
  sse_backendID :: string
  sse_model :: string
  sse_backendType :: string
  sse_t0 :: time
  ttftDone :: bool
  t0FirstTok :: time
  lineBuf :: string
  promptToks :: int
  completionToks :: int
  thinkChars :: int
  contentChars :: int
  anthropicInputTokens :: int
  anthropicOutputTokens :: int
  captureContent :: bool
  contentBuf :: string
  sse_truncated :: bool
  sse_emitted :: "measurement list"

definition newSSEParser :: "string \<Rightarrow> string \<Rightarrow> string \<Rightarrow> time \<Rightarrow> sseParser" where
  "newSSEParser backendID model backendType t0 =
     \<lparr>sse_backendID = backendID, sse_model = model, sse_backendType = backendType, sse_t0 = t0,
      ttftDone = False, t0FirstTok = 0, lineBuf = [], promptToks = 0, completionToks = 0,
      thinkChars = 0, contentChars = 0, anthropicInputTokens = 0, anthropicOutputTokens = 0,
      captureContent = False, contentBuf = [], sse_truncated = False, sse_emitted = []\<rparr>"

definition sse_emit :: "Metrics \<Rightarrow> real \<Rightarrow> sseParser \<Rightarrow> sseParser" where
  "sse_emit i q p =
     p\<lparr>sse_emitted := sse_emitted p @ [Measure i q (BackendAttrs (sse_backendID p) (sse_model p))]\<rparr>"

definition appendContent :: "string \<Rightarrow> sseParser \<Rightarrow> sseParser" where
  "appendContent txt p =
     (if \<not> captureContent p \<or> sse_truncated p \<or> txt = '''' then p
      else
        let remaining = int maxContentCapture - int (length (contentBuf p)) in
        if remaining \<le> 0 then p\<lparr>sse_truncated := True\<rparr>
        else if remaining < int (length txt)
        then p\<lparr>contentBuf := contentBuf p @ take (nat remaining) txt, sse_truncated := True\<rparr>
        else p\<lparr>contentBuf := contentBuf p @ txt\<rparr>)"

definition ResponseText :: "sseParser \<Rightarrow> string" where
  "ResponseText p = contentBuf p @ (if sse_truncated p then '' [truncated]'' else '''')"

text \<open>
  \<open>firstDeltaContent\<close> assigns its named results in every round of the loop and stops at the first
  choice whose delta has text; indexing a nil map gives nil, so a choice of another shape counts as
  one with empty text.
\<close>

definition delta_texts :: "json \<Rightarrow> string \<times> string" where
  "delta_texts c =
     (let ch = or_zero (as_obj (Some c)) [];
          delta = or_zero (get_obj ch ''delta'') []
      in (or_zero (get_str delta ''content'') '''', or_zero (get_str delta ''reasoning_content'') ''''))"

fun first_delta :: "json list \<Rightarrow> string \<times> string \<Rightarrow> string \<times> string" where
  "first_delta [] acc = acc"
| "first_delta (c # cs) acc =
     (let (content, reasoning) = delta_texts c in
      if content \<noteq> '''' \<or> reasoning \<noteq> '''' then (content, reasoning)
      else first_delta cs (content, reasoning))"

definition firstDeltaContent :: "obj \<Rightarrow> string \<times> string" where
  "firstDeltaContent evt = first_delta (or_zero (get_arr evt ''choices'') []) ('''', '''')"

definition record_ttft :: "time \<Rightarrow> sseParser \<Rightarrow> sseParser" where
  "record_ttft now p =
     (sse_emit TTFT (Seconds (time_since now (sse_t0 p))) p)\<lparr>ttftDone := True, t0FirstTok := now\<rparr>"

text \<open>A positive \<open>float64\<close> field of a usage object: \<open>if v, _ := usage[k].(float64); v > 0\<close>\<close>

definition positive_num :: "obj \<Rightarrow> string \<Rightarrow> real option" where
  "positive_num usage k =
     (case get_num usage k of Some v \<Rightarrow> if v > 0 then Some v else None | None \<Rightarrow> None)"

definition handleOpenAIEvent :: "(real \<Rightarrow> int) \<Rightarrow> time \<Rightarrow> obj \<Rightarrow> sseParser \<Rightarrow> sseParser" where
  "handleOpenAIEvent big now evt p0 =
     (let (content, think) = firstDeltaContent evt;
          has_text = (content \<noteq> '''' \<or> think \<noteq> '''');
          p1 = (if \<not> ttftDone p0 \<and> has_text then record_ttft now p0 else p0);
          p2 = (if has_text
                then appendContent content
                  (p1\<lparr>contentChars := wrap64 (contentChars p1 + int (length content)),
                      thinkChars := wrap64 (thinkChars p1 + int (length think))\<rparr>)
                else p1)
      in case get_obj evt ''usage'' of
           None \<Rightarrow> p2
         | Some usage \<Rightarrow>
             let p3 = (case positive_num usage ''prompt_tokens'' of
                         Some v \<Rightarrow> p2\<lparr>promptToks := int64_of big v\<rparr> | None \<Rightarrow> p2)
             in (case positive_num usage ''completion_tokens'' of
                   Some v \<Rightarrow> p3\<lparr>completionToks := int64_of big v\<rparr> | None \<Rightarrow> p3))"

definition recordAnthropicTokens :: "sseParser \<Rightarrow> sseParser" where
  "recordAnthropicTokens p =
     (let p1 = (if anthropicInputTokens p > 0
                then (sse_emit PromptTokens (of_int (anthropicInputTokens p))
                       (p\<lparr>promptToks := anthropicInputTokens p\<rparr>))\<lparr>anthropicInputTokens := 0\<rparr>
                else p)
      in if anthropicOutputTokens p1 > 0
         then (sse_emit CompletionTokens (of_int (anthropicOutputTokens p1))
                (p1\<lparr>completionToks := anthropicOutputTokens p1\<rparr>))\<lparr>anthropicOutputTokens := 0\<rparr>
         else p1)"

definition anthropic_delta :: "time \<Rightarrow> obj \<Rightarrow> sseParser \<Rightarrow> sseParser" where
  "anthropic_delta now delta p0 =
     (let dtype = or_zero (get_str delta ''type'') '''';
          p1 = (if \<not> ttftDone p0 \<and> (dtype = ''text_delta'' \<or> dtype = ''thinking_delta'')
                then record_ttft now p0 else p0);
          txt = or_zero (get_str delta ''text'') '''';
          think = or_zero (get_str delta ''thinking'') ''''
      in if dtype = ''thinking_delta''
         then p1\<lparr>thinkChars := wrap64 (thinkChars p1 + int (length think))\<rparr>
         else if dtype = ''text_delta''
         then appendContent txt (p1\<lparr>contentChars := wrap64 (contentChars p1 + int (length txt))\<rparr>)
         else p1)"

definition handleAnthropicEvent :: "(real \<Rightarrow> int) \<Rightarrow> time \<Rightarrow> obj \<Rightarrow> sseParser \<Rightarrow> sseParser" where
  "handleAnthropicEvent big now evt p =
     (let type = gm_get evt ''type'' in
      if type = Some (JStr ''message_start'') then
        (case get_obj evt ''message'' of
           None \<Rightarrow> p
         | Some msg \<Rightarrow>
             (case get_obj msg ''usage'' of
                None \<Rightarrow> p
              | Some usage \<Rightarrow>
                  (case positive_num usage ''input_tokens'' of
                     Some v \<Rightarrow> p\<lparr>anthropicInputTokens := int64_of big v\<rparr>
                   | None \<Rightarrow> p)))
      else if type = Some (JStr ''content_block_delta'') then
        (case get_obj evt ''delta'' of None \<Rightarrow> p | Some delta \<Rightarrow> anthropic_delta now delta p)
      else if type = Some (JStr ''message_delta'') then
        (case get_obj evt ''usage'' of
           None \<Rightarrow> p
         | Some usage \<Rightarrow>
             (case positive_num usage ''output_tokens'' of
                Some v \<Rightarrow> p\<lparr>anthropicOutputTokens := int64_of big v\<rparr>
              | None \<Rightarrow> p))
      else if type = Some (JStr ''message_stop'') then recordAnthropicTokens p
      else p)"

text \<open>The body of the loop of \<open>feed\<close> for one complete line, without its newline.\<close>

definition feed_line ::
  "(string \<Rightarrow> obj option) \<Rightarrow> (real \<Rightarrow> int) \<Rightarrow> time \<Rightarrow> string \<Rightarrow> sseParser \<Rightarrow> sseParser" where
  "feed_line unmarshal big now raw p =
     (let line = TrimRight raw CR in
      if \<not> HasPrefix line ''data: '' then p
      else
        let payload = drop 6 line in
        if payload = ''[DONE]''
        then (if sse_backendType p = ''anthropic'' then recordAnthropicTokens p else p)
        else
          case unmarshal payload of
            None \<Rightarrow> p
          | Some evt \<Rightarrow>
              if sse_backendType p = ''anthropic'' then handleAnthropicEvent big now evt p
              else handleOpenAIEvent big now evt p)"

lemma IndexByte_less: "IndexByte bs c = Some i \<Longrightarrow> i < length bs"
  by (induction bs arbitrary: i) (auto split: if_splits)

function feed_loop ::
  "(string \<Rightarrow> obj option) \<Rightarrow> (real \<Rightarrow> int) \<Rightarrow> time \<Rightarrow> string \<Rightarrow> sseParser \<Rightarrow> sseParser" where
  "feed_loop unmarshal big now bytes p =
     (case IndexByte bytes NL of
        None \<Rightarrow> (if bytes \<noteq> [] then p\<lparr>lineBuf := bytes\<rparr> else p)
      | Some idx \<Rightarrow>
          feed_loop unmarshal big now (drop (Suc idx) bytes)
            (feed_line unmarshal big now (take idx bytes) p))"
  by pat_completeness auto
termination
  by (relation "measure (\<lambda>(u, b, n, bytes, p). length bytes)") (auto dest: IndexByte_less)

declare feed_loop.simps [simp del]

definition feed ::
  "(string \<Rightarrow> obj option) \<Rightarrow> (real \<Rightarrow> int) \<Rightarrow> time \<Rightarrow> string \<Rightarrow> sseParser \<Rightarrow> sseParser" where
  "feed unmarshal big now bytes p =
     (if lineBuf p \<noteq> []
      then feed_loop unmarshal big now (lineBuf p @ bytes) (p\<lparr>lineBuf := []\<rparr>)
      else feed_loop unmarshal big now bytes p)"

definition recordFinal :: "time \<Rightarrow> sseParser \<Rightarrow> sseParser" where
  "recordFinal now p0 =
     (let p1 = (if sse_backendType p0 \<noteq> ''anthropic'' \<and> promptToks p0 > 0
                then sse_emit PromptTokens (of_int (promptToks p0)) p0 else p0);
          p2 = (if sse_backendType p0 \<noteq> ''anthropic'' \<and> completionToks p0 > 0
                then sse_emit CompletionTokens (of_int (completionToks p0)) p1 else p1);
          decodeSecs = Seconds (time_since now (t0FirstTok p0));
          p3 = (if ttftDone p0 \<and> completionToks p0 > 0 \<and> decodeSecs > 0
                then sse_emit GenerationTokensPerSec (of_int (completionToks p0) / decodeSecs) p2
                else p2);
          total = wrap64 (thinkChars p0 + contentChars p0);
          p4 = (if total > 0
                then sse_emit ThinkContentRatio (of_int (thinkChars p0) / of_int total) p3 else p3)
      in if promptToks p0 > 0
         then sse_emit PromptTokensPerRequest (of_int (promptToks p0)) p4 else p4)"

section \<open>The Ollama parser\<close>

record ollamaParser =
  oll_backendID :: string
  oll_model :: string
  oll_t0 :: time
  oll_ttftDone :: bool
  oll_emitted :: "measurement list"

definition newOllamaParser :: "string \<Rightarrow> string \<Rightarrow> time \<Rightarrow> ollamaParser" where
  "newOllamaParser backendID model t0 =
     \<lparr>oll_backendID = backendID, oll_model = model, oll_t0 = t0, oll_ttftDone = False, oll_emitted = []\<rparr>"

definition ollama_feed :: "time \<Rightarrow> string \<Rightarrow> ollamaParser \<Rightarrow> ollamaParser" where
  "ollama_feed now bytes p =
     (if \<not> oll_ttftDone p \<and> bytes \<noteq> []
      then p\<lparr>oll_emitted := oll_emitted p @
                [Measure TTFT (Seconds (time_since now (oll_t0 p))) (BackendAttrs (oll_backendID p) (oll_model p))],
             oll_ttftDone := True\<rparr>
      else p)"

definition ollama_recordFinal :: "ollamaParser \<Rightarrow> ollamaParser" where
  "ollama_recordFinal p = p"

section \<open>Lines\<close>

text \<open>The complete lines of a byte string and what follows the last newline.\<close>

fun complete_lines :: "string \<Rightarrow> string list \<times> string" where
  "complete_lines [] = ([], [])"
| "complete_lines (c # cs) =
     (let (ls, r) = complete_lines cs in
      if c = NL then ([] # ls, r)
      else case ls of [] \<Rightarrow> ([], c # r) | l # ls' \<Rightarrow> ((c # l) # ls', r))"

lemma complete_lines_IndexByte:
  "complete_lines bs =
     (case IndexByte bs NL of
        None \<Rightarrow> ([], bs)
      | Some i \<Rightarrow> (take i bs # fst (complete_lines (drop (Suc i) bs)),
                  snd (complete_lines (drop (Suc i) bs))))"
  by (induction bs) (auto split: option.split prod.split)

lemma complete_lines_append:
  "complete_lines (a @ b) =
     (fst (complete_lines a) @ fst (complete_lines (snd (complete_lines a) @ b)),
      snd (complete_lines (snd (complete_lines a) @ b)))"
  by (induction a) (auto simp: Let_def split: prod.split list.split)

lemma complete_lines_rest: "NL \<notin> set (snd (complete_lines bs))"
  by (induction bs) (auto simp: Let_def split: prod.split list.split)

lemma complete_lines_no_newline: "NL \<notin> set bs \<Longrightarrow> complete_lines bs = ([], bs)"
  by (induction bs) auto

section \<open>What a line does not touch\<close>

named_theorems sse_defs \<open>the operations of the SSE parser\<close>

declare sse_emit_def [sse_defs] appendContent_def [sse_defs] record_ttft_def [sse_defs]
  handleOpenAIEvent_def [sse_defs] recordAnthropicTokens_def [sse_defs]
  anthropic_delta_def [sse_defs] handleAnthropicEvent_def [sse_defs]

lemma lineBuf_out:
  "p\<lparr>lineBuf := x, contentChars := n\<rparr> = p\<lparr>contentChars := n, lineBuf := x\<rparr>"
  "p\<lparr>lineBuf := x, thinkChars := n\<rparr> = p\<lparr>thinkChars := n, lineBuf := x\<rparr>"
  by simp_all

lemma emit_lineBuf: "sse_emit i q (p\<lparr>lineBuf := x\<rparr>) = (sse_emit i q p)\<lparr>lineBuf := x\<rparr>"
  by (simp add: sse_emit_def)

lemma append_lineBuf: "appendContent t (p\<lparr>lineBuf := x\<rparr>) = (appendContent t p)\<lparr>lineBuf := x\<rparr>"
  by (simp add: appendContent_def Let_def)

lemma ttft_lineBuf: "record_ttft now (p\<lparr>lineBuf := x\<rparr>) = (record_ttft now p)\<lparr>lineBuf := x\<rparr>"
  by (simp add: record_ttft_def emit_lineBuf)

lemma anthropic_tokens_lineBuf:
  "recordAnthropicTokens (p\<lparr>lineBuf := x\<rparr>) = (recordAnthropicTokens p)\<lparr>lineBuf := x\<rparr>"
  by (simp add: recordAnthropicTokens_def Let_def sse_emit_def)

lemma anthropic_delta_lineBuf:
  "anthropic_delta now d (p\<lparr>lineBuf := x\<rparr>) = (anthropic_delta now d p)\<lparr>lineBuf := x\<rparr>"
  by (simp add: anthropic_delta_def Let_def ttft_lineBuf lineBuf_out append_lineBuf)

lemma anthropic_event_lineBuf:
  "handleAnthropicEvent big now e (p\<lparr>lineBuf := x\<rparr>) = (handleAnthropicEvent big now e p)\<lparr>lineBuf := x\<rparr>"
  by (simp add: handleAnthropicEvent_def Let_def anthropic_tokens_lineBuf anthropic_delta_lineBuf
      split: option.split)

lemma openai_event_lineBuf:
  "handleOpenAIEvent big now e (p\<lparr>lineBuf := x\<rparr>) = (handleOpenAIEvent big now e p)\<lparr>lineBuf := x\<rparr>"
  by (simp add: handleOpenAIEvent_def Let_def ttft_lineBuf lineBuf_out append_lineBuf
      split: option.split prod.split)

lemma feed_line_lineBuf:
  "feed_line u big now l (p\<lparr>lineBuf := x\<rparr>) = (feed_line u big now l p)\<lparr>lineBuf := x\<rparr>"
  by (simp add: feed_line_def Let_def anthropic_tokens_lineBuf anthropic_event_lineBuf
      openai_event_lineBuf split: option.split)

lemma feed_line_keeps_lineBuf [simp]: "lineBuf (feed_line u big now l p) = lineBuf p"
  using feed_line_lineBuf [where p = p and x = "lineBuf p"] by (simp del: feed_line_lineBuf) (metis sseParser.select_convs(7) sseParser.surjective sseParser.update_convs(7))

lemma fold_feed_line_lineBuf:
  "fold (feed_line u big now) ls (p\<lparr>lineBuf := x\<rparr>) = (fold (feed_line u big now) ls p)\<lparr>lineBuf := x\<rparr>"
  by (induction ls arbitrary: p) (simp_all add: feed_line_lineBuf)

lemma fold_feed_line_keeps_lineBuf [simp]: "lineBuf (fold (feed_line u big now) ls p) = lineBuf p"
  by (induction ls arbitrary: p) simp_all

text \<open>The loop of \<open>feed\<close> handles the complete lines in order and keeps the rest.\<close>

lemma feed_loop_lines:
  "feed_loop u big now bs p =
     (let (ls, r) = complete_lines bs in
      if r = [] then fold (feed_line u big now) ls p
      else (fold (feed_line u big now) ls p)\<lparr>lineBuf := r\<rparr>)"
proof (induction u big now bs p rule: feed_loop.induct)
  case (1 u big now bs p)
  show ?case
  proof (cases "IndexByte bs NL")
    case None
    then show ?thesis by (simp add: feed_loop.simps [of u big now bs] complete_lines_IndexByte [of bs])
  next
    case (Some i)
    with 1 show ?thesis
      by (simp add: feed_loop.simps [of u big now bs] complete_lines_IndexByte [of bs] split_beta Let_def)
  qed
qed

lemma feed_lines:
  assumes "NL \<notin> set (lineBuf p)"
  shows "feed u big now bs p =
    (fold (feed_line u big now) (fst (complete_lines (lineBuf p @ bs))) p)
      \<lparr>lineBuf := snd (complete_lines (lineBuf p @ bs))\<rparr>"
proof (cases "lineBuf p = []")
  case True
  have "q\<lparr>lineBuf := []\<rparr> = q" if "lineBuf q = []" for q :: sseParser
    using that by (cases q) simp
  with True show ?thesis
    by (simp add: feed_def feed_loop_lines split_beta)
next
  case False
  then show ?thesis
    by (simp add: feed_def feed_loop_lines split_beta fold_feed_line_lineBuf)
qed

section \<open>What does not depend on the clock\<close>

text \<open>The parser without the values of its clock reads.\<close>

definition forget_time :: "sseParser \<Rightarrow> sseParser" where
  "forget_time p = p\<lparr>t0FirstTok := 0, sse_emitted := untimed TTFT (sse_emitted p)\<rparr>"

definition record_ttft_untimed :: "sseParser \<Rightarrow> sseParser" where
  "record_ttft_untimed p = (sse_emit TTFT 0 p)\<lparr>ttftDone := True\<rparr>"

lemma forget_time_sel [simp]:
  "ttftDone (forget_time p) = ttftDone p" "lineBuf (forget_time p) = lineBuf p"
  "contentChars (forget_time p) = contentChars p" "thinkChars (forget_time p) = thinkChars p"
  "sse_backendType (forget_time p) = sse_backendType p"
  "anthropicInputTokens (forget_time p) = anthropicInputTokens p"
  "anthropicOutputTokens (forget_time p) = anthropicOutputTokens p"
  "promptToks (forget_time p) = promptToks p" "completionToks (forget_time p) = completionToks p"
  "contentBuf (forget_time p) = contentBuf p" "sse_truncated (forget_time p) = sse_truncated p"
  by (simp_all add: forget_time_def)

lemma forget_time_idem [simp]: "forget_time (forget_time p) = forget_time p"
  by (simp add: forget_time_def)

lemma forget_time_update [simp]:
  "forget_time (p\<lparr>contentChars := n\<rparr>) = (forget_time p)\<lparr>contentChars := n\<rparr>"
  "forget_time (p\<lparr>thinkChars := n\<rparr>) = (forget_time p)\<lparr>thinkChars := n\<rparr>"
  "forget_time (p\<lparr>promptToks := n\<rparr>) = (forget_time p)\<lparr>promptToks := n\<rparr>"
  "forget_time (p\<lparr>completionToks := n\<rparr>) = (forget_time p)\<lparr>completionToks := n\<rparr>"
  "forget_time (p\<lparr>anthropicInputTokens := n\<rparr>) = (forget_time p)\<lparr>anthropicInputTokens := n\<rparr>"
  "forget_time (p\<lparr>anthropicOutputTokens := n\<rparr>) = (forget_time p)\<lparr>anthropicOutputTokens := n\<rparr>"
  "forget_time (p\<lparr>lineBuf := x\<rparr>) = (forget_time p)\<lparr>lineBuf := x\<rparr>"
  by (simp_all add: forget_time_def)

lemma forget_time_ttft [simp]:
  "forget_time (record_ttft now p) = record_ttft_untimed (forget_time p)"
  by (simp add: forget_time_def record_ttft_def record_ttft_untimed_def sse_emit_def)

lemma forget_time_append [simp]: "forget_time (appendContent t p) = appendContent t (forget_time p)"
  by (simp add: forget_time_def appendContent_def Let_def)

lemma forget_time_emit [simp]:
  "i \<noteq> TTFT \<Longrightarrow> forget_time (sse_emit i q p) = sse_emit i q (forget_time p)"
  by (simp add: forget_time_def sse_emit_def)

lemma forget_time_anthropic_tokens [simp]:
  "forget_time (recordAnthropicTokens p) = recordAnthropicTokens (forget_time p)"
  by (simp add: recordAnthropicTokens_def Let_def forget_time_def sse_emit_def)

lemma ttft_sel [simp]:
  "contentChars (record_ttft now p) = contentChars p" "thinkChars (record_ttft now p) = thinkChars p"
  by (simp_all add: record_ttft_def sse_emit_def)

lemma forget_time_delta:
  "forget_time (anthropic_delta now d p) = forget_time (anthropic_delta now' d (forget_time p))"
  by (cases "ttftDone p") (simp_all add: anthropic_delta_def Let_def)

lemma forget_time_anthropic:
  "forget_time (handleAnthropicEvent big now e p) =
     forget_time (handleAnthropicEvent big now' e (forget_time p))"
  using forget_time_delta [of now _ p now']
  by (auto simp: handleAnthropicEvent_def Let_def split: option.split)

lemma forget_time_openai:
  "forget_time (handleOpenAIEvent big now e p) =
     forget_time (handleOpenAIEvent big now' e (forget_time p))"
proof -
  obtain content think where c: "firstDeltaContent e = (content, think)" by fastforce
  show ?thesis
    by (cases "ttftDone p"; cases "content = [] \<and> think = []"; cases "get_obj e ''usage''")
      (auto simp: handleOpenAIEvent_def Let_def c split: option.split)
qed

lemma forget_time_line:
  "forget_time (feed_line u big now l p) = forget_time (feed_line u big now' l (forget_time p))"
  using forget_time_anthropic [of big now _ p now'] forget_time_openai [of big now _ p now']
  by (simp add: feed_line_def Let_def split: option.split)

lemma forget_time_fold:
  "forget_time p = forget_time q \<Longrightarrow>
     forget_time (fold (feed_line u big now) ls p) = forget_time (fold (feed_line u big now') ls q)"
proof (induction ls arbitrary: p q)
  case Nil
  then show ?case by simp
next
  case (Cons l ls)
  have "forget_time (feed_line u big now l p) = forget_time (feed_line u big now' l q)"
    using Cons.prems forget_time_line [of u big now l p now'] forget_time_line [of u big now' l q now']
    by simp
  with Cons.IH show ?case by simp
qed

text \<open>Feeding a byte string in two pieces, at any two instants, is feeding it at once.\<close>

lemma feed_inv: "NL \<notin> set (lineBuf p) \<Longrightarrow> NL \<notin> set (lineBuf (feed u big now bs p))"
  by (simp add: feed_lines complete_lines_rest)

lemma feed_Nil: "NL \<notin> set (lineBuf p) \<Longrightarrow> feed u big now [] p = p"
  by (cases p) (simp add: feed_lines complete_lines_no_newline)

lemma feed_append:
  assumes "NL \<notin> set (lineBuf p)"
  shows "forget_time (feed u big t2 b (feed u big t1 a p)) = forget_time (feed u big t (a @ b) p)"
proof -
  let ?l = "fst (complete_lines (lineBuf p @ a))" and ?r = "snd (complete_lines (lineBuf p @ a))"
  let ?l' = "fst (complete_lines (?r @ b))" and ?r' = "snd (complete_lines (?r @ b))"
  have lines: "complete_lines (lineBuf p @ a @ b) = (?l @ ?l', ?r')"
    using complete_lines_append [of "lineBuf p @ a" b] by simp
  have "feed u big t2 b (feed u big t1 a p) =
      (fold (feed_line u big t2) ?l' (fold (feed_line u big t1) ?l p))\<lparr>lineBuf := ?r'\<rparr>"
    using assms by (simp add: feed_lines complete_lines_rest fold_feed_line_lineBuf)
  moreover have "feed u big t (a @ b) p =
      (fold (feed_line u big t) ?l' (fold (feed_line u big t) ?l p))\<lparr>lineBuf := ?r'\<rparr>"
    using assms by (simp add: feed_lines lines)
  moreover have "forget_time (fold (feed_line u big t2) ?l' (fold (feed_line u big t1) ?l p)) =
      forget_time (fold (feed_line u big t) ?l' (fold (feed_line u big t) ?l p))"
    by (intro forget_time_fold) simp
  ultimately show ?thesis by simp
qed

section \<open>The intercepted body\<close>

text \<open>A read error and whether its \<open>Timeout()\<close> is true; the end of the stream is one too.\<close>

datatype io_error = IoError (io_msg: string) (io_timeout: bool)

record 'p interceptedBody =
  ib_parser :: 'p
  ib_tee :: "CappedBuffer option"
  ib_hasOnClose :: bool
  ib_closed :: bool
  ib_readErr :: "io_error option"

text \<open>
  \<open>Read\<close>, given what the wrapped body returned; the same bytes and error go to the caller.
  \<open>Close\<close> returns the argument of the \<open>onClose\<close> call it makes, if it makes one.
\<close>

definition ib_Read ::
  "(time \<Rightarrow> string \<Rightarrow> 'p \<Rightarrow> 'p) \<Rightarrow> time \<Rightarrow> string \<Rightarrow> io_error option \<Rightarrow> 'p interceptedBody \<Rightarrow>
     (string \<times> io_error option) \<times> 'p interceptedBody" where
  "ib_Read feedp now bytes err b =
     (let b1 = (if err \<noteq> None then b\<lparr>ib_readErr := err\<rparr> else b);
          b2 = (if bytes \<noteq> []
                then b1\<lparr>ib_parser := feedp now bytes (ib_parser b1),
                        ib_tee := map_option (\<lambda>w. snd (CappedBuffer_Write bytes w)) (ib_tee b1)\<rparr>
                else b1)
      in ((bytes, err), b2))"

definition ib_Close :: "'p interceptedBody \<Rightarrow> io_error option option \<times> 'p interceptedBody" where
  "ib_Close b =
     (if ib_closed b then (None, b)
      else (if ib_hasOnClose b then Some (ib_readErr b) else None, b\<lparr>ib_closed := True\<rparr>))"

datatype ib_call = CallRead time string "io_error option" | CallClose

text \<open>A sequence of calls; the result lists the arguments of the \<open>onClose\<close> calls made.\<close>

fun ib_run ::
  "(time \<Rightarrow> string \<Rightarrow> 'p \<Rightarrow> 'p) \<Rightarrow> ib_call list \<Rightarrow> 'p interceptedBody \<Rightarrow>
     io_error option list \<times> 'p interceptedBody" where
  "ib_run feedp [] b = ([], b)"
| "ib_run feedp (CallRead now bytes err # cs) b = ib_run feedp cs (snd (ib_Read feedp now bytes err b))"
| "ib_run feedp (CallClose # cs) b =
     (let (called, b1) = ib_Close b; (later, b2) = ib_run feedp cs b1
      in (case called of None \<Rightarrow> later | Some e \<Rightarrow> e # later, b2))"

fun read_bytes :: "ib_call list \<Rightarrow> string" where
  "read_bytes [] = []"
| "read_bytes (CallRead now bytes err # cs) = bytes @ read_bytes cs"
| "read_bytes (CallClose # cs) = read_bytes cs"

text \<open>The last error of the reads before the first \<open>Close\<close>; no result when there is no \<open>Close\<close>.\<close>

fun close_error :: "io_error option \<Rightarrow> ib_call list \<Rightarrow> io_error option option" where
  "close_error e [] = None"
| "close_error e (CallRead now bytes err # cs) = close_error (if err \<noteq> None then err else e) cs"
| "close_error e (CallClose # cs) = Some e"

lemma ib_run_closed: "ib_closed b \<Longrightarrow> fst (ib_run feedp cs b) = []"
  by (induction cs arbitrary: b rule: read_bytes.induct)
    (auto simp: ib_Read_def ib_Close_def Let_def split: prod.split)

lemma ib_run_close_once:
  assumes "\<not> ib_closed b" and "ib_hasOnClose b"
  shows "fst (ib_run feedp cs b) = (case close_error (ib_readErr b) cs of None \<Rightarrow> [] | Some e \<Rightarrow> [e])"
  using assms
proof (induction cs arbitrary: b rule: read_bytes.induct)
  case (2 now bytes err cs)
  then show ?case by (simp add: ib_Read_def Let_def)
next
  case (3 cs)
  then show ?case
    using ib_run_closed [of "b\<lparr>ib_closed := True\<rparr>" feedp cs] by (simp add: ib_Close_def split_beta)
qed simp

lemma ib_run_tee:
  assumes "ib_tee b = Some w" and "cb.shows_prefix seen w"
  shows "\<exists>w'. ib_tee (snd (ib_run feedp cs b)) = Some w' \<and> cb_Max w' = cb_Max w \<and>
    cb.shows_prefix (seen @ read_bytes cs) w'"
  using assms
proof (induction cs arbitrary: b seen w rule: read_bytes.induct)
  case (2 now bytes err cs)
  let ?b = "snd (ib_Read feedp now bytes err b)"
  show ?case
  proof (cases "bytes = []")
    case True
    with 2 show ?thesis by (simp add: ib_Read_def Let_def)
  next
    case False
    let ?w = "snd (CappedBuffer_Write bytes w)"
    have "ib_tee ?b = Some ?w" using False 2(2) by (simp add: ib_Read_def Let_def)
    moreover have "cb.shows_prefix (seen @ bytes) ?w"
      using False 2(3) by (intro cb.shows_prefix_emit)
    moreover have "cb_Max ?w = cb_Max w" by (simp add: CappedBuffer_Write_def Let_def)
    ultimately show ?thesis using 2(1) [of ?b ?w "seen @ bytes"] by simp
  qed
next
  case (3 cs)
  then show ?case by (auto simp: ib_Close_def split_beta)
qed simp

text \<open>The body that \<open>modifyResponse\<close> installs on a captured streaming response.\<close>

definition capturing_body :: "'p \<Rightarrow> 'p interceptedBody" where
  "capturing_body p =
     \<lparr>ib_parser = p, ib_tee = Some \<lparr>cb_Max = MaxResponseBytes, cb_buf = [], cb_Truncated = False\<rparr>,
      ib_hasOnClose = True, ib_closed = False, ib_readErr = None\<rparr>"

section \<open>The contract of a stream parser\<close>

text \<open>
  What \<open>interceptedBody\<close> needs of a \<open>streamParser\<close>: how the bytes are cut into reads, and when the
  reads happen, does not change what the parser shows.
\<close>

locale stream_parser =
  fixes feedp :: "time \<Rightarrow> string \<Rightarrow> 'p \<Rightarrow> 'p"
    and observe :: "'p \<Rightarrow> 'o"
    and ready :: "'p \<Rightarrow> bool"
  assumes ready_feed: "ready p \<Longrightarrow> ready (feedp t bs p)"
    and feed_none: "ready p \<Longrightarrow> observe (feedp t [] p) = observe p"
    and feed_split: "ready p \<Longrightarrow> observe (feedp t2 b (feedp t1 a p)) = observe (feedp t (a @ b) p)"
begin

lemma feed_chunks:
  "ready p \<Longrightarrow> observe (fold (\<lambda>(t, bs). feedp t bs) chunks p) = observe (feedp t (concat (map snd chunks)) p)"
proof (induction chunks arbitrary: p)
  case Nil
  then show ?case by (simp add: feed_none)
next
  case (Cons c chunks)
  obtain t1 a where c: "c = (t1, a)" by (cases c)
  with Cons show ?case
    by (simp add: ready_feed feed_split)
qed

lemma ib_run_parser:
  "ready (ib_parser b) \<Longrightarrow>
     observe (ib_parser (snd (ib_run feedp cs b))) = observe (feedp t (read_bytes cs) (ib_parser b))"
proof (induction cs arbitrary: b rule: read_bytes.induct)
  case 1
  then show ?case by (simp add: feed_none)
next
  case (2 now bytes err cs)
  show ?case
  proof (cases "bytes = []")
    case True
    with 2 show ?thesis by (simp add: ib_Read_def Let_def)
  next
    case False
    let ?b = "snd (ib_Read feedp now bytes err b)"
    have "ib_parser ?b = feedp now bytes (ib_parser b)"
      using False by (simp add: ib_Read_def Let_def)
    with 2(1) [of ?b] 2(2) show ?thesis by (simp add: ready_feed feed_split)
  qed
next
  case (3 cs)
  then show ?case by (simp add: ib_Close_def split_beta)
qed

end

interpretation sse: stream_parser "feed u big" forget_time "\<lambda>p. NL \<notin> set (lineBuf p)" for u big
  by unfold_locales (simp_all add: feed_inv feed_Nil feed_append)

definition oll_forget_time :: "ollamaParser \<Rightarrow> ollamaParser" where
  "oll_forget_time p = p\<lparr>oll_emitted := untimed TTFT (oll_emitted p)\<rparr>"

interpretation oll: stream_parser ollama_feed oll_forget_time "\<lambda>_. True"
  by unfold_locales (auto simp: ollama_feed_def oll_forget_time_def)

interpretation capture: capped_sink appendContent contentBuf sse_truncated "\<lambda>_. maxContentCapture"
  captureContent
  by unfold_locales
    (auto simp: appendContent_def Let_def of_nat_diff nat_diff_distrib simp flip: length_greater_0_conv)

lemma capture_offers:
  "capture.shows_prefix offered p \<Longrightarrow> capture.shows_prefix (offered @ t) (appendContent t p)"
proof (cases "t = []")
  case True
  moreover assume "capture.shows_prefix offered p"
  ultimately show ?thesis by (simp add: appendContent_def)
qed (rule capture.shows_prefix_emit)

section \<open>The invariant of the telemetry\<close>

text \<open>
  The time to first token is recorded at most once, exactly when \<open>ttftDone\<close> is set; a parser of an
  OpenAI stream adds nothing to the token counters while it is fed, no parser touches the gauge of
  active requests, and the captured text stays within its cap.
\<close>

definition sse_inv :: "sseParser \<Rightarrow> bool" where
  "sse_inv p \<longleftrightarrow>
     length (filter (\<lambda>m. instrument m = TTFT) (sse_emitted p)) = (if ttftDone p then 1 else 0) \<and>
     (sse_backendType p \<noteq> ''anthropic'' \<longrightarrow>
        counted PromptTokens (sse_emitted p) = 0 \<and> counted CompletionTokens (sse_emitted p) = 0) \<and>
     counted ActiveRequests (sse_emitted p) = 0 \<and>
     length (contentBuf p) \<le> maxContentCapture"

lemma sse_inv_new: "sse_inv ((newSSEParser bid m ty t0)\<lparr>captureContent := c\<rparr>)"
  by (simp add: sse_inv_def newSSEParser_def)

lemma sse_inv_update [simp]:
  "sse_inv (p\<lparr>contentChars := n\<rparr>) = sse_inv p" "sse_inv (p\<lparr>thinkChars := n\<rparr>) = sse_inv p"
  "sse_inv (p\<lparr>promptToks := n\<rparr>) = sse_inv p" "sse_inv (p\<lparr>completionToks := n\<rparr>) = sse_inv p"
  "sse_inv (p\<lparr>anthropicInputTokens := n\<rparr>) = sse_inv p"
  "sse_inv (p\<lparr>anthropicOutputTokens := n\<rparr>) = sse_inv p"
  "sse_inv (p\<lparr>lineBuf := x\<rparr>) = sse_inv p"
  by (simp_all add: sse_inv_def)

lemma sse_inv_append [simp]: "sse_inv p \<Longrightarrow> sse_inv (appendContent t p)"
  by (auto simp: sse_inv_def appendContent_def Let_def)

lemma sse_inv_ttft [simp]: "sse_inv p \<Longrightarrow> \<not> ttftDone p \<Longrightarrow> sse_inv (record_ttft now p)"
  by (simp add: sse_inv_def record_ttft_def sse_emit_def)

lemma sse_inv_anthropic_tokens:
  "sse_inv p \<Longrightarrow> sse_backendType p = ''anthropic'' \<Longrightarrow> sse_inv (recordAnthropicTokens p)"
  by (simp add: sse_inv_def recordAnthropicTokens_def Let_def sse_emit_def) auto

lemma sse_inv_delta: "sse_inv p \<Longrightarrow> sse_inv (anthropic_delta now d p)"
  by (simp add: anthropic_delta_def Let_def)

lemma sse_inv_anthropic:
  "sse_inv p \<Longrightarrow> sse_backendType p = ''anthropic'' \<Longrightarrow> sse_inv (handleAnthropicEvent big now e p)"
  by (simp add: handleAnthropicEvent_def Let_def sse_inv_delta sse_inv_anthropic_tokens
      split: option.split)

lemma sse_inv_openai: "sse_inv p \<Longrightarrow> sse_inv (handleOpenAIEvent big now e p)"
  by (simp add: handleOpenAIEvent_def Let_def split: option.split prod.split)

lemma sse_inv_line: "sse_inv p \<Longrightarrow> sse_inv (feed_line u big now l p)"
  by (simp add: feed_line_def Let_def sse_inv_anthropic sse_inv_openai sse_inv_anthropic_tokens
      split: option.split)

lemma sse_inv_fold: "sse_inv p \<Longrightarrow> sse_inv (fold (feed_line u big now) ls p)"
  by (induction ls arbitrary: p) (simp_all add: sse_inv_line)

lemma sse_inv_feed: "sse_inv p \<Longrightarrow> sse_inv (feed u big now bs p)"
  by (simp add: feed_def feed_loop_lines split_beta Let_def sse_inv_fold)

lemma sse_inv_chunks:
  "sse_inv p \<Longrightarrow> sse_inv (fold (\<lambda>(t, bs). feed u big t bs) chunks p)"
  by (induction chunks arbitrary: p) (auto simp: sse_inv_feed)

lemma recordFinal_tokens:
  "counted PromptTokens (sse_emitted (recordFinal now p)) =
     counted PromptTokens (sse_emitted p) +
     (if sse_backendType p \<noteq> ''anthropic'' \<and> promptToks p > 0 then of_int (promptToks p) else 0)"
  "counted CompletionTokens (sse_emitted (recordFinal now p)) =
     counted CompletionTokens (sse_emitted p) +
     (if sse_backendType p \<noteq> ''anthropic'' \<and> completionToks p > 0 then of_int (completionToks p) else 0)"
  by (simp_all add: recordFinal_def Let_def sse_emit_def)

lemma recordFinal_active:
  "counted ActiveRequests (sse_emitted (recordFinal now p)) = counted ActiveRequests (sse_emitted p)"
  by (simp add: recordFinal_def Let_def sse_emit_def)

lemma recordFinal_ttft:
  "filter (\<lambda>m. instrument m = TTFT) (sse_emitted (recordFinal now p)) =
     filter (\<lambda>m. instrument m = TTFT) (sse_emitted p)"
  by (simp add: recordFinal_def Let_def sse_emit_def)

section \<open>Idle timeout\<close>

text \<open>
  \<open>idleTimeoutBody\<close>: a goroutine reads the upstream body into a channel of capacity one
  (\<open>readLoop\<close>); \<open>Read\<close> takes a result from the channel, or what an earlier result left over, or
  gives up when the timer fires. In the system state \<open>idle_src\<close> is what the upstream body is still
  going to return (its last result has an error), \<open>idle_ch\<close> the content of the channel,
  \<open>idle_out\<close> the bytes that \<open>Read\<close> has returned so far, \<open>idle_errs\<close> the upstream errors it has
  returned and \<open>idle_timeouts\<close> the errors of the timer.
\<close>

type_synonym readResult = "string \<times> io_error option"

record idleTimeoutBody =
  idle_pending :: string
  idle_pendErr :: "io_error option"

record idle_system =
  idle_body :: idleTimeoutBody
  idle_src :: "readResult list"
  idle_ch :: "readResult list"
  idle_done :: bool
  idle_out :: string
  idle_errs :: "io_error list"
  idle_timeouts :: "io_error list"
  idle_rcClosed :: bool

text \<open>\<open>Read\<close> into a slice of length \<open>n\<close> when bytes are pending, and with a result of the channel.\<close>

definition read_pending :: "nat \<Rightarrow> idleTimeoutBody \<Rightarrow> readResult \<times> idleTimeoutBody" where
  "read_pending n b =
     (let k = min n (length (idle_pending b));
          b1 = b\<lparr>idle_pending := drop k (idle_pending b)\<rparr>
      in if idle_pending b1 = []
         then ((take k (idle_pending b), idle_pendErr b1), b1\<lparr>idle_pendErr := None\<rparr>)
         else ((take k (idle_pending b), None), b1))"

definition read_result :: "nat \<Rightarrow> readResult \<Rightarrow> idleTimeoutBody \<Rightarrow> readResult \<times> idleTimeoutBody" where
  "read_result n r b =
     (let (buf, err) = r; k = min n (length buf)
      in if k < length buf
         then ((take k buf, None), b\<lparr>idle_pending := drop k buf, idle_pendErr := err\<rparr>)
         else ((take k buf, err), b))"

definition idle_returns :: "readResult \<Rightarrow> idle_system \<Rightarrow> idle_system" where
  "idle_returns r s =
     s\<lparr>idle_out := idle_out s @ fst r,
       idle_errs := idle_errs s @ (case snd r of None \<Rightarrow> [] | Some e \<Rightarrow> [e])\<rparr>"

definition idle_timeout_error :: io_error where
  "idle_timeout_error = IoError ''backend idle timeout'' False"

inductive idle_step :: "idle_system \<Rightarrow> idle_system \<Rightarrow> bool" where
  loop_skips: "\<not> idle_done s \<Longrightarrow> idle_src s = ([], None) # rest \<Longrightarrow>
     idle_step s (s\<lparr>idle_src := rest\<rparr>)"
| loop_sends: "\<not> idle_done s \<Longrightarrow> idle_src s = (buf, err) # rest \<Longrightarrow> buf \<noteq> [] \<or> err \<noteq> None \<Longrightarrow>
     idle_ch s = [] \<Longrightarrow>
     idle_step s (s\<lparr>idle_src := rest, idle_ch := [(buf, err)], idle_done := (err \<noteq> None)\<rparr>)"
| reads_pending: "idle_pending (idle_body s) \<noteq> [] \<Longrightarrow> read_pending n (idle_body s) = (r, b) \<Longrightarrow>
     idle_step s (idle_returns r (s\<lparr>idle_body := b\<rparr>))"
| reads_channel: "idle_pending (idle_body s) = [] \<Longrightarrow> idle_ch s = q # rest \<Longrightarrow>
     read_result n q (idle_body s) = (r, b) \<Longrightarrow>
     idle_step s (idle_returns r (s\<lparr>idle_body := b, idle_ch := rest\<rparr>))"
| times_out: "idle_pending (idle_body s) = [] \<Longrightarrow>
     idle_step s (s\<lparr>idle_timeouts := idle_timeouts s @ [idle_timeout_error], idle_rcClosed := True\<rparr>)"

definition newIdleTimeoutBody :: "readResult list \<Rightarrow> idle_system" where
  "newIdleTimeoutBody src =
     \<lparr>idle_body = \<lparr>idle_pending = [], idle_pendErr = None\<rparr>, idle_src = src, idle_ch = [],
      idle_done = False, idle_out = [], idle_errs = [], idle_timeouts = [], idle_rcClosed = False\<rparr>"

definition result_bytes :: "readResult list \<Rightarrow> string" where
  "result_bytes rs = concat (map fst rs)"

text \<open>What was returned, what is left over, what is in the channel and what is still to come.\<close>

definition idle_all :: "idle_system \<Rightarrow> string" where
  "idle_all s = idle_out s @ idle_pending (idle_body s) @ result_bytes (idle_ch s) @ result_bytes (idle_src s)"

lemma read_pending_bytes: "read_pending n b = (r, b') \<Longrightarrow> fst r @ idle_pending b' = idle_pending b"
  by (auto simp: read_pending_def Let_def split: if_splits)

lemma read_result_bytes:
  "read_result n q b = (r, b') \<Longrightarrow> idle_pending b = [] \<Longrightarrow> fst r @ idle_pending b' = fst q"
  by (auto simp: read_result_def Let_def split: if_splits prod.splits)

lemma idle_step_all: "idle_step s s' \<Longrightarrow> idle_all s' = idle_all s"
  by (induction rule: idle_step.induct)
    (auto simp: idle_all_def idle_returns_def result_bytes_def dest: read_pending_bytes read_result_bytes)

text \<open>
  An upstream error is the last thing that leaves the channel: while it waits behind bytes, and
  once it has been returned, nothing is left in front of or behind it.
\<close>

definition idle_inv :: "idle_system \<Rightarrow> bool" where
  "idle_inv s \<longleftrightarrow>
     length (idle_ch s) \<le> 1 \<and>
     (idle_errs s \<noteq> [] \<longrightarrow> idle_done s \<and> idle_ch s = [] \<and> idle_pending (idle_body s) = []) \<and>
     (idle_pendErr (idle_body s) \<noteq> None \<longrightarrow>
        idle_done s \<and> idle_ch s = [] \<and> idle_pending (idle_body s) \<noteq> []) \<and>
     (\<forall>q \<in> set (idle_ch s). snd q \<noteq> None \<longrightarrow> idle_done s)"

lemma idle_inv_pending:
  assumes "idle_inv s" and "idle_pending (idle_body s) \<noteq> []"
    and "read_pending n (idle_body s) = (r, b)"
  shows "idle_inv (idle_returns r (s\<lparr>idle_body := b\<rparr>))"
  using assms
  by (auto simp: idle_inv_def idle_returns_def read_pending_def Let_def split: if_splits option.splits)

lemma idle_inv_channel:
  assumes "idle_inv s" and "idle_pending (idle_body s) = []" and "idle_ch s = q # rest"
    and "read_result n q (idle_body s) = (r, b)"
  shows "idle_inv (idle_returns r (s\<lparr>idle_body := b, idle_ch := rest\<rparr>))"
  using assms
  by (auto simp: idle_inv_def idle_returns_def read_result_def Let_def
      split: if_splits option.splits prod.splits)

lemma idle_inv_step: "idle_step s s' \<Longrightarrow> idle_inv s \<Longrightarrow> idle_inv s'"
proof (induction rule: idle_step.induct)
  case (reads_pending s n r b)
  then show ?case by (intro idle_inv_pending)
next
  case (reads_channel s q rest n r b)
  then show ?case by (intro idle_inv_channel)
qed (auto simp: idle_inv_def)

definition idle_reachable :: "readResult list \<Rightarrow> idle_system \<Rightarrow> bool" where
  "idle_reachable src s \<longleftrightarrow> idle_step\<^sup>*\<^sup>* (newIdleTimeoutBody src) s"

lemma idle_reachable_inv:
  "idle_reachable src s \<Longrightarrow> idle_inv s \<and> idle_all s = result_bytes src"
  unfolding idle_reachable_def
proof (induction rule: rtranclp_induct)
  case base
  then show ?case
    by (simp add: idle_inv_def idle_all_def newIdleTimeoutBody_def result_bytes_def)
next
  case (step s s')
  then show ?case using idle_inv_step idle_step_all by metis
qed

lemma openai_event_capture:
  assumes "capture.shows_prefix seen p"
  shows "capture.shows_prefix (seen @ fst (firstDeltaContent e)) (handleOpenAIEvent big now e p)"
proof -
  obtain content think where c: "firstDeltaContent e = (content, think)" by fastforce
  have same: "capture.shows_prefix s (p\<lparr>contentChars := a, thinkChars := b\<rparr>) = capture.shows_prefix s p"
    "capture.shows_prefix s (p\<lparr>promptToks := a\<rparr>) = capture.shows_prefix s p"
    "capture.shows_prefix s (p\<lparr>completionToks := a\<rparr>) = capture.shows_prefix s p"
    "capture.shows_prefix s (record_ttft now p) = capture.shows_prefix s p" for s a b p
    by (simp_all add: capture.shows_prefix_def record_ttft_def sse_emit_def)
  have "capture.shows_prefix (seen @ content) (appendContent content (q\<lparr>contentChars := a, thinkChars := b\<rparr>))"
    if "capture.shows_prefix seen q" for q a b
    using that by (intro capture_offers) (simp add: same)
  with assms show ?thesis
    by (auto simp: handleOpenAIEvent_def Let_def c same split: option.split)
qed

lemma openai_events_capture:
  "capture.shows_prefix seen p \<Longrightarrow>
     capture.shows_prefix (seen @ concat (map (\<lambda>(t, e). fst (firstDeltaContent e)) evts))
       (fold (\<lambda>(t, e). handleOpenAIEvent big t e) evts p)"
proof (induction evts arbitrary: seen p)
  case Nil
  then show ?case by simp
next
  case (Cons te evts)
  obtain t e where te: "te = (t, e)" by (cases te)
  with Cons.IH [OF openai_event_capture [OF Cons.prems, of e big t]] show ?case by simp
qed

section \<open>Properties\<close>

text \<open>
  C5: telemetry does not depend on how the network cuts the stream. However the bytes of a response
  are split into reads, mid-line and mid-event included, and whenever the reads happen, a new
  parser ends with the same token counts, the same captured text, the same partial line and the
  same measurements (the time to first token apart from its value) as if it had been fed all
  bytes at once.
\<close>

theorem sse_chunk_independent:
  "forget_time (fold (\<lambda>(t, bs). feed u big t bs) chunks
      ((newSSEParser bid m ty t0)\<lparr>captureContent := c\<rparr>)) =
   forget_time (feed u big t (concat (map snd chunks)) ((newSSEParser bid m ty t0)\<lparr>captureContent := c\<rparr>))"
  by (rule sse.feed_chunks) (simp add: newSSEParser_def)


definition sample_unmarshal :: "string \<Rightarrow> obj option" where
  "sample_unmarshal s =
     (if s = ''{}'' then Some [(''usage'', JObj [(''prompt_tokens'', JNum 7)])] else None)"


text \<open>
  The captured response is the beginning of the answer. After any events of an OpenAI stream, a
  capturing parser holds exactly the first 32768 bytes of the concatenated content of the events,
  and is marked as truncated exactly when there was more.
\<close>

theorem sse_capture_is_prefix:
  "let p = fold (\<lambda>(t, e). handleOpenAIEvent big t e) evts
      ((newSSEParser bid m ty t0)\<lparr>captureContent := True\<rparr>)
   in contentBuf p = take 32768 (concat (map (\<lambda>(t, e). fst (firstDeltaContent e)) evts)) \<and>
    (sse_truncated p \<longleftrightarrow> 32768 < length (concat (map (\<lambda>(t, e). fst (firstDeltaContent e)) evts)))"
proof -
  have "capture.shows_prefix [] ((newSSEParser bid m ty t0)\<lparr>captureContent := True\<rparr>)"
    by (simp add: capture.shows_prefix_def newSSEParser_def)
  from openai_events_capture [OF this, of evts big] show ?thesis
    by (simp add: Let_def capture.shows_prefix_def) (simp add: maxContentCapture_def)
qed

text \<open>
  C14: the body wrapper is transparent and closes once. For any sequence of reads and closes of a
  streamed response, the parser ends as if it had been fed all bytes at once, the capture buffer
  holds exactly the first bytes up to its limit, and the completion callback runs once for any
  number of closes, with the last read error before the first of them.
\<close>

theorem interceptedBody_run:
  "let b = capturing_body ((newSSEParser bid m ty t0)\<lparr>captureContent := c\<rparr>)
   in forget_time (ib_parser (snd (ib_run (feed u big) calls b))) =
      forget_time (feed u big t (read_bytes calls) (ib_parser b)) \<and>
    map_option cb_buf (ib_tee (snd (ib_run (feed u big) calls b))) =
      Some (take (nat MaxResponseBytes) (read_bytes calls)) \<and>
    fst (ib_run (feed u big) calls b) = (case close_error None calls of None \<Rightarrow> [] | Some e \<Rightarrow> [e])"
proof -
  define b where "b = capturing_body ((newSSEParser bid m ty t0)\<lparr>captureContent := c\<rparr>)"
  have parser: "forget_time (ib_parser (snd (ib_run (feed u big) calls b))) =
      forget_time (feed u big t (read_bytes calls) (ib_parser b))"
    by (rule sse.ib_run_parser) (simp add: b_def capturing_body_def newSSEParser_def)
  have "\<exists>w'. ib_tee (snd (ib_run (feed u big) calls b)) = Some w' \<and> cb_Max w' = MaxResponseBytes \<and>
      cb.shows_prefix ([] @ read_bytes calls) w'"
    using ib_run_tee [of b "\<lparr>cb_Max = MaxResponseBytes, cb_buf = [], cb_Truncated = False\<rparr>" "[]" "feed u big" calls]
    by (simp add: b_def capturing_body_def cb.shows_prefix_def)
  then have tee: "map_option cb_buf (ib_tee (snd (ib_run (feed u big) calls b))) =
      Some (take (nat MaxResponseBytes) (read_bytes calls))"
    by (auto simp: cb.shows_prefix_def)
  have once: "fst (ib_run (feed u big) calls b) = (case close_error None calls of None \<Rightarrow> [] | Some e \<Rightarrow> [e])"
    using ib_run_close_once [of b "feed u big" calls] by (simp add: b_def capturing_body_def)
  from parser tee once show ?thesis unfolding Let_def b_def by blast
qed

text \<open>
  C7: the idle timeout loses no byte. Under every interleaving of the reading goroutine, reads with
  slices of any length and timer expirations, what was returned is a prefix of what the upstream
  body delivers, in order and without duplication; and when the upstream error has been returned,
  every byte received before it has been returned.
\<close>

theorem idleTimeoutBody_lossless:
  assumes "idle_reachable src s"
  shows "prefix (idle_out s) (result_bytes src) \<and>
    (idle_errs s \<noteq> [] \<longrightarrow> idle_out s @ result_bytes (idle_src s) = result_bytes src)"
  using idle_reachable_inv [OF assms]
  by (auto simp: idle_all_def idle_inv_def result_bytes_def intro: prefixI [OF sym])

theorem idleTimeoutBody_lossless_witness:
  "\<exists>s. idle_reachable [(''abc'', Some (IoError ''EOF'' False))] s \<and> idle_out s = ''ab'' \<and>
     prefix (idle_out s) ''abc''"
proof -
  let ?src = "[(''abc'', Some (IoError ''EOF'' False))]"
  let ?s0 = "newIdleTimeoutBody ?src"
  let ?s1 = "?s0\<lparr>idle_src := [], idle_ch := ?src, idle_done := True\<rparr>"
  let ?s2 = "idle_returns (''ab'', None)
    (?s1\<lparr>idle_body := \<lparr>idle_pending = ''c'', idle_pendErr = Some (IoError ''EOF'' False)\<rparr>, idle_ch := []\<rparr>)"
  have "idle_step ?s0 ?s1"
    using idle_step.loop_sends [of ?s0 "''abc''" "Some (IoError ''EOF'' False)" "[]"]
    by (simp add: newIdleTimeoutBody_def)
  moreover have "idle_step ?s1 ?s2"
    by (rule idle_step.reads_channel [where n = 2 and q = "(''abc'', Some (IoError ''EOF'' False))" and rest = "[]"])
      (simp_all add: newIdleTimeoutBody_def read_result_def)
  ultimately have reach: "idle_reachable ?src ?s2"
    unfolding idle_reachable_def by (meson converse_rtranclp_into_rtranclp r_into_rtranclp)
  have "prefix (idle_out ?s2) ''abc''"
    using idleTimeoutBody_lossless [OF reach] by (simp add: result_bytes_def)
  moreover have "idle_out ?s2 = ''ab''" by (simp add: idle_returns_def newIdleTimeoutBody_def)
  ultimately show ?thesis using reach by blast
qed

end
