(* ===== verification/Header_Ops.thy ===== *)
theory Header_Ops
  imports Body_Rewrite
begin

text \<open>
  The header side of \<open>internal/proxy/server.go\<close>: the director that turns an incoming request into
  the upstream one, the configured header operations, redaction for capture files, the bearer
  check, error responses and the model list.

  \<open>range\<close> visits the \<open>rename\<close> and \<open>add\<close> maps in an order chosen by the runtime: the orders are
  arguments. \<open>net/url\<close> stays a parameter: \<open>resolve_path\<close> is the path that \<open>ResolveReference\<close> gives
  for an endpoint path, \<open>None\<close> when the path does not parse.
\<close>

section \<open>Header operations\<close>

definition header_Values :: "header \<Rightarrow> string \<Rightarrow> string list" where
  "header_Values h name = (case gm_get h (CanonicalHeaderKey name) of None \<Rightarrow> [] | Some vs \<Rightarrow> vs)"

definition rename_header :: "string \<times> string \<Rightarrow> header \<Rightarrow> header" where
  "rename_header sd h =
     (let (src, dst) = sd; vs = header_Values h src in
      if vs = [] then h
      else header_Del src (fold (header_Add dst) vs (header_Del dst h)))"

text \<open>The values are read before the deletion: \<open>Values\<close> returns the slice itself, not a view by name.\<close>

definition remove_header :: "string \<Rightarrow> header \<Rightarrow> header" where
  "remove_header name h =
     (if CanonicalHeaderKey name = ''X-Forwarded-For'' then gm_set ''X-Forwarded-For'' [] h
      else header_Del name h)"

definition applyHeaderOps :: "string list \<Rightarrow> string list \<Rightarrow> HeadersOp \<Rightarrow> header \<Rightarrow> header" where
  "applyHeaderOps ren_order add_order op h =
     fold (\<lambda>(name, v). header_Set name v) (gm_range add_order (hdr_Add op))
       (fold remove_header (hdr_Remove op)
         (fold rename_header (gm_range ren_order (hdr_Rename op)) h))"

section \<open>The director\<close>

record target_url =
  tu_Scheme :: string
  tu_Host :: string

record outbound =
  ob_Scheme :: string
  ob_URLHost :: string
  ob_Host :: string
  ob_Path :: string
  ob_Header :: header
  ob_Body :: string
  ob_ContentLength :: int

definition auth_type :: "Backend \<Rightarrow> string" where
  "auth_type backend =
     (if be_AuthType backend = ''''
      then (if be_Type backend = ''anthropic'' then ''x-api-key'' else ''bearer'')
      else be_AuthType backend)"

definition set_auth :: "Backend \<Rightarrow> header \<Rightarrow> header" where
  "set_auth backend h =
     (if be_APIKey backend = '''' then h
      else
        let h1 = (if auth_type backend = ''x-api-key'' then header_Set ''x-api-key'' (be_APIKey backend) h
                  else header_Set ''Authorization'' (''Bearer '' @ be_APIKey backend) h)
        in if be_Type backend = ''anthropic'' \<and> header_Get h1 ''anthropic-version'' = ''''
           then header_Set ''anthropic-version'' ''2023-06-01'' h1 else h1)"

text \<open>The iteration orders of the backend's and the route's rename and add maps.\<close>

record op_orders =
  oo_backend_rename :: "string list"
  oo_backend_add :: "string list"
  oo_route_rename :: "string list"
  oo_route_add :: "string list"

definition director ::
  "(string \<Rightarrow> string option) \<Rightarrow> op_orders \<Rightarrow> target_url \<Rightarrow> Backend \<Rightarrow> string \<Rightarrow> string \<Rightarrow> HeadersOp \<Rightarrow>
     outbound \<Rightarrow> outbound" where
  "director resolve_path ords target backend body pathOverride routeHeaders req =
     (let endpointPath = (if pathOverride \<noteq> '''' then pathOverride else ob_Path req);
          path = (case resolve_path endpointPath of None \<Rightarrow> endpointPath | Some p \<Rightarrow> p);
          h1 = set_auth backend (ob_Header req);
          h2 = header_Del ''Transfer-Encoding'' (header_Set ''Content-Type'' ''application/json'' h1);
          h3 = (if \<not> HeadersOp_IsZero (be_Headers backend)
                then applyHeaderOps (oo_backend_rename ords) (oo_backend_add ords) (be_Headers backend) h2
                else h2);
          h4 = (if \<not> HeadersOp_IsZero routeHeaders
                then applyHeaderOps (oo_route_rename ords) (oo_route_add ords) routeHeaders h3 else h3)
      in \<lparr>ob_Scheme = tu_Scheme target, ob_URLHost = tu_Host target, ob_Host = tu_Host target,
          ob_Path = path, ob_Header = h4, ob_Body = body, ob_ContentLength = int (length body)\<rparr>)"

definition routeHeaders :: "Resolution option \<Rightarrow> HeadersOp" where
  "routeHeaders res =
     (case res of None \<Rightarrow> \<lparr>hdr_Add = [], hdr_Remove = [], hdr_Rename = []\<rparr> | Some r \<Rightarrow> res_Headers r)"

section \<open>Redaction\<close>

definition sensitive_headers :: "string list" where
  "sensitive_headers =
     [''authorization'', ''x-api-key'', ''cookie'', ''set-cookie'', ''proxy-authorization'']"

fun join_strings :: "string \<Rightarrow> string list \<Rightarrow> string" where
  "join_strings sep [] = ''''"
| "join_strings sep [s] = s"
| "join_strings sep (s # ss) = s @ sep @ join_strings sep ss"

definition safeHeaders :: "(string \<Rightarrow> string) \<Rightarrow> header \<Rightarrow> (string, string) gomap" where
  "safeHeaders ulow h =
     gm_map_values (\<lambda>k vs.
       if ToLower ulow k \<in> set sensitive_headers then ''[redacted]'' else join_strings '', '' vs) h"

section \<open>Responses\<close>

datatype resp_body = JsonBody json | TextBody string

record http_response =
  rs_status :: int
  rs_header :: header
  rs_body :: resp_body

definition jsonError :: "header \<Rightarrow> string \<Rightarrow> int \<Rightarrow> http_response" where
  "jsonError h msg code =
     \<lparr>rs_status = code, rs_header = header_Set ''Content-Type'' ''application/json'' h,
      rs_body = JsonBody (JObj [(''error'', JObj [(''message'', JStr msg), (''type'', JStr ''proxy_error'')])])\<rparr>"

text \<open>\<open>http.Error\<close> for a wrong method\<close>

definition method_not_allowed :: http_response where
  "method_not_allowed =
     \<lparr>rs_status = 405, rs_header = [(''Content-Type'', [''text/plain; charset=utf-8'']),
        (''X-Content-Type-Options'', [''nosniff''])], rs_body = TextBody (''method not allowed'' @ [CHR 0x0A])\<rparr>"

definition bearerAuth :: "Config \<Rightarrow> header \<Rightarrow> http_response option" where
  "bearerAuth cfg h =
     (let key = srv_APIKey (cfg_Server cfg) in
      if key = '''' then None
      else if header_Get h ''Authorization'' \<noteq> ''Bearer '' @ key
      then Some (jsonError (header_Set ''WWW-Authenticate'' ''Bearer realm=\"hikyaku\"'' []) ''unauthorized'' 401)
      else None)"

definition model_entry :: "Route \<Rightarrow> json" where
  "model_entry route =
     JObj [(''id'', JStr (rt_VirtualModel route)), (''object'', JStr ''model''), (''created'', JInt 0),
           (''owned_by'', JStr ''hikyaku'')]"

text \<open>A nil slice is encoded as null.\<close>

definition handleModels :: "Config \<Rightarrow> string \<Rightarrow> http_response" where
  "handleModels cfg meth =
     (if meth \<noteq> ''GET'' then method_not_allowed
      else
        let entries = map model_entry (filter (\<lambda>r. rt_AutoRoute r = None) (cfg_Routes cfg)) in
        \<lparr>rs_status = 200, rs_header = header_Set ''Content-Type'' ''application/json'' [],
         rs_body = JsonBody (JObj [(''object'', JStr ''list''),
           (''data'', if entries = [] then JNull else JArr entries)])\<rparr>)"

section \<open>What each operation leaves\<close>

named_theorems header_simps \<open>values of a header after an operation\<close>

lemma header_Values_Set [header_simps]:
  "header_Values (header_Set n v h) m =
     (if CanonicalHeaderKey m = CanonicalHeaderKey n then [v] else header_Values h m)"
  by (simp add: header_Values_def header_Set_def gomap_simps)

lemma header_Values_Del [header_simps]:
  "header_Values (header_Del n h) m =
     (if CanonicalHeaderKey m = CanonicalHeaderKey n then [] else header_Values h m)"
  by (simp add: header_Values_def header_Del_def gomap_simps)

lemma header_Values_Add [header_simps]:
  "header_Values (header_Add n v h) m =
     (if CanonicalHeaderKey m = CanonicalHeaderKey n then header_Values h n @ [v] else header_Values h m)"
  by (simp add: header_Values_def header_Add_def Let_def gomap_simps split: option.split)

lemma header_Values_canon:
  "CanonicalHeaderKey m = CanonicalHeaderKey n \<Longrightarrow> header_Values h m = header_Values h n"
  by (simp add: header_Values_def)

lemma header_Values_Add_all [header_simps]:
  "header_Values (fold (header_Add n) vs h) m =
     (if CanonicalHeaderKey m = CanonicalHeaderKey n then header_Values h n @ vs else header_Values h m)"
  by (induction vs arbitrary: h) (auto simp: header_simps dest: header_Values_canon)

lemma header_Values_remove [header_simps]:
  "header_Values (remove_header n h) m =
     (if CanonicalHeaderKey m = CanonicalHeaderKey n then [] else header_Values h m)"
  by (simp add: remove_header_def header_simps) (simp add: header_Values_def gomap_simps)

lemma header_Values_rename [header_simps]:
  "header_Values (rename_header (src, dst) h) m =
     (if header_Values h src = [] then header_Values h m
      else if CanonicalHeaderKey m = CanonicalHeaderKey src then []
      else if CanonicalHeaderKey m = CanonicalHeaderKey dst then header_Values h src
      else header_Values h m)"
  by (simp add: rename_header_def header_simps)

lemma header_Get_Values: "header_Get h n = (case header_Values h n of [] \<Rightarrow> '''' | v # _ \<Rightarrow> v)"
  by (simp add: header_Get_def header_Values_def split: option.split list.split)

lemma header_Values_removes:
  "header_Values (fold remove_header ns h) m =
     (if CanonicalHeaderKey m \<in> CanonicalHeaderKey ` set ns then [] else header_Values h m)"
  by (induction ns arbitrary: h) (auto simp: header_simps)

lemma header_Values_sets_other:
  "CanonicalHeaderKey m \<notin> CanonicalHeaderKey ` fst ` set nvs \<Longrightarrow>
     header_Values (fold (\<lambda>(n, v). header_Set n v) nvs h) m = header_Values h m"
  by (induction nvs arbitrary: h) (auto simp: header_simps)

lemma header_Values_sets:
  assumes "(n, v) \<in> set nvs"
    and "\<forall>(n', v') \<in> set nvs. CanonicalHeaderKey n' = CanonicalHeaderKey n \<longrightarrow> v' = v"
  shows "header_Values (fold (\<lambda>(n, v). header_Set n v) nvs h) n = [v]"
  using assms
proof (induction nvs rule: rev_induct)
  case (snoc nv nvs)
  then show ?case by (cases nv) (auto simp: header_simps)
qed simp

lemma header_Values_renames_other:
  "\<forall>(s, d) \<in> set sds. CanonicalHeaderKey m \<noteq> CanonicalHeaderKey s \<and> CanonicalHeaderKey m \<noteq> CanonicalHeaderKey d \<Longrightarrow>
     header_Values (fold rename_header sds h) m = header_Values h m"
  by (induction sds arbitrary: h) (auto simp: header_simps)

text \<open>The three groups of names of an operation block.\<close>

lemma applyHeaderOps_add:
  assumes "range_order adds (hdr_Add op)" and "gm_get (hdr_Add op) n = Some v"
    and "\<forall>n' v'. gm_get (hdr_Add op) n' = Some v' \<and> CanonicalHeaderKey n' = CanonicalHeaderKey n \<longrightarrow> v' = v"
  shows "header_Values (applyHeaderOps rens adds op h) n = [v]"
  unfolding applyHeaderOps_def
proof (rule header_Values_sets)
  show "(n, v) \<in> set (gm_range adds (hdr_Add op))"
    using assms(1,2) gm_get_in_keys [OF assms(2)] by (simp add: gm_range_mem range_order_def)
  show "\<forall>(n', v') \<in> set (gm_range adds (hdr_Add op)).
      CanonicalHeaderKey n' = CanonicalHeaderKey n \<longrightarrow> v' = v"
    using assms(3) by (auto simp: gm_range_mem)
qed

lemma applyHeaderOps_not_added:
  assumes "\<forall>n' \<in> set (gm_keys (hdr_Add op)). CanonicalHeaderKey n' \<noteq> CanonicalHeaderKey n"
  shows "header_Values (applyHeaderOps rens adds op h) n =
    (if CanonicalHeaderKey n \<in> CanonicalHeaderKey ` set (hdr_Remove op) then []
     else header_Values (fold rename_header (gm_range rens (hdr_Rename op)) h) n)"
proof -
  have "CanonicalHeaderKey n \<notin> CanonicalHeaderKey ` fst ` set (gm_range adds (hdr_Add op))"
    using assms gm_get_in_keys by (force simp: gm_range_mem)
  then show ?thesis
    by (simp add: applyHeaderOps_def header_Values_sets_other header_Values_removes)
qed

lemma applyHeaderOps_untouched:
  assumes "\<forall>n' \<in> set (gm_keys (hdr_Add op)). CanonicalHeaderKey n' \<noteq> CanonicalHeaderKey n"
    and "CanonicalHeaderKey n \<notin> CanonicalHeaderKey ` set (hdr_Remove op)"
    and "\<forall>(s, d) \<in> set (hdr_Rename op).
      CanonicalHeaderKey n \<noteq> CanonicalHeaderKey s \<and> CanonicalHeaderKey n \<noteq> CanonicalHeaderKey d"
  shows "header_Values (applyHeaderOps rens adds op h) n = header_Values h n"
proof -
  have "\<forall>(s, d) \<in> set (gm_range rens (hdr_Rename op)).
      CanonicalHeaderKey n \<noteq> CanonicalHeaderKey s \<and> CanonicalHeaderKey n \<noteq> CanonicalHeaderKey d"
    using assms(3) by (auto simp: gm_range_mem dest!: map_of_SomeD)
  with assms(1,2) show ?thesis
    by (simp add: applyHeaderOps_not_added header_Values_renames_other)
qed

lemma fold_rename_single:
  assumes "range_order rens [(s, d)]"
  shows "fold rename_header (gm_range rens [(s, d)]) h = rename_header (s, d) h"
proof -
  have "distinct rens" "set rens = {s}" using assms by (auto simp: range_order_def)
  then have "rens = [s]" by (cases rens) (auto simp: subset_singleton_iff)
  then show ?thesis by (simp add: gm_range_def List.map_filter_def)
qed

lemma canonical_names [header_simps]:
  "CanonicalHeaderKey ''x-api-key'' = ''X-Api-Key''"
  "CanonicalHeaderKey ''Authorization'' = ''Authorization''"
  "CanonicalHeaderKey ''anthropic-version'' = ''Anthropic-Version''"
  "CanonicalHeaderKey ''Content-Type'' = ''Content-Type''"
  "CanonicalHeaderKey ''Transfer-Encoding'' = ''Transfer-Encoding''"
  "CanonicalHeaderKey ''X-Original-Auth'' = ''X-Original-Auth''"
  by code_simp+

text \<open>The credentials after \<open>set_auth\<close> and the fixed headers of the director.\<close>

lemma set_auth_bearer:
  assumes "be_APIKey backend \<noteq> ''''" and "auth_type backend \<noteq> ''x-api-key''"
  shows "header_Values (set_auth backend h) ''Authorization'' = [''Bearer '' @ be_APIKey backend]"
    and "header_Values (set_auth backend h) ''x-api-key'' = header_Values h ''x-api-key''"
  using assms by (simp_all add: set_auth_def Let_def header_simps)

lemma set_auth_key:
  assumes "be_APIKey backend \<noteq> ''''" and "auth_type backend = ''x-api-key''"
  shows "header_Values (set_auth backend h) ''x-api-key'' = [be_APIKey backend]"
    and "header_Values (set_auth backend h) ''Authorization'' = header_Values h ''Authorization''"
  using assms by (simp_all add: set_auth_def Let_def header_simps)

lemma director_header_plain:
  assumes "HeadersOp_IsZero (be_Headers backend)" and "HeadersOp_IsZero rh"
    and "CanonicalHeaderKey n \<notin> {''Content-Type'', ''Transfer-Encoding''}"
  shows "header_Values (ob_Header (director rp ords target backend body po rh req)) n =
    header_Values (set_auth backend (ob_Header req)) n"
  using assms by (simp add: director_def Let_def header_simps)

section \<open>Properties\<close>

text \<open>
  C34: what a header block does to each name. Whatever order the runtime visits the maps in: an added
  name has exactly its configured value; a removed name that is not added has no value; a name that
  no operation mentions is unchanged; and for a block with one rename whose source is present and
  whose names are otherwise not mentioned, the destination has all values of the source and the
  source has none, unless both are the same name, in which case the header is lost.
\<close>

theorem applyHeaderOps_effect:
  assumes adds: "range_order adds (hdr_Add op)" and rens: "range_order rens (hdr_Rename op)"
  shows "(\<forall>n v. gm_get (hdr_Add op) n = Some v \<and>
      (\<forall>n' v'. gm_get (hdr_Add op) n' = Some v' \<and> CanonicalHeaderKey n' = CanonicalHeaderKey n \<longrightarrow> v' = v) \<longrightarrow>
      header_Values (applyHeaderOps rens adds op h) n = [v]) \<and>
    (\<forall>n. n \<in> set (hdr_Remove op) \<and>
      (\<forall>n' \<in> set (gm_keys (hdr_Add op)). CanonicalHeaderKey n' \<noteq> CanonicalHeaderKey n) \<longrightarrow>
      header_Values (applyHeaderOps rens adds op h) n = []) \<and>
    (\<forall>n. (\<forall>n' \<in> set (gm_keys (hdr_Add op)) \<union> set (hdr_Remove op) \<union> fst ` set (hdr_Rename op) \<union> snd ` set (hdr_Rename op).
        CanonicalHeaderKey n' \<noteq> CanonicalHeaderKey n) \<longrightarrow>
      header_Values (applyHeaderOps rens adds op h) n = header_Values h n) \<and>
    (\<forall>s d. hdr_Rename op = [(s, d)] \<and> header_Values h s \<noteq> [] \<and>
      (\<forall>n' \<in> set (gm_keys (hdr_Add op)) \<union> set (hdr_Remove op).
        CanonicalHeaderKey n' \<noteq> CanonicalHeaderKey s \<and> CanonicalHeaderKey n' \<noteq> CanonicalHeaderKey d) \<longrightarrow>
      header_Values (applyHeaderOps rens adds op h) s = [] \<and>
      header_Values (applyHeaderOps rens adds op h) d =
        (if CanonicalHeaderKey d = CanonicalHeaderKey s then [] else header_Values h s))"
proof (intro conjI allI impI; (elim conjE)?)
  show "header_Values (applyHeaderOps rens adds op h) n = [v]"
    if "gm_get (hdr_Add op) n = Some v"
      "\<forall>n' v'. gm_get (hdr_Add op) n' = Some v' \<and> CanonicalHeaderKey n' = CanonicalHeaderKey n \<longrightarrow> v' = v" for n v
    using applyHeaderOps_add [OF adds that] .
  show "header_Values (applyHeaderOps rens adds op h) n = []"
    if "n \<in> set (hdr_Remove op)"
      "\<forall>n' \<in> set (gm_keys (hdr_Add op)). CanonicalHeaderKey n' \<noteq> CanonicalHeaderKey n" for n
    using that by (simp add: applyHeaderOps_not_added)
  show "header_Values (applyHeaderOps rens adds op h) n = header_Values h n"
    if "\<forall>n' \<in> set (gm_keys (hdr_Add op)) \<union> set (hdr_Remove op) \<union> fst ` set (hdr_Rename op) \<union> snd ` set (hdr_Rename op).
        CanonicalHeaderKey n' \<noteq> CanonicalHeaderKey n" for n
    by (rule applyHeaderOps_untouched) (use that in \<open>force+\<close>)
  fix s d
  assume single: "hdr_Rename op = [(s, d)]" "header_Values h s \<noteq> []"
    and other: "\<forall>n' \<in> set (gm_keys (hdr_Add op)) \<union> set (hdr_Remove op).
      CanonicalHeaderKey n' \<noteq> CanonicalHeaderKey s \<and> CanonicalHeaderKey n' \<noteq> CanonicalHeaderKey d"
  have renamed: "header_Values (applyHeaderOps rens adds op h) n = header_Values (rename_header (s, d) h) n"
    if "n = s \<or> n = d" for n
  proof -
    have "\<forall>n' \<in> set (gm_keys (hdr_Add op)). CanonicalHeaderKey n' \<noteq> CanonicalHeaderKey n"
      "CanonicalHeaderKey n \<notin> CanonicalHeaderKey ` set (hdr_Remove op)"
      using other that by (force)+
    then show ?thesis
      using fold_rename_single [of rens s d h] rens single(1) by (simp add: applyHeaderOps_not_added)
  qed
  show "header_Values (applyHeaderOps rens adds op h) s = []"
    using single(2) by (simp add: renamed header_simps)
  show "header_Values (applyHeaderOps rens adds op h) d =
      (if CanonicalHeaderKey d = CanonicalHeaderKey s then [] else header_Values h s)"
    using single(2) by (simp add: renamed header_simps)
qed

theorem applyHeaderOps_effect_witness:
  "header_Values (applyHeaderOps [''A''] [''X-Tag''] \<lparr>hdr_Add = [(''X-Tag'', ''t'')], hdr_Remove = [''Cookie''], hdr_Rename = [(''A'', ''B'')]\<rparr>
      [(''A'', [''1'', ''2'']), (''Cookie'', [''c''])]) ''B'' = [''1'', ''2'']"
proof -
  let ?op = "\<lparr>hdr_Add = [(''X-Tag'', ''t'')], hdr_Remove = [''Cookie''], hdr_Rename = [(''A'', ''B'')]\<rparr>"
    and ?h = "[(''A'', [''1'', ''2'']), (''Cookie'', [''c''])]"
  have canon: "CanonicalHeaderKey ''A'' = ''A''" "CanonicalHeaderKey ''B'' = ''B''"
    "CanonicalHeaderKey ''X-Tag'' = ''X-Tag''" "CanonicalHeaderKey ''Cookie'' = ''Cookie''"
    by code_simp+
  have "range_order [''X-Tag''] (hdr_Add ?op)" "range_order [''A''] (hdr_Rename ?op)"
    by (simp_all add: range_order_def)
  from applyHeaderOps_effect [OF this, of ?h] show ?thesis
    by (auto simp: canon header_Values_def)
qed

text \<open>
  C20: which credentials reach the backend. With a configured key and no header block, the upstream
  request carries the backend's key under the header of its authentication type; the other
  credential header is forwarded from the client. In particular the client's \<open>Authorization\<close>, which
  holds the proxy's own token, reaches every backend that is addressed by \<open>x-api-key\<close>. And a
  rename of \<open>Authorization\<close> in a route's block copies the backend's key, not the client's
  credentials, because the block is applied after the key is set.
\<close>

theorem director_credentials:
  assumes key: "be_APIKey backend \<noteq> ''''" and plain: "HeadersOp_IsZero (be_Headers backend)"
  shows "(HeadersOp_IsZero rh \<and> auth_type backend \<noteq> ''x-api-key'' \<longrightarrow>
      header_Get (ob_Header (director rp ords target backend body po rh req)) ''Authorization'' =
        ''Bearer '' @ be_APIKey backend \<and>
      header_Get (ob_Header (director rp ords target backend body po rh req)) ''x-api-key'' =
        header_Get (ob_Header req) ''x-api-key'') \<and>
    (HeadersOp_IsZero rh \<and> auth_type backend = ''x-api-key'' \<longrightarrow>
      header_Get (ob_Header (director rp ords target backend body po rh req)) ''x-api-key'' =
        be_APIKey backend \<and>
      header_Get (ob_Header (director rp ords target backend body po rh req)) ''Authorization'' =
        header_Get (ob_Header req) ''Authorization'') \<and>
    (rh = \<lparr>hdr_Add = [], hdr_Remove = [], hdr_Rename = [(''Authorization'', ''X-Original-Auth'')]\<rparr> \<and>
      range_order (oo_route_rename ords) (hdr_Rename rh) \<and> auth_type backend \<noteq> ''x-api-key'' \<longrightarrow>
      header_Get (ob_Header (director rp ords target backend body po rh req)) ''X-Original-Auth'' =
        ''Bearer '' @ be_APIKey backend)"
proof (intro conjI impI; elim conjE)
  assume rh: "HeadersOp_IsZero rh" "auth_type backend \<noteq> ''x-api-key''"
  with key plain show
    "header_Get (ob_Header (director rp ords target backend body po rh req)) ''Authorization'' =
        ''Bearer '' @ be_APIKey backend"
    "header_Get (ob_Header (director rp ords target backend body po rh req)) ''x-api-key'' =
        header_Get (ob_Header req) ''x-api-key''"
    by (simp_all add: header_Get_Values director_header_plain canonical_names set_auth_bearer)
next
  assume rh: "HeadersOp_IsZero rh" "auth_type backend = ''x-api-key''"
  with key plain show
    "header_Get (ob_Header (director rp ords target backend body po rh req)) ''x-api-key'' =
        be_APIKey backend"
    "header_Get (ob_Header (director rp ords target backend body po rh req)) ''Authorization'' =
        header_Get (ob_Header req) ''Authorization''"
    by (simp_all add: header_Get_Values director_header_plain canonical_names set_auth_key)
next
  let ?rh = "\<lparr>hdr_Add = [], hdr_Remove = [], hdr_Rename = [(''Authorization'', ''X-Original-Auth'')]\<rparr>"
  assume rh: "rh = ?rh" and order: "range_order (oo_route_rename ords) (hdr_Rename rh)"
    and bearer: "auth_type backend \<noteq> ''x-api-key''"
  let ?h = "header_Del ''Transfer-Encoding'' (header_Set ''Content-Type'' ''application/json''
    (set_auth backend (ob_Header req)))"
  have "ob_Header (director rp ords target backend body po rh req) =
      applyHeaderOps (oo_route_rename ords) (oo_route_add ords) ?rh ?h"
    using plain rh by (simp add: director_def Let_def HeadersOp_IsZero_def)
  moreover have "header_Values (applyHeaderOps (oo_route_rename ords) (oo_route_add ords) ?rh ?h) ''X-Original-Auth'' =
      header_Values (rename_header (''Authorization'', ''X-Original-Auth'') ?h) ''X-Original-Auth''"
    using order rh by (simp add: applyHeaderOps_not_added fold_rename_single)
  ultimately show "header_Get (ob_Header (director rp ords target backend body po rh req)) ''X-Original-Auth'' =
      ''Bearer '' @ be_APIKey backend"
    using set_auth_bearer(1) [OF key bearer] by (simp add: header_Get_Values header_simps)
qed

theorem director_credentials_witness:
  "header_Get (ob_Header (director (\<lambda>_. None) \<lparr>oo_backend_rename = [], oo_backend_add = [], oo_route_rename = [], oo_route_add = []\<rparr>
      \<lparr>tu_Scheme = ''https'', tu_Host = ''api''\<rparr> ((plain_backend ''anthropic'')\<lparr>be_APIKey := ''k''\<rparr>) ''{}'' ''''
      (routeHeaders None)
      \<lparr>ob_Scheme = '''', ob_URLHost = '''', ob_Host = '''', ob_Path = ''/v1/messages'',
       ob_Header = [(''Authorization'', [''Bearer proxy-token''])], ob_Body = '''', ob_ContentLength = 0\<rparr>))
    ''Authorization'' = ''Bearer proxy-token''"
proof -
  let ?b = "(plain_backend ''anthropic'')\<lparr>be_APIKey := ''k''\<rparr>"
  have "be_APIKey ?b \<noteq> ''''" "HeadersOp_IsZero (be_Headers ?b)"
    by (simp_all add: plain_backend_def HeadersOp_IsZero_def)
  note cred = director_credentials [OF this]
  have "HeadersOp_IsZero (routeHeaders None)" "auth_type ?b = ''x-api-key''"
    by (simp_all add: routeHeaders_def HeadersOp_IsZero_def auth_type_def plain_backend_def)
  then show ?thesis
    using cred [of "routeHeaders None"] by (simp add: header_Get_def canonical_names)
qed

lemma gm_map_values_cong:
  "map fst m = map fst m' \<Longrightarrow> (\<And>i. i < length m \<Longrightarrow> f (fst (m ! i)) (snd (m ! i)) = f (fst (m' ! i)) (snd (m' ! i))) \<Longrightarrow>
     gm_map_values f m = gm_map_values f m'"
proof (rule nth_equalityI)
  assume keys: "map fst m = map fst m'"
  then have len: "length m = length m'" by (rule map_eq_imp_length_eq)
  then show "length (gm_map_values f m) = length (gm_map_values f m')" by (simp add: gm_map_values_def)
  assume eq: "\<And>i. i < length m \<Longrightarrow> f (fst (m ! i)) (snd (m ! i)) = f (fst (m' ! i)) (snd (m' ! i))"
  fix i
  assume "i < length (gm_map_values f m)"
  then have i: "i < length m" by (simp add: gm_map_values_def)
  with keys len have "fst (m ! i) = fst (m' ! i)" by (metis length_map nth_map)
  with eq [OF i] i len show "gm_map_values f m ! i = gm_map_values f m' ! i"
    by (simp add: gm_map_values_def split_beta)
qed

text \<open>
  Capture files do not depend on secrets. Two header maps with the same names that differ only in
  the values of credential and cookie headers, in any capitalisation, are recorded as the same
  map; each of those headers is recorded as redacted and every other one as its joined values.
\<close>

theorem safeHeaders_redacts:
  "(\<forall>h'. map fst h = map fst h' \<and>
      (\<forall>i < length h. ToLower ulow (fst (h ! i)) \<notin> set sensitive_headers \<longrightarrow> snd (h ! i) = snd (h' ! i)) \<longrightarrow>
      safeHeaders ulow h = safeHeaders ulow h') \<and>
   (\<forall>k vs. gm_get h k = Some vs \<longrightarrow> gm_get (safeHeaders ulow h) k =
      Some (if ToLower ulow k \<in> set sensitive_headers then ''[redacted]'' else join_strings '', '' vs))"
proof (intro conjI allI impI; (elim conjE)?)
  fix h' :: header
  assume keys: "map fst h = map fst h'"
    and vals: "\<forall>i < length h. ToLower ulow (fst (h ! i)) \<notin> set sensitive_headers \<longrightarrow> snd (h ! i) = snd (h' ! i)"
  have "fst (h ! i) = fst (h' ! i)" if "i < length h" for i
    using keys that by (metis length_map nth_map)
  with vals show "safeHeaders ulow h = safeHeaders ulow h'"
    unfolding safeHeaders_def by (intro gm_map_values_cong keys) auto
next
  show "gm_get (safeHeaders ulow h) k =
      Some (if ToLower ulow k \<in> set sensitive_headers then ''[redacted]'' else join_strings '', '' vs)"
    if "gm_get h k = Some vs" for k vs
    using that by (simp add: safeHeaders_def gomap_simps)
qed

theorem safeHeaders_redacts_witness:
  "safeHeaders id [(''Authorization'', [''Bearer a'']), (''Accept'', [''x''])] =
   safeHeaders id [(''Authorization'', [''Bearer b'']), (''Accept'', [''x''])]"
proof -
  let ?h = "[(''Authorization'', [''Bearer a'']), (''Accept'', [''x''])]"
    and ?h' = "[(''Authorization'', [''Bearer b'']), (''Accept'', [''x''])]"
  have "ToLower id ''Authorization'' = ''authorization''" by code_simp
  then have "\<forall>i < length ?h. ToLower id (fst (?h ! i)) \<notin> set sensitive_headers \<longrightarrow> snd (?h ! i) = snd (?h' ! i)"
    by (auto simp: less_Suc_eq sensitive_headers_def)
  then show ?thesis using safeHeaders_redacts [of ?h id] by simp
qed

end
