(* ===== verification/Capture_Payload.thy ===== *)
theory Capture_Payload
  imports Message_Capture Header_Ops
begin

text \<open>
  What a capture file holds: the snapshots of \<open>internal/capture/capture.go\<close> and the functions of
  \<open>internal/proxy/server.go\<close> that fill them for one request (\<open>startCapture\<close>, \<open>finishSuccess\<close>,
  \<open>finishError\<close>, \<open>rawJSON\<close>, \<open>timing\<close>). The JSON encoder, the validity test, the time formats and
  \<open>filepath.Join\<close> are the fields of \<open>capture_env\<close>; the outcome of each file operation is the record
  \<open>disk\<close>.
\<close>

section \<open>Snapshots\<close>

text \<open>A raw JSON message is \<open>None\<close> when it is nil.\<close>

record RequestSnapshot =
  rq_Method :: string
  rq_Path :: string
  rq_VirtualModel :: string
  rq_RealModel :: string
  rq_Backend :: string
  rq_Protocol :: string
  rq_Streaming :: bool
  rq_Headers :: "(string, string) gomap"
  rq_Incoming :: "string option"
  rq_Resolved :: "string option"

record ResponseSnapshot =
  rp_StatusCode :: int
  rp_Body :: "string option"
  rp_SSE :: string
  rp_Truncated :: bool
  rp_Error :: string

record TimingSnapshot =
  tm_StartedAt :: string
  tm_DurationMs :: real

record Payload =
  pl_RequestID :: string
  pl_Timestamp :: string
  pl_Request :: RequestSnapshot
  pl_Response :: ResponseSnapshot
  pl_Timing :: TimingSnapshot

definition zero_response :: ResponseSnapshot where
  "zero_response = \<lparr>rp_StatusCode = 0, rp_Body = None, rp_SSE = '''', rp_Truncated = False, rp_Error = ''''\<rparr>"

definition zero_timing :: TimingSnapshot where
  "zero_timing = \<lparr>tm_StartedAt = '''', tm_DurationMs = 0\<rparr>"

record capture_env =
  ce_valid :: "string \<Rightarrow> bool"
  ce_quote :: "string \<Rightarrow> string option"
  ce_rfc3339 :: "time \<Rightarrow> string"
  ce_stamp :: "string \<Rightarrow> string"
  ce_join :: "string \<Rightarrow> string \<Rightarrow> string"
  ce_indent :: "Payload \<Rightarrow> string option"
  ce_ulow :: "string \<Rightarrow> string"

record disk =
  dk_write :: write_outcome
  dk_rename :: "string option"
  dk_removable :: bool

section \<open>The context of one request\<close>

definition rawJSON :: "capture_env \<Rightarrow> string \<Rightarrow> string option" where
  "rawJSON ce b =
     (if length b = 0 then None
      else if ce_valid ce b then Some b
      else ce_quote ce b)"

text \<open>\<open>Microseconds\<close> truncates towards zero.\<close>

definition timing :: "capture_env \<Rightarrow> time \<Rightarrow> time \<Rightarrow> TimingSnapshot" where
  "timing ce now t0 =
     (let d = time_since now t0 in
      \<lparr>tm_StartedAt = ce_rfc3339 ce t0, tm_DurationMs = of_int (sgn d * (\<bar>d\<bar> div 1000)) / 1000\<rparr>)"

record captureCtx =
  cx_slot :: Slot
  cx_payload :: Payload

definition request_payload ::
  "capture_env \<Rightarrow> string \<Rightarrow> string \<Rightarrow> header \<Rightarrow> string \<Rightarrow> time \<Rightarrow> string \<Rightarrow> string \<Rightarrow> string \<Rightarrow> string \<Rightarrow> bool \<Rightarrow>
     string \<Rightarrow> string \<Rightarrow> Payload" where
  "request_payload ce meth path h rid t0 virtualModel realModel backendID protocol streaming rawBody resolvedBody =
     \<lparr>pl_RequestID = rid, pl_Timestamp = ce_rfc3339 ce t0,
      pl_Request =
        \<lparr>rq_Method = meth, rq_Path = path, rq_VirtualModel = virtualModel, rq_RealModel = realModel,
         rq_Backend = backendID, rq_Protocol = protocol, rq_Streaming = streaming,
         rq_Headers = safeHeaders (ce_ulow ce) h, rq_Incoming = rawJSON ce rawBody,
         rq_Resolved = rawJSON ce resolvedBody\<rparr>,
      pl_Response = zero_response, pl_Timing = zero_timing\<rparr>"

text \<open>\<open>Slot.Write\<close> of a payload: its file name and its bytes come from the payload.\<close>

definition write_payload ::
  "capture_env \<Rightarrow> disk \<Rightarrow> Slot \<Rightarrow> Payload \<Rightarrow> files \<Rightarrow> slot_error option \<times> files" where
  "write_payload ce dk sl p fs =
     Slot_Write (ce_join ce) (dk_write dk) (dk_rename dk) (dk_removable dk) (Some sl)
       (ce_stamp ce (pl_Timestamp p)) (pl_RequestID p) (ce_indent ce p) fs"

text \<open>A failed write is only logged. A nil context does nothing.\<close>

definition finishSuccess ::
  "capture_env \<Rightarrow> disk \<Rightarrow> time \<Rightarrow> time \<Rightarrow> ResponseSnapshot \<Rightarrow> captureCtx option \<Rightarrow> files \<Rightarrow> files" where
  "finishSuccess ce dk now t0 resp c fs =
     (case c of
        None \<Rightarrow> fs
      | Some cx \<Rightarrow>
          snd (write_payload ce dk (cx_slot cx)
            ((cx_payload cx)\<lparr>pl_Response := resp, pl_Timing := timing ce now t0\<rparr>) fs))"

definition finishError ::
  "capture_env \<Rightarrow> disk \<Rightarrow> time \<Rightarrow> time \<Rightarrow> string \<Rightarrow> captureCtx option \<Rightarrow> files \<Rightarrow> files" where
  "finishError ce dk now t0 msg c fs =
     (case c of
        None \<Rightarrow> fs
      | Some cx \<Rightarrow>
          snd (write_payload ce dk (cx_slot cx)
            ((cx_payload cx)\<lparr>pl_Response := zero_response\<lparr>rp_Error := msg\<rparr>,
               pl_Timing := timing ce now t0\<rparr>) fs))"

text \<open>The snapshot of a buffered response (the body cut at the cap) and of a streamed one.\<close>

definition buffered_snapshot :: "capture_env \<Rightarrow> int \<Rightarrow> string \<Rightarrow> ResponseSnapshot" where
  "buffered_snapshot ce status data =
     (let truncated = int (length data) > MaxResponseBytes;
          bodyForCap = (if truncated then take (nat MaxResponseBytes) data else data)
      in zero_response\<lparr>rp_StatusCode := status, rp_Body := rawJSON ce bodyForCap, rp_Truncated := truncated\<rparr>)"

definition new_tee :: "captureCtx option \<Rightarrow> CappedBuffer option" where
  "new_tee c = map_option (\<lambda>_. \<lparr>cb_Max = MaxResponseBytes, cb_buf = [], cb_Truncated = False\<rparr>) c"

definition streamed_snapshot :: "int \<Rightarrow> CappedBuffer \<Rightarrow> ResponseSnapshot" where
  "streamed_snapshot status b =
     zero_response\<lparr>rp_StatusCode := status, rp_SSE := cb_buf b, rp_Truncated := cb_Truncated b\<rparr>"

section \<open>Safe payloads\<close>

text \<open>
  A payload that may be shown: every credential and cookie header is redacted and the response is at
  most \<open>MaxResponseBytes\<close> long before it is quoted.
\<close>

definition headers_redacted :: "capture_env \<Rightarrow> RequestSnapshot \<Rightarrow> bool" where
  "headers_redacted ce rq \<longleftrightarrow>
     (\<forall>k v. gm_get (rq_Headers rq) k = Some v \<longrightarrow> ToLower (ce_ulow ce) k \<in> set sensitive_headers \<longrightarrow>
        v = ''[redacted]'')"

definition response_capped :: "capture_env \<Rightarrow> ResponseSnapshot \<Rightarrow> bool" where
  "response_capped ce rp \<longleftrightarrow>
     int (length (rp_SSE rp)) \<le> MaxResponseBytes \<and>
     (\<exists>d. int (length d) \<le> MaxResponseBytes \<and> rp_Body rp = rawJSON ce d)"

definition payload_safe :: "capture_env \<Rightarrow> Payload \<Rightarrow> bool" where
  "payload_safe ce p \<longleftrightarrow> headers_redacted ce (pl_Request p) \<and> response_capped ce (pl_Response p)"

text \<open>Every file that is not a temporary one is the complete encoding of a safe payload.\<close>

definition files_safe :: "capture_env \<Rightarrow> files \<Rightarrow> bool" where
  "files_safe ce fs \<longleftrightarrow>
     (\<forall>path bytes. gm_get fs path = Some bytes \<longrightarrow> HasSuffix path ''.tmp'' \<or>
        (\<exists>p. payload_safe ce p \<and> ce_indent ce p = Some bytes))"

definition ctx_redacted :: "capture_env \<Rightarrow> captureCtx option \<Rightarrow> bool" where
  "ctx_redacted ce c \<longleftrightarrow> (\<forall>cx. c = Some cx \<longrightarrow> headers_redacted ce (pl_Request (cx_payload cx)))"

lemma request_payload_redacted:
  "headers_redacted ce (pl_Request (request_payload ce m pa h rid t0 vm rm b pr st raw res))"
  by (auto simp: headers_redacted_def request_payload_def safeHeaders_def gomap_simps)

lemma zero_response_capped [simp]:
  "response_capped ce (zero_response\<lparr>rp_Error := msg\<rparr>)"
  by (auto simp: response_capped_def zero_response_def MaxResponseBytes_def rawJSON_def intro: exI [of _ "[]"])

lemma buffered_capped [simp]: "response_capped ce (buffered_snapshot ce status data)"
proof -
  let ?d = "if int (length data) > MaxResponseBytes then take (nat MaxResponseBytes) data else data"
  have "int (length ?d) \<le> MaxResponseBytes" by (simp add: MaxResponseBytes_def)
  then show ?thesis
    by (auto simp: response_capped_def buffered_snapshot_def Let_def zero_response_def MaxResponseBytes_def)
qed

lemma streamed_capped:
  assumes "int (length (cb_buf b)) \<le> MaxResponseBytes"
  shows "response_capped ce (streamed_snapshot status b)"
  using assms
  by (auto simp: response_capped_def streamed_snapshot_def zero_response_def rawJSON_def MaxResponseBytes_def
      intro: exI [of _ "[]"])

text \<open>The two ends of a capture keep the files safe.\<close>

lemma files_safe_write:
  assumes "files_safe ce fs" and "payload_safe ce p"
  shows "files_safe ce (snd (write_payload ce dk sl p fs))"
proof (cases "ce_indent ce p")
  case None
  with assms show ?thesis by (simp add: write_payload_def Slot_Write_def)
next
  case (Some bytes)
  let ?final = "ce_join ce (slot_folder sl) (capture_file_name (ce_stamp ce (pl_Timestamp p)) (pl_RequestID p))"
  obtain err fs' where w: "Slot_Write (ce_join ce) (dk_write dk) (dk_rename dk) (dk_removable dk) (Some sl)
      (ce_stamp ce (pl_Timestamp p)) (pl_RequestID p) (Some bytes) fs = (err, fs')" by fastforce
  note final = Slot_Write_final [OF w]
  have "HasSuffix path ''.tmp'' \<or> (\<exists>q. payload_safe ce q \<and> ce_indent ce q = Some b)"
    if "gm_get fs' path = Some b" for path b
  proof (cases "path = ?final")
    case True
    then show ?thesis
      using that final(1) assms Some by (auto simp: files_safe_def split: if_splits)
  next
    case False
    show ?thesis
    proof (cases "path = ?final @ ''.tmp''")
      case True
      then show ?thesis by (simp add: HasSuffix_def suffix_def)
    next
      case tmp: False
      then have "gm_get fs path = Some b" using final(2) [OF False tmp] that by simp
      then show ?thesis using assms(1) by (auto simp: files_safe_def)
    qed
  qed
  then show ?thesis by (simp add: files_safe_def write_payload_def Some w)
qed

lemma files_safe_error:
  "files_safe ce fs \<Longrightarrow> ctx_redacted ce c \<Longrightarrow> files_safe ce (finishError ce dk now t0 msg c fs)"
  by (auto simp: finishError_def ctx_redacted_def payload_safe_def intro!: files_safe_write split: option.split)

lemma files_safe_success:
  "files_safe ce fs \<Longrightarrow> ctx_redacted ce c \<Longrightarrow> response_capped ce resp \<Longrightarrow>
     files_safe ce (finishSuccess ce dk now t0 resp c fs)"
  by (auto simp: finishSuccess_def ctx_redacted_def payload_safe_def intro!: files_safe_write split: option.split)

end
