(* ===== verification/Proxy_Server.thy ===== *)
theory Proxy_Server
  imports Lb_System Request_Defender Request_Journal Sse_Stream Capture_Payload
begin

text \<open>
  \<open>internal/proxy/server.go\<close> and \<open>ollama.go\<close>: the state of the server and the request pipeline that
  puts the other components together, from the incoming request to the accounting at the end of
  the response, with every early return.

  \<open>proxyRequest\<close> is cut where other goroutines can observe it waiting: \<open>route_request\<close> (body, route,
  defenders, balancer), \<open>rewrite_request\<close> (the body), \<open>admit_request\<close> (encoding, gauges, capture),
  the semaphore, the three ends of a forwarded request (\<open>errorHandler\<close>, \<open>answer_buffered\<close>,
  \<open>stream_closed\<close>) and the deferred release. \<open>proxyRequest\<close> composes the first three. The theory
  \<open>Proxy_System\<close> interleaves them.

  A Go panic (a nil pointer or a write to a nil map) is the outcome \<open>Panicked\<close>; the HTTP server
  recovers it, so the state changes made before it remain. Counters of bytes and requests are
  unbounded integers. Log output is not modelled.
\<close>

section \<open>State\<close>

text \<open>
  The channels of the semaphores live at addresses, because a running request keeps the channel it
  acquired when a reload installs new ones: capacity and number of slots taken.
\<close>

record Server =
  ps_cfg :: Config
  ps_rtr :: Config
  ps_journal :: "Entry list option"
  ps_capture :: "Capture option"
  ps_balancer :: "Balancer option"
  ps_loopDetector :: loopDetector
  ps_semaphores :: "(string, nat) gomap"
  ps_chans :: "(nat \<times> nat) list"
  ps_bufferedBytes :: int
  ps_emitted :: "measurement list"
  ps_files :: files

text \<open>What the model does not define: codecs, quoting, hashing, URLs, the file system and the build.\<close>

record proxy_env =
  env_parse :: "string \<Rightarrow> json option"
  env_marshal :: "json \<Rightarrow> string option"
  env_sha256 :: "string \<Rightarrow> string"
  env_sprint :: "json list \<Rightarrow> string"
  env_ulow :: "string \<Rightarrow> string"
  env_big :: "real \<Rightarrow> int"
  env_quote :: "string \<Rightarrow> string"
  env_url :: "string \<Rightarrow> string + target_url"
  env_mkdir :: "string \<Rightarrow> string option"
  env_hardened :: bool
  env_capture :: capture_env

text \<open>What the runtime chooses during a request: instants, map orders, the request id.\<close>

record choices =
  ch_now :: time
  ch_unix :: int
  ch_pool :: "nat \<Rightarrow> string list"
  ch_groups :: "nat \<Rightarrow> string list"
  ch_rid :: string

definition buildSemaphores :: "Config \<Rightarrow> Server \<Rightarrow> Server" where
  "buildSemaphores cfg s =
     (let (sems, chans) =
        fold (\<lambda>b (sems, chans).
                if be_MaxConcurrency b > 0
                then (gm_set (be_ID b) (length chans) sems, chans @ [(nat (be_MaxConcurrency b), 0)])
                else (sems, chans)) (cfg_Backends cfg) ([], ps_chans s)
      in s\<lparr>ps_semaphores := sems, ps_chans := chans\<rparr>)"

definition capture_config :: "Config \<Rightarrow> CaptureConfig" where
  "capture_config cfg =
     \<lparr>cc_Enabled = sc_Enabled (cfg_SigMessageCapture cfg),
      cc_OutputFolder = sc_OutputFolder (cfg_SigMessageCapture cfg),
      cc_MaxMessages = sc_MaxMessages (cfg_SigMessageCapture cfg)\<rparr>"

definition capture_New :: "proxy_env \<Rightarrow> CaptureConfig \<Rightarrow> capture_error + Capture option" where
  "capture_New env c =
     (if env_hardened env then capture_New_hardened c else capture_New_debug (env_mkdir env) c)"

definition applyCaptureConfig :: "proxy_env \<Rightarrow> Config \<Rightarrow> Server \<Rightarrow> Server" where
  "applyCaptureConfig env cfg s =
     s\<lparr>ps_capture := (case capture_New env (capture_config cfg) of Inl _ \<Rightarrow> None | Inr c \<Rightarrow> c)\<rparr>"

definition server_New :: "proxy_env \<Rightarrow> Config \<Rightarrow> bool \<Rightarrow> Server" where
  "server_New env cfg journal =
     (let s0 = \<lparr>ps_cfg = cfg, ps_rtr = cfg, ps_journal = (if journal then Some [] else None),
                ps_capture = None, ps_balancer = None, ps_loopDetector = [], ps_semaphores = [],
                ps_chans = [], ps_bufferedBytes = 0, ps_emitted = [], ps_files = []\<rparr>;
          s1 = applyCaptureConfig env cfg (buildSemaphores cfg s0)
      in if cfg_Groups cfg \<noteq> [] then s1\<lparr>ps_balancer := Some (balancer_New cfg)\<rparr> else s1)"

text \<open>A reload replaces everything that is built from the configuration, the balancer included.\<close>

definition Reload :: "proxy_env \<Rightarrow> Config \<Rightarrow> Server \<Rightarrow> Server" where
  "Reload env cfg s =
     (let s1 = applyCaptureConfig env cfg (buildSemaphores cfg (s\<lparr>ps_rtr := cfg, ps_cfg := cfg\<rparr>));
          s2 = s1\<lparr>ps_loopDetector := []\<rparr>
      in s2\<lparr>ps_balancer := (if cfg_Groups cfg \<noteq> [] then Some (balancer_New cfg) else None)\<rparr>)"

section \<open>Semaphores\<close>

text \<open>
  \<open>acquireSemaphore\<close> returns the channel to release, if the backend has one. The result \<open>None\<close> is a
  call that has to wait; a cancelled wait is a step of the system theory.
\<close>

definition acquireSemaphore :: "string \<Rightarrow> Server \<Rightarrow> (nat option \<times> Server) option" where
  "acquireSemaphore backendID s =
     (case gm_get (ps_semaphores s) backendID of
        None \<Rightarrow> Some (None, s)
      | Some a \<Rightarrow>
          (case ps_chans s ! a of
             (cap, used) \<Rightarrow>
               if used < cap then Some (Some a, s\<lparr>ps_chans := (ps_chans s)[a := (cap, Suc used)]\<rparr>)
               else None))"

definition releaseSemaphore :: "nat option \<Rightarrow> Server \<Rightarrow> Server" where
  "releaseSemaphore h s =
     (case h of
        None \<Rightarrow> s
      | Some a \<Rightarrow> (case ps_chans s ! a of (cap, used) \<Rightarrow> s\<lparr>ps_chans := (ps_chans s)[a := (cap, used - 1)]\<rparr>))"

section \<open>Reading and routing a request\<close>

record http_request =
  in_Method :: string
  in_Path :: string
  in_Header :: header
  in_RawBody :: string
  in_readFails :: bool

datatype 'a pipeline = Responded http_response | Panicked | Proceed 'a

text \<open>A stage of the pipeline followed by the next one, which an early return skips.\<close>

definition pbind ::
  "'a pipeline \<times> Server \<Rightarrow> ('a \<Rightarrow> Server \<Rightarrow> 'b pipeline \<times> Server) \<Rightarrow> 'b pipeline \<times> Server" where
  "pbind m f =
     (case m of
        (Responded resp, s) \<Rightarrow> (Responded resp, s)
      | (Panicked, s) \<Rightarrow> (Panicked, s)
      | (Proceed x, s) \<Rightarrow> f x s)"

text \<open>
  The whole body, or the response to a body that is too large or cannot be read. The limit is a 64-bit
  product; \<open>http.MaxBytesReader\<close> takes a negative one as 0.
\<close>

definition read_body :: "Config \<Rightarrow> http_request \<Rightarrow> http_response + string" where
  "read_body cfg r =
     (let maxMB = srv_MaxRequestBodyMB (cfg_Server cfg) in
      if maxMB > 0 \<and> int (length (in_RawBody r)) > max 0 (wrap64 (maxMB * 1024 * 1024))
      then Inl (jsonError [] (''request body exceeds max_request_body_mb limit ('' @ Itoa maxMB @ '' MB)'') 413)
      else if in_readFails r then Inl (jsonError [] ''failed to read request body'' 400)
      else Inr (in_RawBody r))"

text \<open>
  \<open>json.Unmarshal\<close> into a map: an object fills it, a null leaves it nil (\<open>Some None\<close>), anything else
  is an error.
\<close>

definition decode_body :: "proxy_env \<Rightarrow> string \<Rightarrow> obj option option" where
  "decode_body env raw =
     (case env_parse env raw of
        Some (JObj m) \<Rightarrow> Some (Some m)
      | Some JNull \<Rightarrow> Some None
      | _ \<Rightarrow> None)"

definition affinity_key_of :: "proxy_env \<Rightarrow> http_request \<Rightarrow> obj \<Rightarrow> GroupConfig \<Rightarrow> string option" where
  "affinity_key_of env r body grpCfg =
     (if aff_Key (grp_Affinity grpCfg) = ''first_user_message''
      then FirstUserMessageKey body (aff_MaxContentBytes (grp_Affinity grpCfg))
      else Some (HeaderAffinityKey (env_ulow env) (in_Header r)
             (TrimPrefix (aff_Key (grp_Affinity grpCfg)) ''header:'')))"

definition defender_key :: "proxy_env \<Rightarrow> Config \<Rightarrow> http_request \<Rightarrow> obj \<Rightarrow> Resolution \<Rightarrow> string \<Rightarrow> string option" where
  "defender_key env cfg r body res modelName =
     (let key = (if res_Group res \<noteq> ''''
                 then (case gm_get (cfg_Groups cfg) (res_Group res) of
                         None \<Rightarrow> Some ''''
                       | Some grpCfg \<Rightarrow> affinity_key_of env r body grpCfg)
                 else Some '''')
      in map_option (\<lambda>k. if k = '''' then modelName else k) key)"

record routed =
  rd_backend :: "Backend option"
  rd_res :: "Resolution option"
  rd_model :: string
  rd_real :: string
  rd_group :: string
  rd_affKey :: string
  rd_lb :: bool
  rd_body :: obj
  rd_keys :: "string list option"

definition defender_response :: "defender_result \<Rightarrow> http_response" where
  "defender_response d =
     \<lparr>rs_status = dr_status d,
      rs_header = header_Set ''Content-Type'' ''application/json''
        (if dr_header d \<noteq> '''' then header_Set ''X-hikyaku-defender'' (dr_header d) [] else []),
      rs_body = TextBody (dr_body d)\<rparr>"

text \<open>The load-balanced branch: the selected backend with its group and affinity key.\<close>

definition select_backend ::
  "proxy_env \<Rightarrow> choices \<Rightarrow> http_request \<Rightarrow> bool \<Rightarrow> obj \<Rightarrow> Resolution \<Rightarrow> Balancer \<Rightarrow> Server \<Rightarrow>
     (Backend option \<times> string) pipeline \<times> Server" where
  "select_backend env ch r isStreaming body res bal s =
     (case gm_get (cfg_Groups (ps_cfg s)) (res_Group res) of
        None \<Rightarrow> (Panicked, s)
      | Some grpCfg \<Rightarrow>
          (case (if aff_Key (grp_Affinity grpCfg) = ''none'' then Some ''''
                 else affinity_key_of env r body grpCfg) of
             None \<Rightarrow> (Panicked, s)
           | Some affKey \<Rightarrow>
               (let ctx = \<lparr>ctx_AffinityKey = affKey, ctx_IsStreaming = isStreaming,
                           ctx_EstimatedSize = estimateTokens body, ctx_StaleThreshold = 0\<rparr>
                in case balancer_Select (ch_now ch) (ch_pool ch) (res_Group res) affKey (Some ctx) bal of
                     (Inl RuntimePanic, bal') \<Rightarrow> (Panicked, s\<lparr>ps_balancer := Some bal'\<rparr>)
                   | (Inl e, bal') \<Rightarrow>
                       (Responded (jsonError [] ''no healthy backend available'' 503), s\<lparr>ps_balancer := Some bal'\<rparr>)
                   | (Inr st, bal') \<Rightarrow>
                       (let bal1 = Incr (ch_groups ch 0) (ID st) bal';
                            bal2 = balancer_Dispatch (ch_now ch) (ch_groups ch 1) (ID st) bal1
                        in (Proceed (cfg_Backend (ps_cfg s) (ID st), affKey), s\<lparr>ps_balancer := Some bal2\<rparr>)))))"

text \<open>
  A routed request: defenders, then the backend, then the merged parameters. A nil body has no
  message for the defenders to count and fails at its first assignment, which follows.
\<close>

definition run_defenders ::
  "proxy_env \<Rightarrow> choices \<Rightarrow> Resolution \<Rightarrow> obj \<Rightarrow> string \<Rightarrow> Server \<Rightarrow> obj pipeline \<times> Server" where
  "run_defenders env ch res body affKey s =
     (case checkDefenders (env_sha256 env) (env_sprint env) (ch_unix ch) (ch_now ch) (ps_cfg s)
             (Some (res_Route res)) body affKey (ps_loopDetector s) of
        None \<Rightarrow> (Panicked, s)
      | Some (d, body1, ld) \<Rightarrow>
          (if dr_short d then Responded (defender_response d) else Proceed body1, s\<lparr>ps_loopDetector := ld\<rparr>))"

text \<open>The backend, the group and key for pin invalidation, and whether the balancer chose it.\<close>

definition choose_backend ::
  "proxy_env \<Rightarrow> choices \<Rightarrow> http_request \<Rightarrow> bool \<Rightarrow> obj \<Rightarrow> Resolution \<Rightarrow> Server \<Rightarrow>
     (Backend option \<times> string \<times> string \<times> bool) pipeline \<times> Server" where
  "choose_backend env ch r isStreaming body res s =
     (case ps_balancer s of
        Some bal \<Rightarrow>
          (if res_Group res \<noteq> ''''
           then pbind (select_backend env ch r isStreaming body res bal s)
                  (\<lambda>(b, k) s'. (Proceed (b, res_Group res, k, True), s'))
           else (Proceed (Some (res_Backend res), '''', '''', False), s))
      | None \<Rightarrow> (Proceed (Some (res_Backend res), '''', '''', False), s))"

definition route_resolved ::
  "proxy_env \<Rightarrow> choices \<Rightarrow> http_request \<Rightarrow> string \<Rightarrow> bool \<Rightarrow> obj option \<Rightarrow> string list option \<Rightarrow> Resolution \<Rightarrow>
     Server \<Rightarrow> routed pipeline \<times> Server" where
  "route_resolved env ch r modelName isStreaming body0 keys res s =
     (let body = or_zero body0 [] in
      case defender_key env (ps_cfg s) r body res modelName of
        None \<Rightarrow> (Panicked, s)
      | Some affKey \<Rightarrow>
          pbind (run_defenders env ch res body affKey s) (\<lambda>body1 s1.
          pbind (choose_backend env ch r isStreaming body1 res s1) (\<lambda>(b, g, k, lb) s2.
            if body0 = None then (Panicked, s2)
            else
              let (keys', body2) = apply_params (res_Params res) keys body1
              in (Proceed \<lparr>rd_backend = b, rd_res = Some res, rd_model = modelName,
                    rd_real = res_RealModel res, rd_group = g, rd_affKey = k, rd_lb = lb,
                    rd_body = gm_set ''model'' (JStr (res_RealModel res)) (dedup_max_tokens body2),
                    rd_keys = keys'\<rparr>, s2))))"

text \<open>A request without a route: refused, or passed through to the default backend.\<close>

definition unknown_model_message :: "proxy_env \<Rightarrow> Config \<Rightarrow> string \<Rightarrow> string" where
  "unknown_model_message env cfg modelName =
     ''unknown model '' @ env_quote env modelName @ [CHR 0x20, CHR 0xE2, CHR 0x80, CHR 0x94] @
     '' available models: ['' @ join_strings '' '' (VirtualModels cfg) @ '']''"

definition route_unresolved ::
  "proxy_env \<Rightarrow> string \<Rightarrow> obj option \<Rightarrow> string list option \<Rightarrow> Server \<Rightarrow> routed pipeline" where
  "route_unresolved env modelName body0 keys s =
     (if \<not> srv_PassthroughUnrouted (cfg_Server (ps_cfg s))
      then Responded (jsonError [] (unknown_model_message env (ps_cfg s) modelName) 404)
      else case DefaultBackend (ps_cfg s) of
        None \<Rightarrow> Responded (jsonError [] ''no backends configured'' 503)
      | Some b \<Rightarrow>
          (case body0 of
             None \<Rightarrow> Panicked
           | Some body \<Rightarrow>
               Proceed \<lparr>rd_backend = Some b, rd_res = None, rd_model = modelName, rd_real = modelName,
                 rd_group = '''', rd_affKey = '''', rd_lb = False,
                 rd_body = gm_set ''model'' (JStr modelName) body, rd_keys = keys\<rparr>))"

definition route_request ::
  "proxy_env \<Rightarrow> choices \<Rightarrow> http_request \<Rightarrow> string \<Rightarrow> obj option \<Rightarrow> Server \<Rightarrow> routed pipeline \<times> Server" where
  "route_request env ch r protocol body0 s =
     (let body = or_zero body0 [];
          modelName = or_zero (get_str body ''model'') '''';
          isStreaming = or_zero (get_bool body ''stream'') False;
          (keys, body') = (if protocol = ''ollama''
                           then (case flatten_options body of (ks, b) \<Rightarrow> (Some ks, b)) else (None, body));
          body0' = map_option (\<lambda>_. body') body0
      in case Resolve (ps_rtr s) modelName body' of
           Inl _ \<Rightarrow> (route_unresolved env modelName body0' keys s, s)
         | Inr res \<Rightarrow> route_resolved env ch r modelName isStreaming body0' keys res s)"

section \<open>Rewriting the body\<close>

text \<open>
  From the empty-message check to the body that is encoded. A request whose backend is nil fails at
  the first use of the backend, after the check.
\<close>

definition rewrite_request ::
  "proxy_env \<Rightarrow> Config \<Rightarrow> string \<Rightarrow> bool \<Rightarrow> routed \<Rightarrow> (Backend \<times> obj) pipeline" where
  "rewrite_request env cfg protocol isStreaming rd =
     (if checkEmptyMessages cfg (map_option res_Route (rd_res rd)) (rd_backend rd) (rd_body rd)
      then Responded (jsonError [] ''empty messages are blocked by your administrator'' 400)
      else case rd_backend rd of
        None \<Rightarrow> Panicked
      | Some backend \<Rightarrow>
          (let (keys1, body1) =
             (case rd_res rd of
                None \<Rightarrow> (rd_keys rd, rd_body rd)
              | Some res \<Rightarrow>
                  apply_inject (res_Inject res) (rd_keys rd)
                    (if \<not> SystemPromptOp_IsZero (res_SystemPrompt res)
                     then applySystemPrompt protocol (res_SystemPrompt res) (rd_body rd) else rd_body rd));
               body2 = translateParams (env_big env) backend isStreaming body1
           in Proceed (backend,
                case keys1 of
                  Some ks \<Rightarrow> if protocol = ''ollama'' then renest_options ks body2 else body2
                | None \<Rightarrow> body2)))"

section \<open>Admission\<close>

record forwarded =
  fw_backend :: Backend
  fw_model :: string
  fw_real :: string
  fw_group :: string
  fw_affKey :: string
  fw_lb :: bool
  fw_streaming :: bool
  fw_bytesHeld :: int
  fw_body :: string
  fw_target :: target_url
  fw_headers :: HeadersOp
  fw_cap :: "captureCtx option"
  fw_t0 :: time
  fw_rid :: string

definition emit_metric :: "Metrics \<Rightarrow> real \<Rightarrow> attrs \<Rightarrow> Server \<Rightarrow> Server" where
  "emit_metric i q a s = s\<lparr>ps_emitted := ps_emitted s @ [Measure i q a]\<rparr>"

definition journal_entry :: "proxy_env \<Rightarrow> string \<Rightarrow> string \<Rightarrow> routed \<Rightarrow> Backend \<Rightarrow> Entry" where
  "journal_entry env rid protocol rd backend =
     (Analyze (env_hardened env) (rd_body rd) protocol)
       \<lparr>e_RequestID := rid, e_VirtualModel := rd_model rd, e_RealModel := rd_real rd,
        e_Backend := be_ID backend,
        e_Params := (case rd_res rd of Some res \<Rightarrow> res_Params res | None \<Rightarrow> [])\<rparr>"

text \<open>The first slot of an open window goes to the request, whose side of the payload is filled in.\<close>

definition startCapture ::
  "capture_env \<Rightarrow> http_request \<Rightarrow> string \<Rightarrow> time \<Rightarrow> string \<Rightarrow> string \<Rightarrow> string \<Rightarrow> string \<Rightarrow> bool \<Rightarrow> string \<Rightarrow> string \<Rightarrow>
     Server \<Rightarrow> captureCtx option \<times> Server" where
  "startCapture ce r rid t0 virtualModel realModel backendID protocol streaming rawBody resolvedBody s =
     (case ps_capture s of
        None \<Rightarrow> (None, s)
      | Some c \<Rightarrow>
          (case Reserve (Some c) of
             (slot, c') \<Rightarrow>
               (map_option (\<lambda>sl. \<lparr>cx_slot = sl,
                  cx_payload = request_payload ce (in_Method r) (in_Path r) (in_Header r) rid t0 virtualModel
                    realModel backendID protocol streaming rawBody resolvedBody\<rparr>) slot,
                s\<lparr>ps_capture := c'\<rparr>)))"

definition admission_gauges :: "attrs \<Rightarrow> Server \<Rightarrow> Server" where
  "admission_gauges a s =
     (let s1 = emit_metric ActiveRequests 1 a s;
          s2 = emit_metric RequestBodyBytesBuffered (of_int (ps_bufferedBytes s1)) [] s1
      in case ps_balancer s2 of
           None \<Rightarrow> s2
         | Some bal \<Rightarrow>
             emit_metric AffinityCacheEntries (of_nat (AffinityCacheSize bal)) []
               (emit_metric ActiveRequestsTotal (of_int (TotalInFlight bal)) [] s2))"

definition admit_request ::
  "proxy_env \<Rightarrow> choices \<Rightarrow> http_request \<Rightarrow> string \<Rightarrow> bool \<Rightarrow> routed \<Rightarrow> Backend \<Rightarrow> obj \<Rightarrow> Server \<Rightarrow>
     forwarded pipeline \<times> Server" where
  "admit_request env ch r protocol isStreaming rd backend body s0 =
     (let s = s0\<lparr>ps_journal := map_option (\<lambda>es. es @ [journal_entry env (ch_rid ch) protocol rd backend]) (ps_journal s0)\<rparr>
      in case env_marshal env (JObj body) of
           None \<Rightarrow> (Responded (jsonError [] ''failed to encode request'' 500), s)
         | Some newBody \<Rightarrow>
             (let held = int (length newBody);
                  s1 = s\<lparr>ps_bufferedBytes := ps_bufferedBytes s + held\<rparr>
              in case env_url env (be_BaseURL backend) of
                   Inl _ \<Rightarrow> (Responded (jsonError [] (''invalid backend URL: '' @ be_BaseURL backend) 500), s1)
                 | Inr target \<Rightarrow>
                     (let s2 = admission_gauges (BackendAttrs (be_ID backend) (rd_real rd)) s1;
                          (cap, s3) = startCapture (env_capture env) r (ch_rid ch) (ch_now ch) (rd_model rd) (rd_real rd)
                            (be_ID backend) protocol isStreaming (in_RawBody r) newBody s2
                      in (Proceed \<lparr>fw_backend = backend, fw_model = rd_model rd, fw_real = rd_real rd,
                            fw_group = rd_group rd, fw_affKey = rd_affKey rd, fw_lb = rd_lb rd,
                            fw_streaming = isStreaming, fw_bytesHeld = held, fw_body = newBody,
                            fw_target = target, fw_headers = routeHeaders (rd_res rd), fw_cap = cap,
                            fw_t0 = ch_now ch, fw_rid = ch_rid ch\<rparr>, s3))))"

text \<open>\<open>proxyRequest\<close> up to the semaphore.\<close>

definition proxyRequest ::
  "proxy_env \<Rightarrow> choices \<Rightarrow> string \<Rightarrow> http_request \<Rightarrow> Server \<Rightarrow> forwarded pipeline \<times> Server" where
  "proxyRequest env ch opts_protocol r s =
     (case read_body (ps_cfg s) r of
        Inl resp \<Rightarrow> (Responded resp, s)
      | Inr raw \<Rightarrow>
          (case decode_body env raw of
             None \<Rightarrow> (Responded (jsonError [] ''invalid JSON body'' 400), s)
           | Some body0 \<Rightarrow>
               (let protocol = (if opts_protocol = '''' then detectProtocol (in_Path r) (in_Header r)
                                else opts_protocol);
                    isStreaming = or_zero (get_bool (or_zero body0 []) ''stream'') False
                in pbind (route_request env ch r protocol body0 s) (\<lambda>rd s1.
                   pbind (rewrite_request env (ps_cfg s1) protocol isStreaming rd, s1) (\<lambda>(backend, body) s2.
                     admit_request env ch r protocol isStreaming rd backend body s2)))))"

section \<open>The end of a forwarded request\<close>

text \<open>The upstream request of a forwarded request: what the director makes of the incoming one.\<close>

definition upstream_request ::
  "(target_url \<Rightarrow> string \<Rightarrow> string option) \<Rightarrow> op_orders \<Rightarrow> http_request \<Rightarrow> forwarded \<Rightarrow> outbound" where
  "upstream_request resolve_path ords r fw =
     director (resolve_path (fw_target fw)) ords (fw_target fw) (fw_backend fw) (fw_body fw) '''' (fw_headers fw)
       \<lparr>ob_Scheme = '''', ob_URLHost = '''', ob_Host = '''', ob_Path = in_Path r,
        ob_Header = in_Header r, ob_Body = in_RawBody r, ob_ContentLength = int (length (in_RawBody r))\<rparr>"

definition request_attrs :: "forwarded \<Rightarrow> string \<Rightarrow> attrs" where
  "request_attrs fw status = Attrs (be_ID (fw_backend fw)) (fw_real fw) status"

text \<open>The accounting shared by the three ends: bytes, active requests, duration and total.\<close>

definition release_bytes :: "forwarded \<Rightarrow> Server \<Rightarrow> Server" where
  "release_bytes fw s0 =
     (let s1 = s0\<lparr>ps_bufferedBytes := ps_bufferedBytes s0 - fw_bytesHeld fw\<rparr>
      in emit_metric RequestBodyBytesBuffered (of_int (ps_bufferedBytes s1)) [] s1)"

definition finish_accounting :: "time \<Rightarrow> string \<Rightarrow> forwarded \<Rightarrow> Server \<Rightarrow> Server" where
  "finish_accounting now status fw s =
     (let s1 = emit_metric ActiveRequests (- 1) (BackendAttrs (be_ID (fw_backend fw)) (fw_real fw)) s;
          s2 = emit_metric RequestDuration (Seconds (time_since now (fw_t0 fw))) (request_attrs fw status) s1
      in emit_metric RequestsTotal 1 (request_attrs fw status) s2)"

definition with_balancer :: "(Balancer \<Rightarrow> Balancer) \<Rightarrow> Server \<Rightarrow> Server" where
  "with_balancer f s = s\<lparr>ps_balancer := map_option f (ps_balancer s)\<rparr>"

definition complete_on ::
  "time \<Rightarrow> (nat \<Rightarrow> string list) \<Rightarrow> bool \<Rightarrow> bool \<Rightarrow> forwarded \<Rightarrow> Balancer \<Rightarrow> Balancer" where
  "complete_on now ords success isTimeout fw =
     CompleteAndDecr now ords (be_ID (fw_backend fw)) success isTimeout 0"

text \<open>The two ends of a capture, on the files of the server.\<close>

definition end_capture_error :: "proxy_env \<Rightarrow> disk \<Rightarrow> time \<Rightarrow> string \<Rightarrow> forwarded \<Rightarrow> Server \<Rightarrow> Server" where
  "end_capture_error env dk now msg fw s =
     s\<lparr>ps_files := finishError (env_capture env) dk now (fw_t0 fw) msg (fw_cap fw) (ps_files s)\<rparr>"

definition end_capture_success :: "proxy_env \<Rightarrow> disk \<Rightarrow> time \<Rightarrow> ResponseSnapshot \<Rightarrow> forwarded \<Rightarrow> Server \<Rightarrow> Server" where
  "end_capture_success env dk now resp fw s =
     s\<lparr>ps_files := finishSuccess (env_capture env) dk now (fw_t0 fw) resp (fw_cap fw) (ps_files s)\<rparr>"

text \<open>\<open>ErrorHandler\<close>: no response from the backend, or a body that could not be read.\<close>

definition errorHandler ::
  "proxy_env \<Rightarrow> disk \<Rightarrow> time \<Rightarrow> (nat \<Rightarrow> string list) \<Rightarrow> io_error \<Rightarrow> forwarded \<Rightarrow> Server \<Rightarrow> http_response \<times> Server" where
  "errorHandler env dk now ords err fw s =
     (let s1 = finish_accounting now ''error'' fw (release_bytes fw s);
          s2 = with_balancer (\<lambda>bal.
                 let bal1 = complete_on now ords False (io_timeout err) fw bal
                 in if \<not> io_timeout err then InvalidatePin now (fw_group fw) (fw_affKey fw) bal1 else bal1) s1;
          s3 = end_capture_error env dk now (''upstream error: '' @ io_msg err) fw s2
      in (jsonError (header_Set ''X-Request-ID'' (fw_rid fw) []) (''upstream error: '' @ io_msg err) 502, s3))"

text \<open>
  A response whose body cannot be read in full: \<open>modifyResponse\<close> closes the capture and returns the
  error, for which the reverse proxy calls the error handler; the capture file is written twice.
\<close>

definition read_failed ::
  "proxy_env \<Rightarrow> disk \<Rightarrow> disk \<Rightarrow> time \<Rightarrow> (nat \<Rightarrow> string list) \<Rightarrow> io_error \<Rightarrow> forwarded \<Rightarrow> Server \<Rightarrow> http_response \<times> Server" where
  "read_failed env dk dk' now ords err fw s =
     errorHandler env dk' now ords err fw (end_capture_error env dk now (''read upstream body: '' @ io_msg err) fw s)"

text \<open>Whether a status code moves the session to another backend.\<close>

definition failover_status :: "Config \<Rightarrow> forwarded \<Rightarrow> int \<Rightarrow> bool" where
  "failover_status cfg fw status =
     (if fw_group fw \<noteq> ''''
      then (case gm_get (cfg_Groups cfg) (fw_group fw) of
              Some grp \<Rightarrow> ShouldFailoverOnCode grp status
            | None \<Rightarrow> False)
      else status \<ge> 500)"

definition settle_balancer ::
  "time \<Rightarrow> (nat \<Rightarrow> string list) \<Rightarrow> int \<Rightarrow> bool \<Rightarrow> forwarded \<Rightarrow> Server \<Rightarrow> Server" where
  "settle_balancer now ords status isTimeout fw s =
     with_balancer (\<lambda>bal.
       let bal1 = complete_on now ords (status = 200) isTimeout fw bal
       in if \<not> isTimeout \<and> failover_status (ps_cfg s) fw status
          then InvalidatePin now (fw_group fw) (fw_affKey fw) bal1 else bal1) s"

definition usage_keys :: "string \<Rightarrow> string \<times> string" where
  "usage_keys backendType =
     (if backendType = ''anthropic'' then (''input_tokens'', ''output_tokens'')
      else (''prompt_tokens'', ''completion_tokens''))"

definition extractNonStreamingUsage :: "proxy_env \<Rightarrow> string \<Rightarrow> forwarded \<Rightarrow> Server \<Rightarrow> Server" where
  "extractNonStreamingUsage env data fw s =
     (case decode_body env data of
        None \<Rightarrow> s
      | Some resp \<Rightarrow>
          (case get_obj (or_zero resp []) ''usage'' of
             None \<Rightarrow> s
           | Some usage \<Rightarrow>
               (let a = BackendAttrs (be_ID (fw_backend fw)) (fw_real fw);
                    (promptKey, completionKey) = usage_keys (be_Type (fw_backend fw));
                    s1 = (case positive_num usage promptKey of
                            None \<Rightarrow> s
                          | Some v \<Rightarrow>
                              emit_metric PromptTokensPerRequest (of_int (int64_of (env_big env) v)) a
                                (emit_metric PromptTokens (of_int (int64_of (env_big env) v)) a s))
                in case positive_num usage completionKey of
                     None \<Rightarrow> s1
                   | Some v \<Rightarrow> emit_metric CompletionTokens (of_int (int64_of (env_big env) v)) a s1)))"

text \<open>\<open>modifyResponse\<close> for a response that is not streamed: its body has been read in full.\<close>

definition answer_buffered ::
  "proxy_env \<Rightarrow> disk \<Rightarrow> time \<Rightarrow> (nat \<Rightarrow> string list) \<Rightarrow> int \<Rightarrow> string \<Rightarrow> forwarded \<Rightarrow> Server \<Rightarrow> Server" where
  "answer_buffered env dk now ords status data fw s =
     (let s1 = finish_accounting now (Itoa status) fw (release_bytes fw s);
          s2 = settle_balancer now ords status False fw s1;
          s3 = (if status = 200 then extractNonStreamingUsage env data fw s2 else s2)
      in end_capture_success env dk now (buffered_snapshot (env_capture env) status data) fw s3)"

text \<open>The parser that \<open>modifyResponse\<close> installs on a streamed response.\<close>

datatype parser = SseParser sseParser | OllamaParser ollamaParser

definition stream_opened :: "int \<Rightarrow> forwarded \<Rightarrow> parser" where
  "stream_opened level fw =
     (if be_Type (fw_backend fw) = ''ollama''
      then OllamaParser (newOllamaParser (be_ID (fw_backend fw)) (fw_real fw) (fw_t0 fw))
      else SseParser ((newSSEParser (be_ID (fw_backend fw)) (fw_real fw) (be_Type (fw_backend fw)) (fw_t0 fw))
        \<lparr>captureContent := (level \<ge> LevelContent)\<rparr>))"

definition parser_final :: "time \<Rightarrow> parser \<Rightarrow> measurement list" where
  "parser_final now p =
     (case p of
        SseParser q \<Rightarrow> sse_emitted (recordFinal now q)
      | OllamaParser q \<Rightarrow> oll_emitted (ollama_recordFinal q))"

text \<open>
  \<open>onClose\<close> of a streamed response. The measurements that the parser made while it was fed are
  appended here, in front of its final ones.
\<close>

definition stream_closed ::
  "proxy_env \<Rightarrow> disk \<Rightarrow> time \<Rightarrow> (nat \<Rightarrow> string list) \<Rightarrow> io_error option \<Rightarrow> bool \<Rightarrow> parser \<Rightarrow>
     CappedBuffer option \<Rightarrow> forwarded \<Rightarrow> Server \<Rightarrow> Server" where
  "stream_closed env dk now ords readErr clientGone p tee fw s =
     (let isTimeout = ((case readErr of Some e \<Rightarrow> io_timeout e | None \<Rightarrow> False) \<or> clientGone);
          s1 = release_bytes fw s;
          s2 = s1\<lparr>ps_emitted := ps_emitted s1 @ parser_final now p\<rparr>;
          s3 = finish_accounting now ''200'' fw s2;
          s4 = settle_balancer now ords 200 isTimeout fw s3
      in case tee of
           None \<Rightarrow> s4
         | Some b \<Rightarrow> end_capture_success env dk now (streamed_snapshot 200 b) fw s4)"

section \<open>Handlers\<close>

text \<open>
  The endpoints of \<open>RegisterRoutes\<close>. \<open>Proxied\<close> carries the protocol passed to \<open>proxyRequest\<close>.
\<close>

datatype endpoint = Health | Models | Proxied string | Tags | NotFound

definition endpoint_of :: "string \<Rightarrow> endpoint" where
  "endpoint_of path =
     (if path = ''/health'' then Health
      else if path = ''/v1/models'' then Models
      else if path \<in> {''/v1/chat/completions'', ''/v1/messages''} then Proxied ''''
      else if path \<in> {''/v1/completions'', ''/v1/embeddings''} then Proxied ''openai''
      else if path \<in> {''/api/chat'', ''/api/generate'', ''/api/embed'', ''/api/embeddings''} then Proxied ''ollama''
      else if path = ''/api/tags'' then Tags
      else NotFound)"

definition ollama_backend :: "Config \<Rightarrow> Backend option" where
  "ollama_backend cfg = find (\<lambda>b. be_Type b = ''ollama'') (cfg_Backends cfg)"

text \<open>
  \<open>handleOllamaTags\<close>; \<open>up\<close> is the answer of the backend to the request with the given authorisation
  header: the status and message to report when the request cannot be built (500), sent or read
  (502), or the status, content type and body of the answer.
\<close>

definition handleOllamaTags ::
  "proxy_env \<Rightarrow> (string \<Rightarrow> string option \<Rightarrow> (int \<times> string) + (int \<times> string \<times> string)) \<Rightarrow> Config \<Rightarrow> string \<Rightarrow> http_response" where
  "handleOllamaTags env up cfg meth =
     (if meth \<noteq> ''GET'' then method_not_allowed
      else case ollama_backend cfg of
        None \<Rightarrow> jsonError [] ''no ollama backend configured'' 503
      | Some b \<Rightarrow>
          (case env_url env (be_BaseURL b) of
             Inl e \<Rightarrow> jsonError [] (''invalid backend URL: '' @ e) 500
           | Inr _ \<Rightarrow>
               (case up (be_BaseURL b) (if be_APIKey b \<noteq> '''' then Some (''Bearer '' @ be_APIKey b) else None) of
                  Inl (code, msg) \<Rightarrow> jsonError [] msg code
                | Inr (status, ctype, data) \<Rightarrow>
                    \<lparr>rs_status = status, rs_header = header_Set ''Content-Type'' ctype [], rs_body = TextBody data\<rparr>)))"

text \<open>The routing table with its guards; a request that is forwarded is the outcome \<open>Proceed\<close>.\<close>

definition serve ::
  "proxy_env \<Rightarrow> choices \<Rightarrow> string \<Rightarrow> (string \<Rightarrow> string option \<Rightarrow> (int \<times> string) + (int \<times> string \<times> string)) \<Rightarrow> http_request \<Rightarrow>
     Server \<Rightarrow> forwarded pipeline \<times> Server" where
  "serve env ch health up r s =
     (case endpoint_of (in_Path r) of
        Health \<Rightarrow>
          (Responded \<lparr>rs_status = 200, rs_header = header_Set ''Content-Type'' ''application/json'' [],
             rs_body = TextBody health\<rparr>, s)
      | NotFound \<Rightarrow> (Responded (method_not_allowed\<lparr>rs_status := 404, rs_body := TextBody (''404 page not found'' @ [CHR 0x0A])\<rparr>), s)
      | e \<Rightarrow>
          (case bearerAuth (ps_cfg s) (in_Header r) of
             Some resp \<Rightarrow> (Responded resp, s)
           | None \<Rightarrow>
               (case e of
                  Models \<Rightarrow> (Responded (handleModels (ps_cfg s) (in_Method r)), s)
                | Tags \<Rightarrow> (Responded (handleOllamaTags env up (ps_cfg s) (in_Method r)), s)
                | Proxied protocol \<Rightarrow>
                    (if in_Method r \<noteq> ''POST'' then (Responded method_not_allowed, s)
                     else proxyRequest env ch protocol r s)
                | _ \<Rightarrow> (Panicked, s))))"

end
