(* ===== verification/Proxy_System.thy ===== *)
theory Proxy_System
  imports Proxy_Server
begin

text \<open>
  The server under concurrent use: any number of requests, each in one of the phases between
  admission and return, interleaved with reloads, capture signals and the monitoring of the
  balancer. \<open>px_inv\<close> ties the gauge of active requests, the count of buffered bytes and the
  semaphores to the requests under way.
\<close>

section \<open>The interleaved system\<close>

text \<open>
  The semaphore slot that a request holds is the address of its channel, if its backend has one.
  \<open>Answered\<close> is a request whose accounting is done and whose handler has not returned yet.
\<close>

datatype px_phase =
    Waiting
  | Upstream "nat option"
  | Streaming "nat option" parser "CappedBuffer option"
  | Answered "nat option"
  | Returned
  | GaveUp

record px_req =
  px_fw :: forwarded
  px_phase :: px_phase

record px_world =
  pw_server :: Server
  pw_reqs :: "px_req list"

definition px_set :: "nat \<Rightarrow> px_phase \<Rightarrow> px_world \<Rightarrow> px_world" where
  "px_set n ph w = w\<lparr>pw_reqs := (pw_reqs w)[n := (pw_reqs w ! n)\<lparr>px_phase := ph\<rparr>]\<rparr>"

abbreviation px_at :: "px_world \<Rightarrow> nat \<Rightarrow> px_phase \<Rightarrow> bool" where
  "px_at w n ph \<equiv> n < length (pw_reqs w) \<and> px_phase (pw_reqs w ! n) = ph"

abbreviation fw_at :: "px_world \<Rightarrow> nat \<Rightarrow> forwarded" where
  "fw_at w n \<equiv> px_fw (pw_reqs w ! n)"

definition feed_parser :: "proxy_env \<Rightarrow> time \<Rightarrow> string \<Rightarrow> parser \<Rightarrow> parser" where
  "feed_parser env now bytes p =
     (case p of
        SseParser q \<Rightarrow> SseParser (feed (\<lambda>s. map_option (\<lambda>m. or_zero m []) (decode_body env s)) (env_big env) now bytes q)
      | OllamaParser q \<Rightarrow> OllamaParser (ollama_feed now bytes q))"

text \<open>What a read of the streamed response does to the copy kept for the capture.\<close>

definition tee_write :: "string \<Rightarrow> CappedBuffer option \<Rightarrow> CappedBuffer option" where
  "tee_write bytes tee = (if bytes \<noteq> [] then map_option (\<lambda>b. snd (CappedBuffer_Write bytes b)) tee else tee)"

definition give_up :: "proxy_env \<Rightarrow> disk \<Rightarrow> time \<Rightarrow> forwarded \<Rightarrow> Server \<Rightarrow> Server" where
  "give_up env dk now fw s =
     end_capture_error env dk now ''backend concurrency limit reached'' fw
       (emit_metric ActiveRequests (- 1) (BackendAttrs (be_ID (fw_backend fw)) (fw_real fw)) s)"

inductive px_step :: "proxy_env \<Rightarrow> px_world \<Rightarrow> px_world \<Rightarrow> bool" for env w where
  rejects: "serve env ch health up r (pw_server w) = (out, s') \<Longrightarrow> (\<forall>fw. out \<noteq> Proceed fw) \<Longrightarrow>
     px_step env w (w\<lparr>pw_server := s'\<rparr>)"
| admits: "serve env ch health up r (pw_server w) = (Proceed fw, s') \<Longrightarrow>
     px_step env w (w\<lparr>pw_server := s', pw_reqs := pw_reqs w @ [\<lparr>px_fw = fw, px_phase = Waiting\<rparr>]\<rparr>)"
| acquires: "px_at w n Waiting \<Longrightarrow>
     acquireSemaphore (be_ID (fw_backend (fw_at w n))) (pw_server w) = Some (h, s') \<Longrightarrow>
     px_step env w ((px_set n (Upstream h) w)\<lparr>pw_server := s'\<rparr>)"
| gives_up: "px_at w n Waiting \<Longrightarrow>
     px_step env w ((px_set n GaveUp w)\<lparr>pw_server := give_up env dk now (fw_at w n) (pw_server w)\<rparr>)"
| fails: "px_at w n (Upstream h) \<Longrightarrow> errorHandler env dk now ords err (fw_at w n) (pw_server w) = (resp, s') \<Longrightarrow>
     px_step env w ((px_set n (Answered h) w)\<lparr>pw_server := s'\<rparr>)"
| read_fails: "px_at w n (Upstream h) \<Longrightarrow>
     read_failed env dk dk' now ords err (fw_at w n) (pw_server w) = (resp, s') \<Longrightarrow>
     px_step env w ((px_set n (Answered h) w)\<lparr>pw_server := s'\<rparr>)"
| answers: "px_at w n (Upstream h) \<Longrightarrow> \<not> (fw_streaming (fw_at w n) \<and> status = 200) \<Longrightarrow>
     px_step env w ((px_set n (Answered h) w)
       \<lparr>pw_server := answer_buffered env dk now ords status data (fw_at w n) (pw_server w)\<rparr>)"
| opens: "px_at w n (Upstream h) \<Longrightarrow> fw_streaming (fw_at w n) \<Longrightarrow>
     px_step env w (px_set n (Streaming h (stream_opened level (fw_at w n)) (new_tee (fw_cap (fw_at w n)))) w)"
| feeds: "px_at w n (Streaming h p tee) \<Longrightarrow>
     px_step env w (px_set n (Streaming h (feed_parser env now bytes p) (tee_write bytes tee)) w)"
| closes: "px_at w n (Streaming h p tee) \<Longrightarrow>
     px_step env w ((px_set n (Answered h) w)
       \<lparr>pw_server := stream_closed env dk now ords readErr clientGone p tee (fw_at w n) (pw_server w)\<rparr>)"
| returns: "px_at w n (Answered h) \<Longrightarrow>
     px_step env w ((px_set n Returned w)\<lparr>pw_server := releaseSemaphore h (pw_server w)\<rparr>)"
| reloads: "px_step env w (w\<lparr>pw_server := Reload env cfg (pw_server w)\<rparr>)"
| arms: "px_step env w (w\<lparr>pw_server := (pw_server w)\<lparr>ps_capture := snd (Arm (ps_capture (pw_server w)))\<rparr>\<rparr>)"
| monitors: "ps_balancer (pw_server w) = Some bal \<Longrightarrow> job_step pf bal j j' bal' \<Longrightarrow>
     px_step env w (w\<lparr>pw_server := (pw_server w)\<lparr>ps_balancer := Some bal'\<rparr>\<rparr>)"

definition px_start :: "proxy_env \<Rightarrow> Config \<Rightarrow> bool \<Rightarrow> px_world" where
  "px_start env cfg journal = \<lparr>pw_server = server_New env cfg journal, pw_reqs = []\<rparr>"

section \<open>The invariant\<close>

definition active :: "px_phase \<Rightarrow> bool" where
  "active ph = (case ph of Waiting \<Rightarrow> True | Upstream _ \<Rightarrow> True | Streaming _ _ _ \<Rightarrow> True | _ \<Rightarrow> False)"

definition holds :: "px_phase \<Rightarrow> nat option" where
  "holds ph = (case ph of Upstream h \<Rightarrow> h | Streaming h _ _ \<Rightarrow> h | Answered h \<Rightarrow> h | _ \<Rightarrow> None)"

text \<open>The bytes that a request in a phase still accounts for.\<close>

definition bytes_of :: "px_req \<Rightarrow> int" where
  "bytes_of r = (if active (px_phase r) \<or> px_phase r = GaveUp then fw_bytesHeld (px_fw r) else 0)"

definition parser_ok :: "px_phase \<Rightarrow> bool" where
  "parser_ok ph =
     (case ph of
        Streaming _ (SseParser q) _ \<Rightarrow> sse_inv q
      | Streaming _ (OllamaParser q) _ \<Rightarrow> counted ActiveRequests (oll_emitted q) = 0
      | _ \<Rightarrow> True)"

text \<open>How many elements of a list have a property, as a sum.\<close>

definition tally :: "('a \<Rightarrow> bool) \<Rightarrow> 'a list \<Rightarrow> int" where
  "tally P xs = sum_list (map (\<lambda>x. if P x then 1 else 0) xs)"

abbreviation holders :: "nat \<Rightarrow> px_req list \<Rightarrow> int" where
  "holders a \<equiv> tally (\<lambda>r. holds (px_phase r) = Some a)"

definition chans_ok :: "Server \<Rightarrow> px_req list \<Rightarrow> bool" where
  "chans_ok s rs \<longleftrightarrow>
     (\<forall>k a. gm_get (ps_semaphores s) k = Some a \<longrightarrow> a < length (ps_chans s)) \<and>
     (\<forall>r \<in> set rs. \<forall>a. holds (px_phase r) = Some a \<longrightarrow> a < length (ps_chans s)) \<and>
     (\<forall>a < length (ps_chans s).
        int (snd (ps_chans s ! a)) = holders a rs \<and> snd (ps_chans s ! a) \<le> fst (ps_chans s ! a))"

definition px_inv :: "px_world \<Rightarrow> bool" where
  "px_inv w \<longleftrightarrow>
     ps_bufferedBytes (pw_server w) = sum_list (map bytes_of (pw_reqs w)) \<and>
     counted ActiveRequests (ps_emitted (pw_server w)) = of_int (tally (\<lambda>r. active (px_phase r)) (pw_reqs w)) \<and>
     (\<forall>r \<in> set (pw_reqs w). parser_ok (px_phase r)) \<and>
     chans_ok (pw_server w) (pw_reqs w)"

lemma tally_length: "tally P xs = int (length (filter P xs))"
  by (induction xs) (simp_all add: tally_def)

lemma tally_append [simp]: "tally P (xs @ ys) = tally P xs + tally P ys"
  by (simp add: tally_def)

lemma tally_single [simp]: "tally P [x] = (if P x then 1 else 0)"
  by (simp add: tally_def)

lemma sum_list_map_update:
  fixes f :: "'b \<Rightarrow> int"
  shows "n < length xs \<Longrightarrow> sum_list (map f (xs[n := x])) = sum_list (map f xs) - f (xs ! n) + f x"
proof (induction xs arbitrary: n)
  case (Cons y ys)
  then show ?case by (cases n) auto
qed simp

lemma tally_update:
  "n < length xs \<Longrightarrow> tally P (xs[n := x]) = tally P xs - (if P (xs ! n) then 1 else 0) + (if P x then 1 else 0)"
  unfolding tally_def by (rule sum_list_map_update)

lemma tally_none: "(\<And>x. x \<in> set xs \<Longrightarrow> \<not> P x) \<Longrightarrow> tally P xs = 0"
  by (induction xs) (simp_all add: tally_def)

section \<open>The books of the server\<close>

text \<open>What the invariant reads of the server.\<close>

definition books :: "Server \<Rightarrow> int \<times> real \<times> (nat \<times> nat) list \<times> (string, nat) gomap" where
  "books s = (ps_bufferedBytes s, counted ActiveRequests (ps_emitted s), ps_chans s, ps_semaphores s)"

named_theorems books_simps \<open>what each operation enters in the books\<close>

lemma books_fields [books_simps]:
  "books (s\<lparr>ps_balancer := b\<rparr>) = books s" "books (s\<lparr>ps_capture := c\<rparr>) = books s"
  "books (s\<lparr>ps_journal := j\<rparr>) = books s" "books (s\<lparr>ps_loopDetector := l\<rparr>) = books s"
  "books (s\<lparr>ps_cfg := cfg\<rparr>) = books s" "books (s\<lparr>ps_rtr := cfg\<rparr>) = books s"
  "books (with_balancer f s) = books s" "books (s\<lparr>ps_files := fs\<rparr>) = books s"
  "books (end_capture_error env dk now msg fw s) = books s" "books (end_capture_success env dk now rp fw s) = books s"
  by (simp_all add: books_def with_balancer_def end_capture_error_def end_capture_success_def)

lemma books_emit [books_simps]:
  "books (emit_metric i q a s) =
     (ps_bufferedBytes s, counted ActiveRequests (ps_emitted s) + (if i = ActiveRequests then q else 0),
      ps_chans s, ps_semaphores s)"
  by (simp add: books_def emit_metric_def)

lemma emit_fields [simp]:
  "ps_bufferedBytes (emit_metric i q a s) = ps_bufferedBytes s"
  "ps_emitted (emit_metric i q a s) = ps_emitted s @ [Measure i q a]"
  "ps_chans (emit_metric i q a s) = ps_chans s" "ps_semaphores (emit_metric i q a s) = ps_semaphores s"
  "ps_balancer (emit_metric i q a s) = ps_balancer s"
  by (simp_all add: emit_metric_def)

lemma books_release [books_simps]:
  "books (release_bytes fw s) = (ps_bufferedBytes s - fw_bytesHeld fw, snd (books s))"
  by (simp add: release_bytes_def books_def)

lemma books_finish [books_simps]:
  "books (finish_accounting now st fw s) =
     (fst (books s), fst (snd (books s)) - 1, snd (snd (books s)))"
  by (simp add: finish_accounting_def Let_def books_def)

lemma books_settle [books_simps]: "books (settle_balancer now ords st t fw s) = books s"
  by (simp add: settle_balancer_def books_simps)

lemma books_usage [books_simps]: "books (extractNonStreamingUsage env d fw s) = books s"
  by (simp add: extractNonStreamingUsage_def books_def Let_def split: option.split prod.split)

text \<open>The three ends of a forwarded request.\<close>

definition settled :: "forwarded \<Rightarrow> Server \<Rightarrow> Server \<Rightarrow> bool" where
  "settled fw s s' \<longleftrightarrow>
     books s' = (ps_bufferedBytes s - fw_bytesHeld fw, counted ActiveRequests (ps_emitted s) - 1,
       ps_chans s, ps_semaphores s)"

lemma settled_error: "errorHandler env dk now ords err fw s = (resp, s') \<Longrightarrow> settled fw s s'"
  by (auto simp: errorHandler_def Let_def settled_def books_simps) (simp_all add: books_def)

lemma settled_read_failed: "read_failed env dk dk' now ords err fw s = (resp, s') \<Longrightarrow> settled fw s s'"
  unfolding read_failed_def by (drule settled_error) (simp add: settled_def end_capture_error_def)

lemma settled_answer: "settled fw s (answer_buffered env dk now ords st d fw s)"
  by (simp add: answer_buffered_def Let_def settled_def books_simps) (simp add: books_def)

lemma parser_final_active: "parser_ok (Streaming h p tee) \<Longrightarrow> counted ActiveRequests (parser_final now p) = 0"
  by (auto simp: parser_ok_def parser_final_def recordFinal_active sse_inv_def ollama_recordFinal_def
      split: parser.splits)

lemma settled_close:
  assumes "parser_ok (Streaming h p tee)"
  shows "settled fw s (stream_closed env dk now ords e g p tee fw s)"
proof -
  let ?s1 = "release_bytes fw s"
  have "books (?s1\<lparr>ps_emitted := ps_emitted ?s1 @ parser_final now p\<rparr>) = books ?s1"
    using parser_final_active [OF assms] by (simp add: books_def)
  then show ?thesis
    by (simp add: stream_closed_def Let_def settled_def books_simps split: option.split) (simp add: books_def)
qed

section \<open>Admission in the books\<close>

text \<open>
  Routing changes the balancer and the loop detector only: whatever a view of the server shows
  besides these two stays the same.
\<close>

locale routing_view =
  fixes view :: "Server \<Rightarrow> 'v"
  assumes view_balancer: "view (s\<lparr>ps_balancer := b\<rparr>) = view s"
    and view_loopDetector: "view (s\<lparr>ps_loopDetector := l\<rparr>) = view s"
begin

lemma view_pbind:
  assumes "view (snd m) = view s" and "\<And>x s1. view s1 = view s \<Longrightarrow> view (snd (f x s1)) = view s"
  shows "view (snd (pbind m f)) = view s"
  using assms by (cases m) (auto simp: pbind_def split: pipeline.split)

lemma view_select: "view (snd (select_backend env ch r st body res bal s)) = view s"
  by (simp add: select_backend_def Let_def view_balancer split: option.split prod.split sum.split sel_error.split)

lemma view_defenders: "view (snd (run_defenders env ch res body k s)) = view s"
  by (simp add: run_defenders_def view_loopDetector split: option.split prod.split)

lemma view_choose: "view (snd (choose_backend env ch r st body res s)) = view s"
  by (auto simp: choose_backend_def view_select intro!: view_pbind split: option.split)

lemma view_route_resolved: "view (snd (route_resolved env ch r m st b keys res s)) = view s"
proof -
  have "view (snd (choose_backend env ch r st body1 res s1)) = view s" if "view s1 = view s" for body1 s1
    using that by (simp add: view_choose)
  then show ?thesis
    by (auto simp: route_resolved_def Let_def view_defenders split: option.split prod.split intro!: view_pbind)
qed

lemma view_route: "view (snd (route_request env ch r protocol b s)) = view s"
  by (simp add: route_request_def Let_def view_route_resolved split: sum.split prod.split)

end

interpretation books_view: routing_view books
  by unfold_locales (simp_all add: books_simps)

interpretation files_view: routing_view ps_files
  by unfold_locales simp_all

lemma books_gauges [books_simps]:
  "books (admission_gauges a s) =
     (ps_bufferedBytes s, counted ActiveRequests (ps_emitted s) + 1, ps_chans s, ps_semaphores s)"
  by (simp add: admission_gauges_def Let_def books_def split: option.split)

lemma books_startCapture: "books (snd (startCapture ce r rid t0 vm rm b p st raw resolved s)) = books s"
  by (simp add: startCapture_def books_simps split: prod.split option.split)

definition urls_parse :: "proxy_env \<Rightarrow> bool" where
  "urls_parse env \<longleftrightarrow> (\<forall>u. \<exists>t. env_url env u = Inr t)"

definition entered :: "forwarded pipeline \<Rightarrow> Server \<Rightarrow> Server \<Rightarrow> bool" where
  "entered out s s' \<longleftrightarrow>
     (case out of
        Proceed fw \<Rightarrow>
          books s' = (ps_bufferedBytes s + fw_bytesHeld fw, counted ActiveRequests (ps_emitted s) + 1,
            ps_chans s, ps_semaphores s)
      | _ \<Rightarrow> books s' = books s)"

lemma entered_admit:
  assumes "urls_parse env"
  shows "entered (fst (admit_request env ch r protocol st rd be body s)) s
    (snd (admit_request env ch r protocol st rd be body s))"
proof (cases "env_marshal env (JObj body)")
  case None
  then show ?thesis by (simp add: admit_request_def Let_def entered_def books_simps)
next
  case (Some newBody)
  obtain target where url: "env_url env (be_BaseURL be) = Inr target"
    using assms by (auto simp: urls_parse_def)
  let ?s = "s\<lparr>ps_journal := map_option (\<lambda>es. es @ [journal_entry env (ch_rid ch) protocol rd be]) (ps_journal s)\<rparr>"
  let ?s2 = "admission_gauges (BackendAttrs (be_ID be) (rd_real rd))
    (?s\<lparr>ps_bufferedBytes := ps_bufferedBytes ?s + int (length newBody)\<rparr>)"
  obtain cap s3 where capture: "startCapture (env_capture env) r (ch_rid ch) (ch_now ch) (rd_model rd) (rd_real rd)
      (be_ID be) protocol st (in_RawBody r) newBody ?s2 = (cap, s3)" by fastforce
  then have "books s3 = books ?s2" by (metis books_startCapture snd_conv)
  with capture Some url show ?thesis
    by (simp add: admit_request_def Let_def entered_def books_simps)
qed

lemma entered_pbind:
  assumes "books (snd m) = books s" and "\<And>x s1. books s1 = books s \<Longrightarrow> entered (fst (f x s1)) s (snd (f x s1))"
  shows "entered (fst (pbind m f)) s (snd (pbind m f))"
  using assms by (cases m) (auto simp: pbind_def entered_def [of "Responded _"] entered_def [of Panicked]
      split: pipeline.split)

lemma entered_proxyRequest:
  assumes "urls_parse env"
  shows "entered (fst (proxyRequest env ch protocol r s)) s (snd (proxyRequest env ch protocol r s))"
proof -
  have admit: "entered (fst (admit_request env ch r p st rd be body s1)) s (snd (admit_request env ch r p st rd be body s1))"
    if "books s1 = books s" for p st rd be body s1
    using entered_admit [OF assms, of ch r p st rd be body s1] that
    by (auto simp: entered_def books_def split: pipeline.splits)
  show ?thesis
    by (auto simp: proxyRequest_def Let_def entered_def [of "Responded _"] books_view.view_route
        split: sum.split option.split intro!: entered_pbind admit)
qed

lemma entered_serve:
  assumes "urls_parse env" and "serve env ch health up r s = (out, s')"
  shows "entered out s s'"
proof -
  have "entered (fst (serve env ch health up r s)) s (snd (serve env ch health up r s))"
    using entered_proxyRequest [OF assms(1), of ch _ r s]
    by (auto simp: serve_def entered_def [of "Responded _"] entered_def [of Panicked]
        split: endpoint.split option.split)
  with assms(2) show ?thesis by simp
qed

section \<open>Preservation\<close>

lemma px_inv_books:
  "px_inv w \<longleftrightarrow>
     fst (books (pw_server w)) = sum_list (map bytes_of (pw_reqs w)) \<and>
     fst (snd (books (pw_server w))) = of_int (tally (\<lambda>r. active (px_phase r)) (pw_reqs w)) \<and>
     (\<forall>r \<in> set (pw_reqs w). parser_ok (px_phase r)) \<and> chans_ok (pw_server w) (pw_reqs w)"
  by (simp add: px_inv_def books_def)

lemma chans_ok_books: "snd (snd (books s')) = snd (snd (books s)) \<Longrightarrow> chans_ok s' rs = chans_ok s rs"
  by (simp add: books_def chans_ok_def)

lemma px_inv_same_books: "books s' = books (pw_server w) \<Longrightarrow> px_inv w \<Longrightarrow> px_inv (w\<lparr>pw_server := s'\<rparr>)"
  using chans_ok_books [of s' "pw_server w"] by (simp add: px_inv_books)

text \<open>A request moves to another phase that holds the same slot.\<close>

lemma chans_okI:
  assumes "\<And>k a. gm_get (ps_semaphores s) k = Some a \<Longrightarrow> a < length (ps_chans s)"
    and "\<And>r a. r \<in> set rs \<Longrightarrow> holds (px_phase r) = Some a \<Longrightarrow> a < length (ps_chans s)"
    and "\<And>a. a < length (ps_chans s) \<Longrightarrow>
      int (snd (ps_chans s ! a)) = holders a rs \<and> snd (ps_chans s ! a) \<le> fst (ps_chans s ! a)"
  shows "chans_ok s rs"
  using assms unfolding chans_ok_def by blast

lemma chans_okD:
  assumes "chans_ok s rs"
  shows "gm_get (ps_semaphores s) k = Some a \<Longrightarrow> a < length (ps_chans s)"
    and "r \<in> set rs \<Longrightarrow> holds (px_phase r) = Some a \<Longrightarrow> a < length (ps_chans s)"
    and "a < length (ps_chans s) \<Longrightarrow> int (snd (ps_chans s ! a)) = holders a rs"
    and "a < length (ps_chans s) \<Longrightarrow> snd (ps_chans s ! a) \<le> fst (ps_chans s ! a)"
  using assms unfolding chans_ok_def by blast+

lemma chans_ok_phase:
  assumes ok: "chans_ok s rs" and n: "n < length rs" and same: "holds ph = holds (px_phase (rs ! n))"
  shows "chans_ok s (rs[n := (rs ! n)\<lparr>px_phase := ph\<rparr>])"
proof (rule chans_okI)
  show "a < length (ps_chans s)" if "gm_get (ps_semaphores s) k = Some a" for k a
    using chans_okD(1) [OF ok that] .
  show "a < length (ps_chans s)"
    if "r \<in> set (rs[n := (rs ! n)\<lparr>px_phase := ph\<rparr>])" "holds (px_phase r) = Some a" for r a
  proof -
    from that(1) have "r \<in> set rs \<or> r = (rs ! n)\<lparr>px_phase := ph\<rparr>"
      by (auto dest!: set_update_subset_insert [THEN subsetD])
    with that(2) same n show ?thesis
      using chans_okD(2) [OF ok, of r a] chans_okD(2) [OF ok, of "rs ! n" a] by auto
  qed
  show "int (snd (ps_chans s ! a)) = holders a (rs[n := (rs ! n)\<lparr>px_phase := ph\<rparr>]) \<and>
      snd (ps_chans s ! a) \<le> fst (ps_chans s ! a)" if "a < length (ps_chans s)" for a
    using chans_okD(3,4) [OF ok that] n same by (simp add: tally_update)
qed

lemma px_inv_phase:
  assumes inv: "px_inv w" and n: "n < length (pw_reqs w)"
    and "holds ph = holds (px_phase (pw_reqs w ! n))" and "parser_ok ph"
    and "fst (books s') = fst (books (pw_server w)) - bytes_of (pw_reqs w ! n)
      + bytes_of ((pw_reqs w ! n)\<lparr>px_phase := ph\<rparr>)"
    and "fst (snd (books s')) = fst (snd (books (pw_server w)))
      - (if active (px_phase (pw_reqs w ! n)) then 1 else 0) + (if active ph then 1 else 0)"
    and "snd (snd (books s')) = snd (snd (books (pw_server w)))"
  shows "px_inv ((px_set n ph w)\<lparr>pw_server := s'\<rparr>)"
proof -
  have "chans_ok s' ((pw_reqs w)[n := (pw_reqs w ! n)\<lparr>px_phase := ph\<rparr>])"
    using inv n assms(3,7) chans_ok_books [OF assms(7)] by (simp add: px_inv_books chans_ok_phase)
  moreover have "\<forall>r \<in> set ((pw_reqs w)[n := (pw_reqs w ! n)\<lparr>px_phase := ph\<rparr>]). parser_ok (px_phase r)"
    using inv assms(4) unfolding px_inv_def by (auto dest!: set_update_subset_insert [THEN subsetD])
  ultimately show ?thesis
    using inv n assms(5,6) by (simp add: px_inv_books px_set_def sum_list_map_update tally_update)
qed

lemma px_inv_settled:
  assumes "px_inv w" and "n < length (pw_reqs w)" and "active (px_phase (pw_reqs w ! n))"
    and "holds (px_phase (pw_reqs w ! n)) = h" and "settled (fw_at w n) (pw_server w) s'"
  shows "px_inv ((px_set n (Answered h) w)\<lparr>pw_server := s'\<rparr>)"
  using assms
  by (intro px_inv_phase)
    (auto simp: settled_def bytes_of_def active_def holds_def parser_ok_def books_def)

lemma px_inv_acquire:
  assumes inv: "px_inv w" and at: "px_at w n Waiting"
    and acq: "acquireSemaphore (be_ID (fw_backend (fw_at w n))) (pw_server w) = Some (h, s')"
  shows "px_inv ((px_set n (Upstream h) w)\<lparr>pw_server := s'\<rparr>)"
proof (cases h)
  case None
  with acq have "s' = pw_server w"
    by (auto simp: acquireSemaphore_def split: option.splits prod.splits if_splits)
  then show ?thesis
    using inv at None by (intro px_inv_phase) (auto simp: bytes_of_def active_def holds_def parser_ok_def)
next
  case (Some a)
  let ?s = "pw_server w"
  obtain cap used where sem: "gm_get (ps_semaphores ?s) (be_ID (fw_backend (fw_at w n))) = Some a"
    and chan: "ps_chans ?s ! a = (cap, used)" "used < cap"
    and s': "s' = ?s\<lparr>ps_chans := (ps_chans ?s)[a := (cap, Suc used)]\<rparr>"
    using acq Some by (auto simp: acquireSemaphore_def split: option.splits prod.splits if_splits)
  have ok: "chans_ok ?s (pw_reqs w)" using inv by (simp add: px_inv_def)
  then have a: "a < length (ps_chans ?s)" using sem by (auto simp: chans_ok_def)
  let ?rs = "(pw_reqs w)[n := (pw_reqs w ! n)\<lparr>px_phase := Upstream (Some a)\<rparr>]"
  have "chans_ok s' ?rs"
  proof (rule chans_okI)
    show "b < length (ps_chans s')" if "gm_get (ps_semaphores s') k = Some b" for k b
      using chans_okD(1) [OF ok] that by (simp add: s')
    show "b < length (ps_chans s')" if "r \<in> set ?rs" "holds (px_phase r) = Some b" for r b
    proof -
      from that(1) have "r \<in> set (pw_reqs w) \<or> r = (pw_reqs w ! n)\<lparr>px_phase := Upstream (Some a)\<rparr>"
        by (auto dest!: set_update_subset_insert [THEN subsetD])
      then show ?thesis using chans_okD(2) [OF ok _ that(2)] that(2) a by (auto simp: s' holds_def)
    qed
    show "int (snd (ps_chans s' ! b)) = holders b ?rs \<and> snd (ps_chans s' ! b) \<le> fst (ps_chans s' ! b)"
      if "b < length (ps_chans s')" for b
      using chans_okD(3,4) [OF ok, of b] that at a chan
      by (auto simp: s' nth_list_update tally_update holds_def)
  qed
  moreover have "\<forall>r \<in> set ?rs. parser_ok (px_phase r)"
    using inv unfolding px_inv_def by (auto simp: parser_ok_def dest!: set_update_subset_insert [THEN subsetD])
  ultimately show ?thesis
    using inv at Some s'
    by (simp add: px_inv_def px_set_def sum_list_map_update tally_update bytes_of_def active_def)
qed

lemma px_inv_return:
  assumes inv: "px_inv w" and at: "px_at w n (Answered h)"
  shows "px_inv ((px_set n Returned w)\<lparr>pw_server := releaseSemaphore h (pw_server w)\<rparr>)"
proof (cases h)
  case None
  then show ?thesis
    using inv at
    by (intro px_inv_phase) (auto simp: releaseSemaphore_def bytes_of_def active_def holds_def parser_ok_def)
next
  case (Some a)
  let ?s = "pw_server w" and ?rs = "(pw_reqs w)[n := (pw_reqs w ! n)\<lparr>px_phase := Returned\<rparr>]"
  obtain cap used where chan: "ps_chans ?s ! a = (cap, used)" by fastforce
  then have s': "releaseSemaphore h ?s = ?s\<lparr>ps_chans := (ps_chans ?s)[a := (cap, used - 1)]\<rparr>" (is "_ = ?s'")
    by (simp add: releaseSemaphore_def Some)
  have ok: "chans_ok ?s (pw_reqs w)" using inv by (simp add: px_inv_def)
  have mem: "pw_reqs w ! n \<in> set (pw_reqs w)" and holds: "holds (px_phase (pw_reqs w ! n)) = Some a"
    using at Some by (simp_all add: holds_def)
  have a: "a < length (ps_chans ?s)" by (rule chans_okD(2) [OF ok mem holds])
  have "0 < holders a (pw_reqs w)"
    using mem holds by (simp add: tally_length) (metis (mono_tags, lifting) filter_empty_conv length_greater_0_conv)
  then have pos: "0 < used" using chans_okD(3) [OF ok a] chan by simp
  have "chans_ok ?s' ?rs"
  proof (rule chans_okI)
    show "b < length (ps_chans ?s')" if "gm_get (ps_semaphores ?s') k = Some b" for k b
      using chans_okD(1) [OF ok] that by simp
    show "b < length (ps_chans ?s')" if "r \<in> set ?rs" "holds (px_phase r) = Some b" for r b
    proof -
      from that(1) have "r \<in> set (pw_reqs w) \<or> r = (pw_reqs w ! n)\<lparr>px_phase := Returned\<rparr>"
        by (auto dest!: set_update_subset_insert [THEN subsetD])
      then show ?thesis using chans_okD(2) [OF ok _ that(2)] that(2) by (auto simp: holds_def)
    qed
    show "int (snd (ps_chans ?s' ! b)) = holders b ?rs \<and> snd (ps_chans ?s' ! b) \<le> fst (ps_chans ?s' ! b)"
      if "b < length (ps_chans ?s')" for b
      using chans_okD(3,4) [OF ok, of b] that at a chan pos Some
      by (auto simp: nth_list_update tally_update holds_def)
  qed
  moreover have "\<forall>r \<in> set ?rs. parser_ok (px_phase r)"
    using inv unfolding px_inv_def by (auto simp: parser_ok_def dest!: set_update_subset_insert [THEN subsetD])
  ultimately show ?thesis
    using inv at
    by (simp add: px_inv_def px_set_def sum_list_map_update tally_update bytes_of_def active_def s')
qed

text \<open>A reload adds free channels and points the semaphores to them.\<close>

definition fresh_chans :: "nat \<Rightarrow> (string, nat) gomap \<Rightarrow> (nat \<times> nat) list \<Rightarrow> (nat \<times> nat) list \<Rightarrow> bool" where
  "fresh_chans m sems old chans \<longleftrightarrow>
     m \<le> length chans \<and> take m chans = old \<and> (\<forall>k a. gm_get sems k = Some a \<longrightarrow> a < length chans) \<and>
     (\<forall>a < length chans. m \<le> a \<longrightarrow> snd (chans ! a) = 0)"

lemma fresh_chans_fold:
  "fresh_chans m sems old chans \<Longrightarrow>
     (case fold (\<lambda>b (sems, chans).
         if be_MaxConcurrency b > 0
         then (gm_set (be_ID b) (length chans) sems, chans @ [(nat (be_MaxConcurrency b), 0)])
         else (sems, chans)) bs (sems, chans) of
       (sems', chans') \<Rightarrow> fresh_chans m sems' old chans')"
proof (induction bs arbitrary: sems chans)
  case (Cons b bs)
  have "fresh_chans m (gm_set (be_ID b) (length chans) sems) old (chans @ [(nat (be_MaxConcurrency b), 0)])"
    using Cons.prems by (auto simp: fresh_chans_def gomap_simps nth_append less_Suc_eq)
  with Cons show ?case by simp
qed simp

lemma buildSemaphores_fresh:
  "fresh_chans (length (ps_chans s)) (ps_semaphores (buildSemaphores cfg s)) (ps_chans s)
     (ps_chans (buildSemaphores cfg s))"
proof -
  have "fresh_chans (length (ps_chans s)) [] (ps_chans s) (ps_chans s)" by (simp add: fresh_chans_def)
  from fresh_chans_fold [OF this, of "cfg_Backends cfg"] show ?thesis
    by (auto simp: buildSemaphores_def split: prod.splits)
qed

lemma chans_ok_fresh:
  assumes ok: "chans_ok s rs"
    and fresh: "fresh_chans (length (ps_chans s)) (ps_semaphores s') (ps_chans s) (ps_chans s')"
  shows "chans_ok s' rs"
proof (rule chans_okI)
  show "a < length (ps_chans s')" if "gm_get (ps_semaphores s') k = Some a" for k a
    using fresh that by (auto simp: fresh_chans_def)
  show "a < length (ps_chans s')" if "r \<in> set rs" "holds (px_phase r) = Some a" for r a
    using chans_okD(2) [OF ok that] fresh by (simp add: fresh_chans_def)
  show "int (snd (ps_chans s' ! a)) = holders a rs \<and> snd (ps_chans s' ! a) \<le> fst (ps_chans s' ! a)"
    if a: "a < length (ps_chans s')" for a
  proof (cases "a < length (ps_chans s)")
    case True
    then have "ps_chans s' ! a = ps_chans s ! a"
      using fresh unfolding fresh_chans_def by (metis nth_take)
    then show ?thesis using chans_okD(3,4) [OF ok True] by simp
  next
    case False
    then have "holders a rs = 0" using chans_okD(2) [OF ok] by (intro tally_none) blast
    then show ?thesis using fresh a False by (simp add: fresh_chans_def)
  qed
qed

lemma Reload_books:
  "fst (books (Reload env cfg s)) = fst (books s) \<and> fst (snd (books (Reload env cfg s))) = fst (snd (books s)) \<and>
   fresh_chans (length (ps_chans s)) (ps_semaphores (Reload env cfg s)) (ps_chans s) (ps_chans (Reload env cfg s))"
  using buildSemaphores_fresh [of "s\<lparr>ps_rtr := cfg, ps_cfg := cfg\<rparr>" cfg]
  by (simp add: Reload_def Let_def applyCaptureConfig_def books_def buildSemaphores_def split: prod.split)

lemma px_inv_step:
  assumes "urls_parse env" and "px_step env w w'" and "px_inv w"
  shows "px_inv w'"
  using assms(2,3)
proof (induction rule: px_step.induct)
  case (rejects ch health up r out s')
  then have "books s' = books (pw_server w)"
    using entered_serve [OF assms(1) rejects(1)] by (cases out) (auto simp: entered_def)
  then show ?case using rejects by (intro px_inv_same_books)
next
  case (admits ch health up r fw s')
  have "entered (Proceed fw) (pw_server w) s'" by (rule entered_serve [OF assms(1) admits(1)])
  then have b: "books s' = (ps_bufferedBytes (pw_server w) + fw_bytesHeld fw,
      counted ActiveRequests (ps_emitted (pw_server w)) + 1, snd (snd (books (pw_server w))))"
    by (simp add: entered_def books_def)
  have "chans_ok s' (pw_reqs w @ [\<lparr>px_fw = fw, px_phase = Waiting\<rparr>])"
    using admits(2) chans_ok_books [of s' "pw_server w"] b
    unfolding px_inv_def chans_ok_def by (auto simp: holds_def)
  with admits(2) b show ?case
    by (auto simp: px_inv_books books_def bytes_of_def active_def parser_ok_def)
next
  case (acquires n h s')
  then show ?case by (intro px_inv_acquire)
next
  case (gives_up n dk now)
  then show ?case
    by (intro px_inv_phase)
      (auto simp: give_up_def end_capture_error_def bytes_of_def active_def holds_def parser_ok_def books_def)
next
  case (fails n h dk now ords err resp s')
  then show ?case by (intro px_inv_settled settled_error) (auto simp: active_def holds_def)
next
  case (read_fails n h dk dk' now ords err resp s')
  then show ?case by (intro px_inv_settled settled_read_failed) (auto simp: active_def holds_def)
next
  case (answers n h status dk now ords data)
  then show ?case by (intro px_inv_settled settled_answer) (auto simp: active_def holds_def)
next
  case (opens n h level)
  let ?ph = "Streaming h (stream_opened level (fw_at w n)) (new_tee (fw_cap (fw_at w n)))"
  have "parser_ok ?ph" by (simp add: parser_ok_def stream_opened_def sse_inv_new newOllamaParser_def)
  with opens px_inv_phase [of w n ?ph "pw_server w"] show ?case
    by (simp add: bytes_of_def active_def holds_def px_set_def)
next
  case (feeds n h p tee now bytes)
  let ?ph = "Streaming h (feed_parser env now bytes p) (tee_write bytes tee)"
  from feeds have "parser_ok (Streaming h p tee)" by (metis nth_mem px_inv_def)
  then have "parser_ok ?ph"
    by (auto simp: parser_ok_def feed_parser_def sse_inv_feed ollama_feed_def split: parser.splits)
  with feeds px_inv_phase [of w n ?ph "pw_server w"] show ?case
    by (simp add: bytes_of_def active_def holds_def px_set_def)
next
  case (closes n h p tee dk now ords readErr clientGone)
  then have "parser_ok (Streaming h p tee)" by (metis nth_mem px_inv_def)
  with closes show ?case by (intro px_inv_settled settled_close) (auto simp: active_def holds_def)
next
  case (returns n h)
  then show ?case by (intro px_inv_return)
next
  case (reloads cfg)
  then show ?case
    using Reload_books [of env cfg "pw_server w"] chans_ok_fresh [of "pw_server w" "pw_reqs w" "Reload env cfg (pw_server w)"]
    by (simp add: px_inv_books)
next
  case arms
  then show ?case by (intro px_inv_same_books) (simp_all add: books_simps)
next
  case (monitors bal pf j j' bal')
  then show ?case by (intro px_inv_same_books) (simp_all add: books_simps)
qed

lemma px_inv_start: "px_inv (px_start env cfg journal)"
proof -
  let ?s0 = "\<lparr>ps_cfg = cfg, ps_rtr = cfg, ps_journal = (if journal then Some [] else None), ps_capture = None,
    ps_balancer = None, ps_loopDetector = [], ps_semaphores = [], ps_chans = [], ps_bufferedBytes = 0, ps_emitted = [], ps_files = []\<rparr>"
  have "chans_ok ?s0 []" by (simp add: chans_ok_def)
  then have "chans_ok (buildSemaphores cfg ?s0) []" by (rule chans_ok_fresh) (rule buildSemaphores_fresh)
  then have chans: "chans_ok (server_New env cfg journal) []"
    by (simp add: server_New_def Let_def applyCaptureConfig_def chans_ok_def)
  have "books (server_New env cfg journal) = (0, 0, snd (snd (books (server_New env cfg journal))))"
    by (simp add: server_New_def Let_def applyCaptureConfig_def books_def buildSemaphores_def split: prod.split)
  then have "fst (books (server_New env cfg journal)) = 0" "fst (snd (books (server_New env cfg journal))) = 0"
    by (metis fst_conv, metis fst_conv snd_conv)
  with chans show ?thesis by (simp add: px_inv_books px_start_def tally_def)
qed

lemma px_inv_reachable:
  assumes "urls_parse env" and "(px_step env)\<^sup>*\<^sup>* (px_start env cfg journal) w"
  shows "px_inv w"
  using assms(2)
proof (induction rule: rtranclp_induct)
  case base
  show ?case by (rule px_inv_start)
next
  case (step w w')
  then show ?case by (blast intro: px_inv_step [OF assms(1)])
qed

lemma bytes_of_sum:
  "sum_list (map bytes_of rs) =
     sum_list (map (fw_bytesHeld \<circ> px_fw) (filter (\<lambda>r. active (px_phase r)) rs)) +
     sum_list (map (fw_bytesHeld \<circ> px_fw) (filter (\<lambda>r. px_phase r = GaveUp) rs))"
  by (induction rs) (auto simp: bytes_of_def active_def split: px_phase.splits)

section \<open>Properties\<close>


definition sample_capture_env :: capture_env where
  "sample_capture_env =
     \<lparr>ce_valid = (\<lambda>_. True), ce_quote = Some, ce_rfc3339 = (\<lambda>_. ''t''), ce_stamp = id,
      ce_join = (\<lambda>d f. d @ ''/'' @ f), ce_indent = (\<lambda>p. Some (rp_SSE (pl_Response p))), ce_ulow = id\<rparr>"

definition sample_env :: proxy_env where
  "sample_env =
     \<lparr>env_parse = (\<lambda>s. if s = ''{}'' then Some (JObj []) else None), env_marshal = (\<lambda>_. Some ''{}''),
      env_sha256 = id, env_sprint = (\<lambda>_. ''''), env_ulow = id, env_big = (\<lambda>_. 0), env_quote = id,
      env_url = (\<lambda>_. Inr \<lparr>tu_Scheme = ''http'', tu_Host = ''b''\<rparr>), env_mkdir = (\<lambda>_. None), env_hardened = True, env_capture = sample_capture_env\<rparr>"

text \<open>A configuration without routes that passes every request to one backend.\<close>

definition passthrough_config :: Config where
  "passthrough_config =
     sample_config\<lparr>cfg_Server := (cfg_Server sample_config)
        \<lparr>srv_APIKey := '''', srv_PassthroughUnrouted := True, srv_MaxRequestBodyMB := 0, srv_DropEmptyContent := None\<rparr>,
       cfg_Backends := [plain_backend ''openai''], cfg_Groups := [], cfg_routeByModel := []\<rparr>"

definition sample_request :: http_request where
  "sample_request =
     \<lparr>in_Method = ''POST'', in_Path = ''/v1/completions'', in_Header = [], in_RawBody = ''{}'', in_readFails = False\<rparr>"

definition sample_choices :: choices where
  "sample_choices = \<lparr>ch_now = 0, ch_unix = 0, ch_pool = (\<lambda>_. []), ch_groups = (\<lambda>_. []), ch_rid = ''r''\<rparr>"

lemma passthrough_config_sel:
  "srv_APIKey (cfg_Server passthrough_config) = []" "srv_PassthroughUnrouted (cfg_Server passthrough_config)"
  "srv_MaxRequestBodyMB (cfg_Server passthrough_config) = 0"
  "ShouldDropEmptyContent passthrough_config None (Some (plain_backend ty)) = False"
  "DefaultBackend passthrough_config = Some (plain_backend ''openai'')"
  "Resolve passthrough_config m body = Inl (UnknownModel m)"
  by (simp_all add: passthrough_config_def plain_backend_def ShouldDropEmptyContent_def DefaultBackend_def
      Resolve_def resolve.simps cfg_Route_def)

lemma sample_env_sel:
  "env_parse sample_env ''{}'' = Some (JObj [])" "env_marshal sample_env v = Some ''{}''"
  "env_url sample_env u = Inr \<lparr>tu_Scheme = ''http'', tu_Host = ''b''\<rparr>"
  by (simp_all add: sample_env_def)

lemma sample_admitted:
  "\<exists>fw s'. serve sample_env sample_choices [] up sample_request
      (server_New sample_env passthrough_config False) = (Proceed fw, s') \<and> fw_bytesHeld fw = 2"
proof -
  define s where "s = server_New sample_env passthrough_config False"
  have s: "ps_cfg s = passthrough_config" "ps_rtr s = passthrough_config"
    by (simp_all add: s_def server_New_def Let_def applyCaptureConfig_def buildSemaphores_def split: prod.split)
  have "endpoint_of ''/v1/completions'' = Proxied ''openai''" by (simp add: endpoint_of_def)
  then have "\<exists>fw s'. serve sample_env sample_choices [] up sample_request s = (Proceed fw, s') \<and> fw_bytesHeld fw = 2"
    by (simp add: serve_def sample_request_def bearerAuth_def s passthrough_config_sel sample_env_sel proxyRequest_def
        read_body_def decode_body_def route_request_def route_unresolved_def pbind_def rewrite_request_def
        checkEmptyMessages_def admit_request_def Let_def split: prod.split)
  then show ?thesis by (simp add: s_def)
qed


end
