(* ===== verification/Proxy_Counters.thy ===== *)
theory Proxy_Counters
  imports Proxy_System
begin

text \<open>
  The pipeline against the balancer: what a request adds to the in-flight counter of the chosen
  backend, what its end takes away, and on which balancer. The same theory holds the guard of the
  routing table. \<open>counter_moved\<close> is the change of one counter with all others unchanged.
\<close>

section \<open>The in-flight counters seen from the pipeline\<close>

text \<open>The change of the in-flight counter of one backend, the others unchanged.\<close>

definition counter_moved :: "int \<Rightarrow> string \<Rightarrow> Balancer \<Rightarrow> Balancer \<Rightarrow> bool" where
  "counter_moved d i bal bal' \<longleftrightarrow>
     (\<forall>g i'. map_option InFlight (state_at bal' g i') =
        map_option (\<lambda>st. InFlight st + (if i' = i then d else 0)) (state_at bal g i'))"

definition bal_usable :: "(nat \<Rightarrow> string list) \<Rightarrow> Balancer \<Rightarrow> bool" where
  "bal_usable ords bal \<longleftrightarrow> bal_wf bal \<and> groups_disjoint bal \<and> (\<forall>n. range_order (ords n) (bal_groups bal))"

lemma bal_usable_at_first:
  assumes "bal_usable ords bal" and "\<And>st. ID (f st) = ID st"
  shows "bal_usable ords (at_first (ords n) i f bal)"
  using assms by (simp add: bal_usable_def at_first_on_all bal_wf_on_all)

lemma counter_moved_frames:
  "counter_moved d i bal bal' \<Longrightarrow> frames bal' bal'' \<Longrightarrow> counter_moved d i bal bal''"
proof -
  assume moved: "counter_moved d i bal bal'" and fr: "frames bal' bal''"
  have "map_option InFlight (state_at bal'' g k) = map_option InFlight (state_at bal' g k)" for g k
  proof -
    have "map_option fst (map_option (\<lambda>st. (InFlight st, Flow st)) (state_at bal'' g k)) =
        map_option fst (map_option (\<lambda>st. (InFlight st, Flow st)) (state_at bal' g k))"
      using fr by (simp add: frames_def)
    then show ?thesis by (simp add: option.map_comp comp_def)
  qed
  with moved show ?thesis by (simp add: counter_moved_def)
qed

lemma counter_moved_at_first:
  assumes "bal_usable ords bal" and "\<And>st. InFlight (f st) = InFlight st + d"
  shows "counter_moved d i bal (at_first (ords n) i f bal)"
  using assms by (auto simp: counter_moved_def bal_usable_def state_at_at_first option.map_comp comp_def)

lemma counter_moved_trans:
  "counter_moved d i a b \<Longrightarrow> counter_moved e i b c \<Longrightarrow> counter_moved (d + e) i a c"
proof -
  assume m: "counter_moved d i a b" "counter_moved e i b c"
  have shift: "map_option (\<lambda>st. InFlight st + x) o1 = map_option (\<lambda>n. n + x) (map_option InFlight o1)" for x o1
    by (simp add: option.map_comp comp_def)
  show ?thesis
    using m unfolding counter_moved_def shift by (simp add: option.map_comp comp_def add.assoc)
qed

lemma counter_moved_complete:
  assumes "bal_usable ords bal"
  shows "counter_moved (- 1) i bal (CompleteAndDecr now ords i success timedOut ttft bal)"
proof -
  let ?b1 = "balancer_Complete now (ords 0) i success timedOut ttft bal"
  have "counter_moved 0 i bal ?b1"
    unfolding balancer_Complete_def using counter_moved_at_first [OF assms, of _ 0] by simp
  moreover have "bal_usable ords ?b1"
    unfolding balancer_Complete_def by (rule bal_usable_at_first [OF assms]) simp
  then have "counter_moved (- 1) i ?b1 (Decr (ords 1) i ?b1)"
    unfolding Decr_def by (rule counter_moved_at_first) simp
  ultimately have "counter_moved (0 + - 1) i bal (Decr (ords 1) i ?b1)" by (rule counter_moved_trans)
  then show ?thesis
    using counter_moved_frames [OF _ frames_recordRequestOutcome [of _ now i success]]
    unfolding CompleteAndDecr_def Let_def by (cases timedOut) simp_all
qed

lemma counter_moved_error:
  assumes "ps_balancer s = Some bal" and "bal_usable ords bal"
    and "errorHandler env dk now ords err fw s = (resp, s')"
  shows "\<exists>bal'. ps_balancer s' = Some bal' \<and> counter_moved (- 1) (be_ID (fw_backend fw)) bal bal'"
proof -
  let ?bal1 = "complete_on now ords False (io_timeout err) fw bal"
  have moved: "counter_moved (- 1) (be_ID (fw_backend fw)) bal ?bal1"
    unfolding complete_on_def by (rule counter_moved_complete [OF assms(2)])
  have "ps_balancer s' = Some (if \<not> io_timeout err then InvalidatePin now (fw_group fw) (fw_affKey fw) ?bal1 else ?bal1)"
    using assms(1,3)
    by (auto simp: errorHandler_def Let_def with_balancer_def finish_accounting_def release_bytes_def
        end_capture_error_def)
  with moved counter_moved_frames [OF moved frames_InvalidatePin] show ?thesis by auto
qed

lemma balancer_New_usable:
  assumes "gm_wf (cfg_Groups cfg)" and "distinct (map be_ID (cfg_Backends cfg))"
    and "\<forall>n. range_order (ords n) (cfg_Groups cfg)"
  shows "bal_usable ords (balancer_New cfg)"
  using assms balancer_New_wf balancer_New_disjoint
  by (simp add: bal_usable_def range_order_def balancer_New_def)

text \<open>The selection of a load-balanced request raises the counter of the chosen backend.\<close>

lemma counter_moved_select:
  assumes "bal_usable (ch_groups ch) bal"
    and "select_backend env ch r st body res bal s = (Proceed (b, k), s')"
  shows "\<exists>i bal'. b = cfg_Backend (ps_cfg s) i \<and> ps_balancer s' = Some bal' \<and> ps_cfg s' = ps_cfg s \<and>
    counter_moved 1 i bal bal'"
proof -
  obtain ctx g key sel bal1 where
    sel: "balancer_Select (ch_now ch) (ch_pool ch) g key ctx bal = (Inr sel, bal1)"
    and b: "b = cfg_Backend (ps_cfg s) (ID sel)" and cfg: "ps_cfg s' = ps_cfg s"
    and s': "ps_balancer s' = Some (balancer_Dispatch (ch_now ch) (ch_groups ch 1) (ID sel)
      (Incr (ch_groups ch 0) (ID sel) bal1))"
    using assms(2) by (auto simp: select_backend_def Let_def
        split: option.splits prod.splits sum.splits sel_error.splits if_splits)
  have fr: "frames bal bal1" using frames_Select [of bal "ch_now ch" "ch_pool ch" g key ctx] sel by simp
  have groups: "range_order ks (bal_groups bal1) = range_order ks (bal_groups bal)" for ks
    using groups_Select(2) [of ks "ch_now ch" "ch_pool ch" g key ctx bal] sel by simp
  have u1: "bal_usable (ch_groups ch) bal1"
    using assms(1) fr groups by (simp add: bal_usable_def frames_def)
  have "counter_moved 0 i bal bal1" for i
    using counter_moved_frames [OF _ fr, of 0 i bal] by (simp add: counter_moved_def)
  moreover have "counter_moved 1 (ID sel) bal1 (Incr (ch_groups ch 0) (ID sel) bal1)"
    unfolding Incr_def by (rule counter_moved_at_first [OF u1]) simp
  moreover have "bal_usable (ch_groups ch) (Incr (ch_groups ch 0) (ID sel) bal1)"
    unfolding Incr_def by (rule bal_usable_at_first [OF u1]) simp
  then have "counter_moved 0 (ID sel) (Incr (ch_groups ch 0) (ID sel) bal1)
      (balancer_Dispatch (ch_now ch) (ch_groups ch 1) (ID sel) (Incr (ch_groups ch 0) (ID sel) bal1))"
    unfolding balancer_Dispatch_def by (rule counter_moved_at_first) simp
  ultimately have "counter_moved (0 + 1 + 0) (ID sel) bal
      (balancer_Dispatch (ch_now ch) (ch_groups ch 1) (ID sel) (Incr (ch_groups ch 0) (ID sel) bal1))"
    by (blast intro: counter_moved_trans)
  with b cfg s' show ?thesis by auto
qed

lemma counter_moved_choose:
  assumes "ps_balancer s = Some bal" and "bal_usable (ch_groups ch) bal"
    and "choose_backend env ch r st body res s = (Proceed (b, g, k, True), s')"
  shows "\<exists>i bal'. b = cfg_Backend (ps_cfg s) i \<and> ps_balancer s' = Some bal' \<and> counter_moved 1 i bal bal'"
proof -
  have "\<exists>k. select_backend env ch r st body res bal s = (Proceed (b, k), s')"
    using assms(1,3)
    by (auto simp: choose_backend_def pbind_def split: if_splits prod.splits pipeline.splits)
  then show ?thesis using counter_moved_select [OF assms(2)] by blast
qed

lemma counter_moved_route:
  assumes "ps_balancer s = Some bal" and "bal_usable (ch_groups ch) bal"
    and "route_request env ch r protocol body0 s = (Proceed rd, s1)" and "rd_lb rd"
  shows "\<exists>i bal'. rd_backend rd = cfg_Backend (ps_cfg s) i \<and> ps_balancer s1 = Some bal' \<and> counter_moved 1 i bal bal'"
proof -
  obtain m st b keys res where "route_resolved env ch r m st b keys res s = (Proceed rd, s1)"
    using assms(3,4) by (auto simp: route_request_def Let_def route_unresolved_def
        split: sum.splits prod.splits if_splits option.splits)
  then obtain body k out s0 body1 g kk where
    defenders: "run_defenders env ch res body k s = (out, s0)"
    and choose: "choose_backend env ch r st body1 res s0 = (Proceed (rd_backend rd, g, kk, True), s1)"
    using assms(4)
    by (auto simp: route_resolved_def Let_def pbind_def
        split: option.splits prod.splits pipeline.splits if_splits)
  have "ps_balancer s0 = Some bal" "ps_cfg s0 = ps_cfg s"
    using defenders assms(1) by (auto simp: run_defenders_def split: option.splits prod.splits)
  with choose counter_moved_choose [OF _ assms(2) choose] show ?thesis by simp
qed


text \<open>
  C39: a reload lets the counters fall below zero. The end of a request is entered in the balancer of
  that moment: when a reload has installed a new balancer in between, the completion of the older
  request takes the untouched counter of its backend in the new balancer from 0 to -1.
\<close>

theorem reload_counts_below_zero:
  assumes "gm_wf (cfg_Groups cfg)" and "distinct (map be_ID (cfg_Backends cfg))"
    and "\<forall>n. range_order (ords n) (cfg_Groups cfg)"
    and st: "state_at (balancer_New cfg) g (be_ID (fw_backend fw)) = Some st0"
    and handled: "errorHandler env dk now ords err fw (Reload env cfg s) = (resp, s')"
  shows "\<exists>bal' st. ps_balancer s' = Some bal' \<and> state_at bal' g (be_ID (fw_backend fw)) = Some st \<and> InFlight st = - 1"
proof -
  have "cfg_Groups cfg \<noteq> []" using st by (auto simp: state_at_def balancer_New_def gm_map_values_def)
  then have "ps_balancer (Reload env cfg s) = Some (balancer_New cfg)" by (simp add: Reload_def Let_def)
  from counter_moved_error [OF this balancer_New_usable [OF assms(1-3)] handled]
  obtain bal' where bal': "ps_balancer s' = Some bal'"
    and moved: "counter_moved (- 1) (be_ID (fw_backend fw)) (balancer_New cfg) bal'" by blast
  have "InFlight st0 = 0" using balancer_New_state [OF st] by (auto simp: NewBackendState_def)
  then have "map_option InFlight (state_at bal' g (be_ID (fw_backend fw))) = Some (- 1)"
    using moved st by (simp add: counter_moved_def)
  with bal' show ?thesis by auto
qed



text \<open>A forwarded request of the backend g1, admitted before a reload.\<close>

definition old_request :: forwarded where
  "old_request =
     \<lparr>fw_backend = (plain_backend ''openai'')\<lparr>be_ID := ''g1''\<rparr>, fw_model = ''m'', fw_real = ''m'', fw_group = ''gpu'',
      fw_affKey = '''', fw_lb = True, fw_streaming = False, fw_bytesHeld = 2, fw_body = ''{}'',
      fw_target = \<lparr>tu_Scheme = ''http'', tu_Host = ''b''\<rparr>, fw_headers = \<lparr>hdr_Add = [], hdr_Remove = [], hdr_Rename = []\<rparr>,
      fw_cap = None, fw_t0 = 0, fw_rid = ''r''\<rparr>"

lemma sample_g1: "\<exists>st. state_at (balancer_New sample_config) ''gpu'' ''g1'' = Some st"
proof -
  have "''g1'' \<in> set (map be_ID (GroupBackends sample_config ''gpu''))"
    using sample_config_groups(4) by simp
  then obtain be where be: "be \<in> set (GroupBackends sample_config ''gpu'')" "be_ID be = ''g1''" by auto
  with group_states_has [OF be(1), of "default_group None"] sample_config_groups(3) show ?thesis
    by (auto simp: state_at_def balancer_New_def gm_get_map_values)
qed

theorem reload_counts_below_zero_witness:
  "\<exists>bal' st. ps_balancer (snd (errorHandler sample_env \<lparr>dk_write = WriteOk, dk_rename = None, dk_removable = True\<rparr> 0 (\<lambda>_. [''gpu'']) (IoError ''reset'' False) old_request
      (Reload sample_env sample_config (server_New sample_env sample_config False)))) = Some bal' \<and>
    state_at bal' ''gpu'' ''g1'' = Some st \<and> InFlight st = - 1"
proof -
  obtain st0 where st0: "state_at (balancer_New sample_config) ''gpu'' ''g1'' = Some st0" using sample_g1 by blast
  have id: "be_ID (fw_backend old_request) = ''g1''" by (simp add: old_request_def)
  have keys: "gm_keys (cfg_Groups sample_config) = [''gpu'']"
    by (simp add: sample_config_def Load_def Let_def validate_def validateBackends_def validateRoutes_def
        applyDefaults_def sample_defs default_backend_def system_prompt_ops_def)
  let ?s = "Reload sample_env sample_config (server_New sample_env sample_config False)"
  obtain resp s' where h: "errorHandler sample_env \<lparr>dk_write = WriteOk, dk_rename = None, dk_removable = True\<rparr> 0
      (\<lambda>_. [''gpu'']) (IoError ''reset'' False) old_request ?s = (resp, s')"
    by fastforce
  have "\<forall>n :: nat. range_order [''gpu''] (cfg_Groups sample_config)"
    unfolding range_order_def keys by simp
  from reload_counts_below_zero [OF sample_config_groups(1,2) this st0 [folded id] h] h show ?thesis
    by (simp add: id)
qed

text \<open>A load-balanced route with the empty-message guard, and a body with an empty message.\<close>

definition guarded_pool :: Route where
  "guarded_pool = guarded_route\<lparr>rt_BackendGroup := ''gpu''\<rparr>"

definition guarded_config :: Config where
  "guarded_config =
     sample_config\<lparr>cfg_Server := (cfg_Server sample_config)\<lparr>srv_MaxRequestBodyMB := 0\<rparr>,
       cfg_routeByModel := [(''pool'', guarded_pool)]\<rparr>"

definition empty_message :: obj where
  "empty_message =
     [(''model'', JStr ''pool''),
      (''messages'', JArr [JObj [(''role'', JStr ''assistant''), (''content'', JNull)]])]"

definition guarded_env :: proxy_env where
  "guarded_env = sample_env\<lparr>env_parse := (\<lambda>_. Some (JObj empty_message))\<rparr>"

lemma guarded_config_sel:
  "gm_get (cfg_Groups guarded_config) ''gpu'' = Some (default_group None)"
  "gm_keys (cfg_Groups guarded_config) = [''gpu'']" "gm_wf (cfg_Groups guarded_config)"
  "distinct (map be_ID (cfg_Backends guarded_config))"
  "map be_ID (GroupBackends guarded_config ''gpu'') = [''g1'', ''g2'']"
  "cfg_Route guarded_config ''pool'' = Some guarded_pool"
  "srv_MaxRequestBodyMB (cfg_Server guarded_config) = 0"
  "cfg_Defenders guarded_config = \<lparr>def_LoopDetection = None, def_ZeroContentDetection = None\<rparr>"
proof -
  show "gm_keys (cfg_Groups guarded_config) = [''gpu'']"
    "cfg_Defenders guarded_config = \<lparr>def_LoopDetection = None, def_ZeroContentDetection = None\<rparr>"
    by (simp_all add: guarded_config_def sample_config_def Load_def Let_def validate_def validateBackends_def
        validateRoutes_def applyDefaults_def sample_defs default_backend_def system_prompt_ops_def)
qed (use sample_config_groups in \<open>simp_all add: guarded_config_def GroupBackends_def cfg_Route_def\<close>)

lemma guarded_resolves:
  "\<exists>res. Resolve guarded_config ''pool'' empty_message = Inr res \<and> res_Group res = ''gpu'' \<and>
     res_Route res = guarded_pool \<and> res_Params res = []"
proof -
  obtain b bs where "GroupBackends guarded_config ''gpu'' = b # bs"
    using guarded_config_sel(5) by (cases "GroupBackends guarded_config ''gpu''") auto
  then show ?thesis
    by (simp add: Resolve_def resolve.simps guarded_config_sel guarded_pool_def guarded_route_def make_resolution_def
        mergeParams_def gm_copy_into_def samplingKeys_def empty_message_def)
qed

definition guarded_choices :: choices where
  "guarded_choices =
     sample_choices\<lparr>ch_pool := (\<lambda>_. gm_keys (group_states guarded_config ''gpu'' (default_group None))),
       ch_groups := (\<lambda>_. [''gpu''])\<rparr>"

text \<open>The balancer of the configuration finds a backend for the group.\<close>

lemma guarded_select:
  "\<exists>st bal'. balancer_Select now (ch_pool guarded_choices) ''gpu'' key ctx (balancer_New guarded_config) = (Inr st, bal')"
proof -
  let ?bal = "balancer_New guarded_config"
  obtain grp where grp: "gm_get (bal_groups ?bal) ''gpu'' = Some grp"
    and sts: "bg_States grp = group_states guarded_config ''gpu'' (default_group None)"
    using guarded_config_sel(1) by (simp add: balancer_New_def gm_get_map_values)
  obtain be where "be \<in> set (GroupBackends guarded_config ''gpu'')"
    using guarded_config_sel(5) by (cases "GroupBackends guarded_config ''gpu''") auto
  from group_states_has [OF this, of "default_group None"] obtain st where
    "state_at ?bal ''gpu'' (be_ID be) = Some st" by (auto simp: state_at_def grp sts)
  moreover have "\<forall>n. range_order (ch_pool guarded_choices n) (bg_States grp)"
    by (simp add: guarded_choices_def sts group_states_wf)
  ultimately show ?thesis
    using balancer_Select_member [OF balancer_New_wf [OF guarded_config_sel(3)] grp] by (metis prod.collapse)
qed

lemma guarded_route_request:
  assumes s: "ps_cfg s = guarded_config" "ps_rtr s = guarded_config" "ps_balancer s = Some (balancer_New guarded_config)"
  shows "\<exists>rd s1. route_request guarded_env guarded_choices r ''openai'' (Some empty_message) s = (Proceed rd, s1) \<and>
    rd_lb rd \<and> map_option res_Route (rd_res rd) = Some guarded_pool \<and>
    get_arr (rd_body rd) ''messages'' = get_arr empty_message ''messages''"
proof -
  obtain res where res: "Resolve guarded_config ''pool'' empty_message = Inr res" "res_Group res = ''gpu''"
    "res_Route res = guarded_pool" "res_Params res = []"
    using guarded_resolves by blast
  have body: "get_str empty_message ''model'' = Some ''pool''" "get_bool empty_message ''stream'' = None"
    "getLastUserMessage empty_message = None" "FirstUserMessageKey empty_message n = Some []"
    for n by (simp_all add: empty_message_def getLastUserMessage_def FirstUserMessageKey_def)
  have key: "aff_Key (grp_Affinity (default_group None)) = ''first_user_message''"
    by (simp add: default_group_def Let_def zero_GroupConfig_def or_default_str_def)
  have defenders: "run_defenders guarded_env guarded_choices res empty_message k s = (Proceed empty_message, s)" for k
    by (cases s) (simp add: run_defenders_def checkDefenders_def checkZeroContent_def body Let_def split: prod.split)
  have aff: "affinity_key_of guarded_env r empty_message (default_group None) = Some []"
    by (simp add: affinity_key_of_def key body)
  let ?ctx = "Some \<lparr>ctx_AffinityKey = [], ctx_IsStreaming = False, ctx_EstimatedSize = estimateTokens empty_message,
      ctx_StaleThreshold = 0\<rparr>"
  obtain st bal' where "balancer_Select (ch_now guarded_choices) (ch_pool guarded_choices) ''gpu'' [] ?ctx
      (balancer_New guarded_config) = (Inr st, bal')"
    using guarded_select by blast
  then obtain b k s' where "select_backend guarded_env guarded_choices r False empty_message res
      (balancer_New guarded_config) s = (Proceed (b, k), s')"
    by (simp add: select_backend_def s(1) res(2) guarded_config_sel(1) key aff)
  then have choose: "choose_backend guarded_env guarded_choices r False empty_message res s =
      (Proceed (b, ''gpu'', k, True), s')"
    by (simp add: choose_backend_def s res pbind_def)
  have keyed: "\<exists>kk. defender_key guarded_env guarded_config r empty_message res ''pool'' = Some kk"
    by (simp add: defender_key_def res(2) guarded_config_sel(1) aff)
  have "gm_get (dedup_max_tokens empty_message) ''messages'' = gm_get empty_message ''messages''"
    by (simp add: dedup_max_tokens_def gomap_simps)
  then have "get_arr (gm_set ''model'' v (dedup_max_tokens empty_message)) ''messages'' = get_arr empty_message ''messages''"
    for v by (simp add: gomap_simps)
  with keyed show ?thesis
    by (auto simp: route_request_def s(1,2) body(1,2) res(1,3,4) route_resolved_def defenders pbind_def choose
        apply_params_def gm_copy_into_def)
qed


end
