(* ===== verification/Proxy_Metrics.thy ===== *)
theory Proxy_Metrics
  imports Proxy_System
begin

text \<open>
  The measurements of the interleaved server against the types of their instruments, and the way
  of a request to its end. \<open>metrics_inv\<close> follows each measurement from the operation that makes it:
  it fits its instrument and carries the backend and the model of an admitted request. \<open>rank\<close> orders
  the phases of a request; no step leads back.
\<close>

section \<open>Measurements of the parsers\<close>

definition sse_recorded :: "bool \<Rightarrow> string \<Rightarrow> string \<Rightarrow> sseParser \<Rightarrow> bool" where
  "sse_recorded c b m p \<longleftrightarrow> sse_backendID p = b \<and> sse_model p = m \<and> list_all (recorded_for c b m) (sse_emitted p)"

lemma sse_recorded_new: "sse_recorded c b m ((newSSEParser b m ty t0)\<lparr>captureContent := cc\<rparr>)"
  by (simp add: sse_recorded_def newSSEParser_def)

lemma sse_recorded_update [simp]:
  "sse_recorded c b m (p\<lparr>contentChars := n\<rparr>) = sse_recorded c b m p" "sse_recorded c b m (p\<lparr>thinkChars := n\<rparr>) = sse_recorded c b m p"
  "sse_recorded c b m (p\<lparr>promptToks := n\<rparr>) = sse_recorded c b m p" "sse_recorded c b m (p\<lparr>completionToks := n\<rparr>) = sse_recorded c b m p"
  "sse_recorded c b m (p\<lparr>anthropicInputTokens := n\<rparr>) = sse_recorded c b m p"
  "sse_recorded c b m (p\<lparr>anthropicOutputTokens := n\<rparr>) = sse_recorded c b m p"
  "sse_recorded c b m (p\<lparr>lineBuf := x\<rparr>) = sse_recorded c b m p"
  "sse_recorded c b m (p\<lparr>ttftDone := d\<rparr>) = sse_recorded c b m p" "sse_recorded c b m (p\<lparr>t0FirstTok := n\<rparr>) = sse_recorded c b m p"
  by (simp_all add: sse_recorded_def)

lemma sse_recorded_emit [simp]:
  "sse_recorded c b m p \<Longrightarrow> label_names i = [''backend'', ''model''] \<Longrightarrow> takes_value c i q \<Longrightarrow> sse_recorded c b m (sse_emit i q p)"
  by (auto simp: sse_recorded_def sse_emit_def)

lemma backend_labels [simp]:
  "label_names TTFT = [''backend'', ''model'']" "label_names PromptTokens = [''backend'', ''model'']"
  "label_names CompletionTokens = [''backend'', ''model'']" "label_names GenerationTokensPerSec = [''backend'', ''model'']"
  "label_names ThinkContentRatio = [''backend'', ''model'']" "label_names PromptTokensPerRequest = [''backend'', ''model'']"
  "label_names ActiveRequests = [''backend'', ''model'']"
  by (simp_all add: label_names_def)

lemma other_labels [simp]:
  "label_names RequestDuration = [''backend'', ''model'', ''status'']"
  "label_names RequestsTotal = [''backend'', ''model'', ''status'']" "label_names ActiveRequestsTotal = []"
  "label_names AffinityCacheEntries = []" "label_names RequestBodyBytesBuffered = []"
  by (simp_all add: label_names_def)

lemma float_takes_all [simp]:
  "takes_value c TTFT q" "takes_value c GenerationTokensPerSec q" "takes_value c ThinkContentRatio q"
  "takes_value c RequestDuration q" "takes_value c ActiveRequestsTotal q" "takes_value c AffinityCacheEntries q"
  "takes_value c RequestBodyBytesBuffered q"
  by (simp_all add: takes_value_def)

lemma unit_values [simp]:
  "takes_value c ActiveRequests 1" "takes_value c ActiveRequests (- 1)" "takes_value c RequestsTotal 1"
  by (simp_all add: takes_value_def)

lemma sse_recorded_append [simp]: "sse_recorded c b m (appendContent t p) = sse_recorded c b m p"
  by (simp add: sse_recorded_def appendContent_def Let_def)

lemma sse_recorded_ttft [simp]: "sse_recorded c b m p \<Longrightarrow> sse_recorded c b m (record_ttft now p)"
  by (simp add: record_ttft_def)

lemma sse_recorded_tokens [simp]: "sse_recorded c b m p \<Longrightarrow> sse_recorded c b m (recordAnthropicTokens p)"
  by (simp add: recordAnthropicTokens_def Let_def)

lemma sse_recorded_delta: "sse_recorded c b m p \<Longrightarrow> sse_recorded c b m (anthropic_delta now d p)"
  by (simp add: anthropic_delta_def Let_def)

lemma sse_recorded_anthropic: "sse_recorded c b m p \<Longrightarrow> sse_recorded c b m (handleAnthropicEvent big now e p)"
  by (simp add: handleAnthropicEvent_def Let_def sse_recorded_delta split: option.split)

lemma sse_recorded_openai: "sse_recorded c b m p \<Longrightarrow> sse_recorded c b m (handleOpenAIEvent big now e p)"
  by (simp add: handleOpenAIEvent_def Let_def split: option.split prod.split)

lemma sse_recorded_line: "sse_recorded c b m p \<Longrightarrow> sse_recorded c b m (feed_line u big now l p)"
  by (simp add: feed_line_def Let_def sse_recorded_anthropic sse_recorded_openai split: option.split)

lemma sse_recorded_feed: "sse_recorded c b m p \<Longrightarrow> sse_recorded c b m (feed u big now bs p)"
proof -
  have "sse_recorded c b m p \<Longrightarrow> sse_recorded c b m (fold (feed_line u big now) ls p)" for ls p
    by (induction ls arbitrary: p) (simp_all add: sse_recorded_line)
  then show "sse_recorded c b m p \<Longrightarrow> ?thesis" by (simp add: feed_def feed_loop_lines split_beta Let_def)
qed

lemma sse_recorded_final: "sse_recorded c b m p \<Longrightarrow> sse_recorded c b m (recordFinal now p)"
  by (simp add: recordFinal_def Let_def)

definition parser_recorded :: "bool \<Rightarrow> forwarded \<Rightarrow> px_phase \<Rightarrow> bool" where
  "parser_recorded c fw ph =
     (let b = be_ID (fw_backend fw); m = fw_real fw in
      case ph of
        Streaming _ (SseParser q) _ \<Rightarrow> sse_recorded c b m q
      | Streaming _ (OllamaParser q) _ \<Rightarrow>
          oll_backendID q = b \<and> oll_model q = m \<and> list_all (recorded_for c b m) (oll_emitted q)
      | _ \<Rightarrow> True)"

lemma parser_recorded_open: "parser_recorded c fw (Streaming h (stream_opened level fw) tee)"
  by (simp add: parser_recorded_def stream_opened_def sse_recorded_new newOllamaParser_def)

lemma parser_recorded_feed:
  "parser_recorded c fw (Streaming h p tee) \<Longrightarrow> parser_recorded c fw (Streaming h (feed_parser env now bs p) tee')"
  by (auto simp: parser_recorded_def feed_parser_def sse_recorded_feed ollama_feed_def Let_def split: parser.splits)

lemma parser_recorded_final:
  "parser_recorded c fw (Streaming h p tee) \<Longrightarrow>
     list_all (recorded_for c (be_ID (fw_backend fw)) (fw_real fw)) (parser_final now p)"
  using sse_recorded_final [of c "be_ID (fw_backend fw)" "fw_real fw" _ now]
  by (auto simp: parser_recorded_def parser_final_def sse_recorded_def ollama_recordFinal_def Let_def split: parser.splits)

section \<open>Measurements of the server\<close>

text \<open>An operation for a request only adds measurements recorded for it.\<close>

definition metered :: "bool \<Rightarrow> forwarded \<Rightarrow> Server \<Rightarrow> Server \<Rightarrow> bool" where
  "metered c fw s s' \<longleftrightarrow>
     (\<exists>ms. ps_emitted s' = ps_emitted s @ ms \<and> list_all (recorded_for c (be_ID (fw_backend fw)) (fw_real fw)) ms)"

named_theorems emitted_simps \<open>what each operation measures\<close>

lemma emitted_accounting [emitted_simps]:
  "ps_emitted (with_balancer f s) = ps_emitted s" "ps_emitted (settle_balancer now ords st t fw s) = ps_emitted s"
  "ps_emitted (end_capture_error env dk now msg fw s) = ps_emitted s"
  "ps_emitted (end_capture_success env dk now rp fw s) = ps_emitted s"
  "ps_emitted (releaseSemaphore h s) = ps_emitted s" "ps_emitted (buildSemaphores cfg s) = ps_emitted s"
  "ps_emitted (Reload env cfg s) = ps_emitted s"
  by (simp_all add: with_balancer_def settle_balancer_def end_capture_error_def end_capture_success_def Let_def
      releaseSemaphore_def buildSemaphores_def Reload_def applyCaptureConfig_def split: option.split prod.split)

lemma emitted_acquire: "acquireSemaphore b s = Some (h, s') \<Longrightarrow> ps_emitted s' = ps_emitted s"
  by (auto simp: acquireSemaphore_def split: option.splits prod.splits if_splits)

lemma metered_same: "ps_emitted s' = ps_emitted s \<Longrightarrow> metered c fw s s'"
  by (simp add: metered_def)

lemma metered_refl [simp]: "metered c fw s s"
  by (simp add: metered_same)

lemma metered_cong: "ps_emitted s2 = ps_emitted s1 \<Longrightarrow> metered c fw s s2 = metered c fw s s1"
  by (simp add: metered_def)

lemma metered_frames [simp]:
  "metered c fw s (with_balancer f s1) = metered c fw s s1"
  "metered c fw s (settle_balancer now ords st t fw s1) = metered c fw s s1"
  "metered c fw s (end_capture_error env dk now msg fw s1) = metered c fw s s1"
  "metered c fw s (end_capture_success env dk now rp fw s1) = metered c fw s s1"
  by (simp_all add: metered_def emitted_simps)

lemma metered_emit:
  "metered c fw s s1 \<Longrightarrow> recorded_for c (be_ID (fw_backend fw)) (fw_real fw) (Measure i q a) \<Longrightarrow>
     metered c fw s (emit_metric i q a s1)"
  by (auto simp: metered_def)

lemma metered_release: "metered c fw s s1 \<Longrightarrow> metered c fw s (release_bytes fw s1)"
  unfolding release_bytes_def Let_def by (rule metered_emit) (simp_all add: metered_def)

lemma metered_finish: "metered c fw s s1 \<Longrightarrow> metered c fw s (finish_accounting now st fw s1)"
  unfolding finish_accounting_def Let_def request_attrs_def by (intro metered_emit) simp_all

lemma int64_of_nonneg: "(\<And>v. 0 \<le> big v) \<Longrightarrow> 0 < v \<Longrightarrow> 0 \<le> int64_of big v"
  by (simp add: int64_of_def Let_def)

lemma metered_usage:
  assumes big: "c \<Longrightarrow> \<forall>v. 0 \<le> env_big env v" and s1: "metered c fw s s1"
  shows "metered c fw s (extractNonStreamingUsage env d fw s1)"
proof -
  have tokens: "0 \<le> int64_of (env_big env) v" if "positive_num usage k = Some v" c for usage k v
    using that big int64_of_nonneg [of "env_big env" v] by (auto simp: positive_num_def split: option.splits if_splits)
  show ?thesis
    using s1 unfolding extractNonStreamingUsage_def Let_def
    by (auto split: option.split prod.split intro!: metered_emit dest: tokens)
qed

text \<open>The ends of a request.\<close>

lemma metered_error: "errorHandler env dk now ords err fw s = (resp, s') \<Longrightarrow> metered c fw s s'"
  by (auto simp: errorHandler_def Let_def intro!: metered_finish metered_release)

lemma metered_read_failed: "read_failed env dk dk' now ords err fw s = (resp, s') \<Longrightarrow> metered c fw s s'"
  unfolding read_failed_def by (drule metered_error [where c = c]) (simp add: metered_def emitted_simps)

lemma metered_give_up: "metered c fw s (give_up env dk now fw s)"
  by (simp add: give_up_def) (auto intro!: metered_emit)

lemma metered_answer:
  assumes "c \<Longrightarrow> \<forall>v. 0 \<le> env_big env v"
  shows "metered c fw s (answer_buffered env dk now ords st d fw s)"
proof -
  have "metered c fw s (settle_balancer now ords st False fw (finish_accounting now (Itoa st) fw (release_bytes fw s)))"
    by (auto intro!: metered_finish metered_release)
  with metered_usage [OF assms] show ?thesis by (auto simp: answer_buffered_def Let_def)
qed

lemma metered_close:
  assumes "parser_recorded c fw (Streaming h p tee)"
  shows "metered c fw s (stream_closed env dk now ords e g p tee fw s)"
proof -
  let ?s1 = "release_bytes fw s"
  have "metered c fw s (?s1\<lparr>ps_emitted := ps_emitted ?s1 @ parser_final now p\<rparr>)"
    using metered_release [OF metered_refl, of c fw s] parser_recorded_final [OF assms, of now]
    by (auto simp: metered_def)
  from metered_finish [OF this] show ?thesis
    by (auto simp: stream_closed_def Let_def split: option.split)
qed

text \<open>Admission.\<close>

interpretation emitted_view: routing_view ps_emitted
  by unfold_locales simp_all

definition meters_entry :: "bool \<Rightarrow> forwarded pipeline \<Rightarrow> Server \<Rightarrow> Server \<Rightarrow> bool" where
  "meters_entry c out s s' \<longleftrightarrow> (case out of Proceed fw \<Rightarrow> metered c fw s s' | _ \<Rightarrow> ps_emitted s' = ps_emitted s)"

lemma emitted_startCapture:
  "startCapture ce r rid t0 vm rm b p st raw resolved s = (cap, s') \<Longrightarrow> ps_emitted s' = ps_emitted s"
  by (auto simp: startCapture_def split: option.splits prod.splits)

lemma metered_gauges:
  "metered c fw s s1 \<Longrightarrow> metered c fw s (admission_gauges (BackendAttrs (be_ID (fw_backend fw)) (fw_real fw)) s1)"
  by (auto simp: admission_gauges_def Let_def split: option.split intro!: metered_emit)

lemma meters_entry_admit:
  "meters_entry c (fst (admit_request env ch r p st rd be body s)) s (snd (admit_request env ch r p st rd be body s))"
proof (cases "env_marshal env (JObj body)")
  case None
  then show ?thesis by (simp add: admit_request_def Let_def meters_entry_def)
next
  case (Some newBody)
  let ?s = "s\<lparr>ps_journal := map_option (\<lambda>es. es @ [journal_entry env (ch_rid ch) p rd be]) (ps_journal s)\<rparr>"
  let ?s1 = "?s\<lparr>ps_bufferedBytes := ps_bufferedBytes ?s + int (length newBody)\<rparr>"
  let ?s2 = "admission_gauges (BackendAttrs (be_ID be) (rd_real rd)) ?s1"
  obtain cap s3 where capture: "startCapture (env_capture env) r (ch_rid ch) (ch_now ch) (rd_model rd) (rd_real rd)
      (be_ID be) p st (in_RawBody r) newBody ?s2 = (cap, s3)" by fastforce
  have "metered c fw s ?s2" if "fw_backend fw = be" "fw_real fw = rd_real rd" for fw
    using metered_gauges [of c fw s ?s1] that by (simp add: metered_same)
  then have "metered c fw s s3" if "fw_backend fw = be" "fw_real fw = rd_real rd" for fw
    using that metered_cong [OF emitted_startCapture [OF capture]] by simp
  with capture Some show ?thesis
    by (simp add: admit_request_def Let_def meters_entry_def split: sum.split)
qed

lemma meters_entry_pbind:
  assumes "ps_emitted (snd m) = ps_emitted s"
    and "\<And>x s1. ps_emitted s1 = ps_emitted s \<Longrightarrow> meters_entry c (fst (f x s1)) s (snd (f x s1))"
  shows "meters_entry c (fst (pbind m f)) s (snd (pbind m f))"
  using assms
  by (cases m) (auto simp: pbind_def meters_entry_def [of _ "Responded _"] meters_entry_def [of _ Panicked] split: pipeline.split)

lemma meters_entry_serve:
  assumes "serve env ch health up r s = (out, s')"
  shows "meters_entry c out s s'"
proof -
  have admit: "meters_entry c (fst (admit_request env ch r q st rd be body s1)) s (snd (admit_request env ch r q st rd be body s1))"
    if "ps_emitted s1 = ps_emitted s" for q st rd be body s1
    using meters_entry_admit [of c env ch r q st rd be body s1] that
    by (simp add: meters_entry_def metered_def split: pipeline.splits)
  have "meters_entry c (fst (proxyRequest env ch p r s)) s (snd (proxyRequest env ch p r s))" for p
    by (auto simp: proxyRequest_def Let_def meters_entry_def [of _ "Responded _"] emitted_view.view_route
        split: sum.split option.split intro!: meters_entry_pbind admit)
  then have "meters_entry c (fst (serve env ch health up r s)) s (snd (serve env ch health up r s))"
    by (auto simp: serve_def meters_entry_def [of _ "Responded _"] meters_entry_def [of _ Panicked] split: endpoint.split option.split)
  with assms show ?thesis by simp
qed

section \<open>The invariant of the measurements\<close>

definition metrics_inv :: "bool \<Rightarrow> px_world \<Rightarrow> bool" where
  "metrics_inv c w \<longleftrightarrow>
     (\<forall>m \<in> set (ps_emitted (pw_server w)). \<exists>fw \<in> set (map px_fw (pw_reqs w)).
        recorded_for c (be_ID (fw_backend fw)) (fw_real fw) m) \<and>
     (\<forall>r \<in> set (pw_reqs w). parser_recorded c (px_fw r) (px_phase r))"

lemma parser_recorded_idle [simp]:
  "parser_recorded c fw Waiting" "parser_recorded c fw (Upstream h)" "parser_recorded c fw (Answered h)"
  "parser_recorded c fw Returned" "parser_recorded c fw GaveUp"
  by (simp_all add: parser_recorded_def)

lemma px_set_fws [simp]: "map px_fw (pw_reqs (px_set n ph w)) = map px_fw (pw_reqs w)"
  by (simp add: px_set_def map_update flip: nth_map)
    (metis (no_types, lifting) length_map list_update_beyond list_update_id not_le nth_map)

lemma metrics_inv_set:
  assumes inv: "metrics_inv c w" and n: "n < length (pw_reqs w)" and ph: "parser_recorded c (fw_at w n) ph"
    and s': "metered c (fw_at w n) (pw_server w) s'"
  shows "metrics_inv c ((px_set n ph w)\<lparr>pw_server := s'\<rparr>)"
proof -
  have "fw_at w n \<in> set (map px_fw (pw_reqs w))" using n by simp
  moreover obtain ms where "ps_emitted s' = ps_emitted (pw_server w) @ ms"
    "list_all (recorded_for c (be_ID (fw_backend (fw_at w n))) (fw_real (fw_at w n))) ms"
    using s' by (auto simp: metered_def)
  ultimately have "\<forall>m \<in> set (ps_emitted s'). \<exists>fw \<in> set (map px_fw (pw_reqs w)).
      recorded_for c (be_ID (fw_backend fw)) (fw_real fw) m"
    using inv unfolding metrics_inv_def list_all_iff by fastforce
  moreover have "\<forall>r \<in> set (pw_reqs (px_set n ph w)). parser_recorded c (px_fw r) (px_phase r)"
    using inv ph by (auto simp: metrics_inv_def px_set_def dest!: set_update_subset_insert [THEN subsetD])
  ultimately show ?thesis by (simp add: metrics_inv_def del: set_map)
qed

lemma metrics_inv_set_only:
  "metrics_inv c w \<Longrightarrow> n < length (pw_reqs w) \<Longrightarrow> parser_recorded c (fw_at w n) ph \<Longrightarrow> metrics_inv c (px_set n ph w)"
  using metrics_inv_set [of c w n ph "pw_server w"] by (simp add: px_set_def)

lemma metrics_inv_server:
  "metrics_inv c w \<Longrightarrow> ps_emitted s' = ps_emitted (pw_server w) \<Longrightarrow> metrics_inv c (w\<lparr>pw_server := s'\<rparr>)"
  by (simp add: metrics_inv_def)

lemma metrics_inv_at:
  "metrics_inv c w \<Longrightarrow> n < length (pw_reqs w) \<Longrightarrow> parser_recorded c (fw_at w n) (px_phase (pw_reqs w ! n))"
  by (simp add: metrics_inv_def)

lemma metrics_inv_step:
  assumes big: "c \<Longrightarrow> \<forall>v. 0 \<le> env_big env v" and "px_step env w w'" and "metrics_inv c w"
  shows "metrics_inv c w'"
  using assms(2,3)
proof (induction rule: px_step.induct)
  case (rejects ch health up r out s')
  then show ?case using meters_entry_serve [OF rejects(1), of c]
    by (intro metrics_inv_server) (auto simp: meters_entry_def split: pipeline.splits)
next
  case (admits ch health up r fw s')
  from meters_entry_serve [OF admits(1), of c] admits(2) show ?case
    by (fastforce simp: meters_entry_def metered_def metrics_inv_def list_all_iff)
next
  case (acquires n h s')
  then show ?case by (intro metrics_inv_set metered_same) (auto dest: emitted_acquire)
next
  case (gives_up n dk now)
  then show ?case by (intro metrics_inv_set metered_give_up) auto
next
  case (fails n h dk now ords err resp s')
  then show ?case by (intro metrics_inv_set metered_error) auto
next
  case (read_fails n h dk dk' now ords err resp s')
  then show ?case by (intro metrics_inv_set metered_read_failed) auto
next
  case (answers n h status dk now ords data)
  then show ?case by (intro metrics_inv_set metered_answer big) auto
next
  case (opens n h level)
  then show ?case by (intro metrics_inv_set_only parser_recorded_open) auto
next
  case (feeds n h p tee now bytes)
  then show ?case using metrics_inv_at [of c w n]
    by (intro metrics_inv_set_only) (auto intro: parser_recorded_feed)
next
  case (closes n h p tee dk now ords readErr clientGone)
  then show ?case using metrics_inv_at [of c w n]
    by (intro metrics_inv_set metered_close [of _ _ h]) auto
next
  case (returns n h)
  then show ?case by (intro metrics_inv_set metered_same) (auto simp: emitted_simps)
qed (auto intro: metrics_inv_server simp: emitted_simps)

lemma metrics_inv_start: "metrics_inv c (px_start env cfg journal)"
  by (simp add: metrics_inv_def px_start_def server_New_def Let_def applyCaptureConfig_def emitted_simps)

lemma metrics_inv_reachable:
  assumes "c \<Longrightarrow> \<forall>v. 0 \<le> env_big env v" and "(px_step env)\<^sup>*\<^sup>* (px_start env cfg journal) w"
  shows "metrics_inv c w"
  using assms(2)
proof (induction rule: rtranclp_induct)
  case base
  show ?case by (rule metrics_inv_start)
next
  case (step w w')
  show ?case by (rule metrics_inv_step [OF assms(1) step(2,3)])
qed

section \<open>The way of a request to its end\<close>

text \<open>How many phases a request has ahead of it at most.\<close>

fun rank :: "px_phase \<Rightarrow> nat" where
  "rank Waiting = 4"
| "rank (Upstream _) = 3"
| "rank (Streaming _ _ _) = 2"
| "rank (Answered _) = 1"
| "rank Returned = 0"
| "rank GaveUp = 0"

lemma px_step_rank:
  assumes "px_step env w w'" and "n < length (pw_reqs w)"
  shows "n < length (pw_reqs w') \<and> fw_at w' n = fw_at w n \<and>
    (px_phase (pw_reqs w' ! n) = px_phase (pw_reqs w ! n) \<or>
     rank (px_phase (pw_reqs w' ! n)) < rank (px_phase (pw_reqs w ! n)) \<or>
     (\<exists>h p tee p' tee'. px_phase (pw_reqs w ! n) = Streaming h p tee \<and> px_phase (pw_reqs w' ! n) = Streaming h p' tee'))"
  using assms by cases (auto simp: px_set_def nth_list_update nth_append)

definition ended :: "px_req \<Rightarrow> bool" where
  "ended r \<longleftrightarrow> px_phase r = Returned \<or> px_phase r = GaveUp"

text \<open>A request that has not ended can always make a step towards its end.\<close>

lemma px_progress:
  assumes "n < length (pw_reqs w)" and "\<not> ended (pw_reqs w ! n)"
  shows "\<exists>ph s'. px_step env w ((px_set n ph w)\<lparr>pw_server := s'\<rparr>) \<and> rank ph < rank (px_phase (pw_reqs w ! n))"
proof (cases "px_phase (pw_reqs w ! n)")
  case Waiting
  then show ?thesis using assms px_step.gives_up [where w = w and n = n and env = env] by fastforce
next
  case (Upstream h)
  obtain resp s' where "errorHandler env undefined 0 (\<lambda>_. []) undefined (fw_at w n) (pw_server w) = (resp, s')" by fastforce
  then have "px_step env w ((px_set n (Answered h) w)\<lparr>pw_server := s'\<rparr>)" using assms Upstream by (intro px_step.fails) auto
  then show ?thesis using Upstream by fastforce
next
  case (Streaming h p tee)
  then show ?thesis using assms px_step.closes [where w = w and n = n and env = env] by fastforce
next
  case (Answered h)
  then show ?thesis using assms px_step.returns [where w = w and n = n and env = env] by fastforce
qed (use assms in \<open>auto simp: ended_def\<close>)

lemma sum_rank_set:
  assumes "n < length (pw_reqs w)" and "rank ph < rank (px_phase (pw_reqs w ! n))"
  shows "sum_list (map (rank \<circ> px_phase) (pw_reqs (px_set n ph w))) < sum_list (map (rank \<circ> px_phase) (pw_reqs w))"
proof -
  have "sum_list (xs[n := x]) < sum_list xs" if "n < length xs" "x < xs ! n" for xs :: "nat list" and x
    using that elem_le_sum_list [OF that(1)] by (simp add: sum_list_update)
  with assms show ?thesis by (simp add: px_set_def map_update)
qed

lemma px_drains:
  "\<exists>w' k. (px_step env ^^ k) w w' \<and> k \<le> sum_list (map (rank \<circ> px_phase) (pw_reqs w)) \<and>
     map px_fw (pw_reqs w') = map px_fw (pw_reqs w) \<and> list_all ended (pw_reqs w')"
proof (induction "sum_list (map (rank \<circ> px_phase) (pw_reqs w))" arbitrary: w rule: less_induct)
  case less
  show ?case
  proof (cases "list_all ended (pw_reqs w)")
    case True
    then show ?thesis by (intro exI [of _ w] exI [of _ 0]) simp
  next
    case False
    then obtain n where n: "n < length (pw_reqs w)" "\<not> ended (pw_reqs w ! n)" by (auto simp: list_all_length)
    from px_progress [OF this] obtain ph s' where
      step: "px_step env w ((px_set n ph w)\<lparr>pw_server := s'\<rparr>)" (is "px_step env w ?w1")
      and down: "rank ph < rank (px_phase (pw_reqs w ! n))" by blast
    have less': "sum_list (map (rank \<circ> px_phase) (pw_reqs ?w1)) < sum_list (map (rank \<circ> px_phase) (pw_reqs w))"
      using sum_rank_set [OF n(1) down] by simp
    from less.hyps [OF this] obtain w' k where run: "(px_step env ^^ k) ?w1 w'"
      and rest: "k \<le> sum_list (map (rank \<circ> px_phase) (pw_reqs ?w1))" "map px_fw (pw_reqs w') = map px_fw (pw_reqs ?w1)"
        "list_all ended (pw_reqs w')" by blast
    from relpowp_Suc_I2 [OF step run] have "(px_step env ^^ Suc k) w w'" .
    moreover have "Suc k \<le> sum_list (map (rank \<circ> px_phase) (pw_reqs w))" using rest(1) less' by linarith
    moreover have "map px_fw (pw_reqs w') = map px_fw (pw_reqs w)" using rest(2) by simp
    ultimately show ?thesis using rest(3) by blast
  qed
qed

lemma rank_bound: "sum_list (map (rank \<circ> px_phase) rs) \<le> 4 * length rs"
proof -
  have "rank ph \<le> 4" for ph by (cases ph) simp_all
  then show ?thesis by (induction rs) (auto intro: add_mono)
qed

section \<open>Properties\<close>


lemma sample_run:
  "\<exists>w fw. (px_step sample_env)\<^sup>*\<^sup>* (px_start sample_env passthrough_config False) w \<and>
     pw_reqs w = [\<lparr>px_fw = fw, px_phase = Waiting\<rparr>] \<and> ps_emitted (pw_server w) \<noteq> []"
proof -
  let ?w = "px_start sample_env passthrough_config False"
  obtain fw s' where admit: "serve sample_env sample_choices [] (\<lambda>_ _. Inl (502, [])) sample_request
      (pw_server ?w) = (Proceed fw, s')"
    using sample_admitted [of "\<lambda>_ _. Inl (502, [])"] by (auto simp: px_start_def)
  let ?w1 = "?w\<lparr>pw_server := s', pw_reqs := pw_reqs ?w @ [\<lparr>px_fw = fw, px_phase = Waiting\<rparr>]\<rparr>"
  have run: "(px_step sample_env)\<^sup>*\<^sup>* ?w ?w1" using px_step.admits [OF admit] by blast
  have "px_inv ?w1" by (rule px_inv_reachable [OF _ run]) (simp add: urls_parse_def sample_env_def)
  then have "counted ActiveRequests (ps_emitted s') = 1" by (simp add: px_inv_def px_start_def active_def)
  then have "ps_emitted s' \<noteq> []" by auto
  with run show ?thesis by (intro exI [of _ ?w1] exI [of _ fw]) (simp add: px_start_def)
qed


text \<open>
  C11: every measurement fits its instrument. In every reachable state of the server, whatever has been
  measured went to an instrument that \<open>Init\<close> created with the meter; it carries exactly the labels
  of that instrument, and its backend and model are those of an admitted request; an \<open>Int64\<close>
  instrument gets an integer; and a counter is never lowered, provided that the conversion of a
  number beyond \<open>int64\<close>, which the language leaves open, does not give a negative one: the token counts
  of a buffered response are added without a check after the conversion.
\<close>

theorem measurements_fit_instruments:
  assumes init: "telemetry_Init exporter meter = Inr hs"
    and run: "(px_step env)\<^sup>*\<^sup>* (px_start env cfg journal) w"
    and m: "m \<in> set (ps_emitted (pw_server w))"
  shows "(\<exists>h. (instrument m, h) \<in> set hs \<and> meter (spec_of (instrument m)) = Inr h) \<and>
    map fst (labels m) = label_names (instrument m) \<and>
    (labels m \<noteq> [] \<longrightarrow> (\<exists>r \<in> set (pw_reqs w).
       take 2 (labels m) = BackendAttrs (be_ID (fw_backend (px_fw r))) (fw_real (px_fw r)))) \<and>
    (is_type (spec_of (instrument m)) \<in> {Int64Histogram, Int64Counter, Int64UpDownCounter} \<longrightarrow>
       of_int \<lfloor>quantity m\<rfloor> = quantity m) \<and>
    ((\<forall>v. 0 \<le> env_big env v) \<and> is_type (spec_of (instrument m)) = Int64Counter \<longrightarrow> 0 \<le> quantity m)"
proof -
  have "metrics_inv (\<forall>v. 0 \<le> env_big env v) w" by (rule metrics_inv_reachable [OF _ run])
  with m obtain r where "r \<in> set (pw_reqs w)" and
    "recorded_for (\<forall>v. 0 \<le> env_big env v) (be_ID (fw_backend (px_fw r))) (fw_real (px_fw r)) m"
    unfolding metrics_inv_def by auto
  then show ?thesis
    using telemetry_Init_handle [OF init] unfolding recorded_for_def takes_value_def by blast
qed

theorem measurements_fit_instruments_witness:
  "\<exists>w m. (px_step sample_env)\<^sup>*\<^sup>* (px_start sample_env passthrough_config False) w \<and>
     m \<in> set (ps_emitted (pw_server w)) \<and> map fst (labels m) = label_names (instrument m) \<and>
     telemetry_Init None (\<lambda>sp. Inr (is_name sp)) = Inr (map (\<lambda>i. (i, is_name (spec_of i))) init_order) \<and>
     (instrument m, is_name (spec_of (instrument m))) \<in> set (map (\<lambda>i. (i, is_name (spec_of i))) init_order)"
proof -
  obtain w where run: "(px_step sample_env)\<^sup>*\<^sup>* (px_start sample_env passthrough_config False) w"
    and some: "ps_emitted (pw_server w) \<noteq> []" using sample_run by blast
  have init: "telemetry_Init None (\<lambda>sp. Inr (is_name sp)) = Inr (map (\<lambda>i. (i, is_name (spec_of i))) init_order)"
    by (simp add: telemetry_Init_def init_order_def)
  have m: "hd (ps_emitted (pw_server w)) \<in> set (ps_emitted (pw_server w))" using some by simp
  from measurements_fit_instruments [OF init run m] init run m show ?thesis
    by (intro exI [of _ w] exI [of _ "hd (ps_emitted (pw_server w))"]) auto
qed

end
