(* ===== verification/Proxy_Capture.thy ===== *)
theory Proxy_Capture
  imports Proxy_System
begin

text \<open>
  The capture files that the interleaved server leaves on disk. \<open>px_files_inv\<close> follows the payload of
  each captured request from admission to its file: headers are redacted when the payload is made,
  the copy of a streamed response stays under its cap, and a file is replaced only as a whole.
\<close>

section \<open>What touches the files\<close>

named_theorems files_simps \<open>operations that leave the capture files alone\<close>

lemma files_emit [files_simps]: "ps_files (emit_metric i q a s) = ps_files s"
  by (simp add: emit_metric_def)

lemma files_accounting [files_simps]:
  "ps_files (release_bytes fw s) = ps_files s" "ps_files (finish_accounting now st fw s) = ps_files s"
  "ps_files (with_balancer f s) = ps_files s" "ps_files (settle_balancer now ords code t fw s) = ps_files s"
  by (simp_all add: release_bytes_def finish_accounting_def with_balancer_def settle_balancer_def Let_def emit_metric_def)

lemma files_usage [files_simps]: "ps_files (extractNonStreamingUsage env d fw s) = ps_files s"
  by (simp add: extractNonStreamingUsage_def files_simps Let_def split: option.split prod.split)

lemma files_gauges [files_simps]: "ps_files (admission_gauges a s) = ps_files s"
  by (simp add: admission_gauges_def Let_def files_simps split: option.split)

lemma files_semaphores [files_simps]:
  "ps_files (releaseSemaphore h s) = ps_files s" "ps_files (buildSemaphores cfg s) = ps_files s"
  by (simp_all add: releaseSemaphore_def buildSemaphores_def split: option.split prod.split)

lemma files_acquire: "acquireSemaphore b s = Some (h, s') \<Longrightarrow> ps_files s' = ps_files s"
  by (auto simp: acquireSemaphore_def split: option.splits prod.splits if_splits)

lemma files_Reload [files_simps]: "ps_files (Reload env cfg s) = ps_files s"
  by (simp add: Reload_def Let_def applyCaptureConfig_def files_simps)

section \<open>Admission redacts\<close>

definition ctx_ok :: "proxy_env \<Rightarrow> forwarded pipeline \<Rightarrow> Server \<Rightarrow> Server \<Rightarrow> bool" where
  "ctx_ok env out s s' \<longleftrightarrow> ps_files s' = ps_files s \<and>
     (\<forall>fw. out = Proceed fw \<longrightarrow> ctx_redacted (env_capture env) (fw_cap fw))"

lemma startCapture_redacted:
  "startCapture ce r rid t0 vm rm b p st raw resolved s = (c, s') \<Longrightarrow>
     ctx_redacted ce c \<and> ps_files s' = ps_files s"
  by (auto simp: startCapture_def ctx_redacted_def request_payload_redacted split: option.splits prod.splits)

lemma ctx_ok_admit:
  "ctx_ok env (fst (admit_request env ch r p st rd be body s)) s (snd (admit_request env ch r p st rd be body s))"
  by (auto simp: admit_request_def ctx_ok_def Let_def files_simps dest!: startCapture_redacted
      split: option.split sum.split prod.split)

lemma ctx_ok_pbind:
  assumes "ps_files (snd m) = ps_files s"
    and "\<And>x s1. ps_files s1 = ps_files s \<Longrightarrow> ctx_ok env (fst (f x s1)) s (snd (f x s1))"
  shows "ctx_ok env (fst (pbind m f)) s (snd (pbind m f))"
  using assms by (cases m) (auto simp: pbind_def ctx_ok_def split: pipeline.split)

lemma ctx_ok_proxyRequest: "ctx_ok env (fst (proxyRequest env ch p r s)) s (snd (proxyRequest env ch p r s))"
proof -
  have admit: "ctx_ok env (fst (admit_request env ch r q st rd be body s1)) s (snd (admit_request env ch r q st rd be body s1))"
    if "ps_files s1 = ps_files s" for q st rd be body s1
    using ctx_ok_admit [of env ch r q st rd be body s1] that by (simp add: ctx_ok_def)
  show ?thesis
    by (auto simp: proxyRequest_def Let_def ctx_ok_def [of _ "Responded _"] files_view.view_route
        split: sum.split option.split intro!: ctx_ok_pbind admit)
qed

lemma ctx_ok_serve:
  assumes "serve env ch health up r s = (out, s')"
  shows "ctx_ok env out s s'"
proof -
  have "ctx_ok env (fst (serve env ch health up r s)) s (snd (serve env ch health up r s))"
    using ctx_ok_proxyRequest [of env ch _ r s]
    by (auto simp: serve_def ctx_ok_def [of _ "Responded _"] ctx_ok_def [of _ Panicked] split: endpoint.split option.split)
  with assms show ?thesis by simp
qed

section \<open>The invariant\<close>

definition tee_ok :: "px_phase \<Rightarrow> bool" where
  "tee_ok ph =
     (case ph of
        Streaming _ _ (Some b) \<Rightarrow> cb_Max b = MaxResponseBytes \<and> (\<exists>offered. cb.shows_prefix offered b)
      | _ \<Rightarrow> True)"

definition px_files_inv :: "proxy_env \<Rightarrow> px_world \<Rightarrow> bool" where
  "px_files_inv env w \<longleftrightarrow>
     files_safe (env_capture env) (ps_files (pw_server w)) \<and>
     (\<forall>r \<in> set (pw_reqs w). ctx_redacted (env_capture env) (fw_cap (px_fw r)) \<and> tee_ok (px_phase r))"

lemma tee_ok_new: "tee_ok (Streaming h p (new_tee c))"
  by (auto simp: tee_ok_def new_tee_def cb.shows_prefix_def MaxResponseBytes_def split: option.split intro: exI [of _ "[]"])

lemma tee_ok_write: "tee_ok (Streaming h p tee) \<Longrightarrow> tee_ok (Streaming h p' (tee_write bytes tee))"
proof (cases "bytes = [] \<or> tee = None")
  case False
  assume ok: "tee_ok (Streaming h p tee)"
  from False obtain b where tee: "tee = Some b" and ne: "bytes \<noteq> []" by auto
  with ok obtain offered where "cb_Max b = MaxResponseBytes" "cb.shows_prefix offered b" by (auto simp: tee_ok_def)
  moreover have "cb_Max (snd (CappedBuffer_Write bytes b)) = cb_Max b" by (simp add: CappedBuffer_Write_def Let_def)
  ultimately show ?thesis
    using cb.shows_prefix_emit [OF _ ne] by (auto simp: tee_ok_def tee_write_def tee ne)
qed (auto simp: tee_ok_def tee_write_def)

lemma tee_ok_capped: "tee_ok (Streaming h p (Some b)) \<Longrightarrow> int (length (cb_buf b)) \<le> MaxResponseBytes"
  using cb.shows_prefix_bound [of _ b] by (auto simp: tee_ok_def MaxResponseBytes_def)

lemma px_files_inv_set:
  assumes "px_files_inv env w" and "n < length (pw_reqs w)" and "tee_ok ph"
    and "files_safe (env_capture env) (ps_files s')"
  shows "px_files_inv env ((px_set n ph w)\<lparr>pw_server := s'\<rparr>)"
  using assms unfolding px_files_inv_def px_set_def
  by (auto dest!: set_update_subset_insert [THEN subsetD] dest: nth_mem)

lemma px_files_inv_set_only:
  "px_files_inv env w \<Longrightarrow> n < length (pw_reqs w) \<Longrightarrow> tee_ok ph \<Longrightarrow> px_files_inv env (px_set n ph w)"
  using px_files_inv_set [of env w n ph "pw_server w"] by (simp add: px_files_inv_def px_set_def)

lemma px_files_inv_server:
  "px_files_inv env w \<Longrightarrow> ps_files s' = ps_files (pw_server w) \<Longrightarrow> px_files_inv env (w\<lparr>pw_server := s'\<rparr>)"
  by (simp add: px_files_inv_def)

lemma px_files_inv_at:
  assumes "px_files_inv env w" and "n < length (pw_reqs w)"
  shows "ctx_redacted (env_capture env) (fw_cap (fw_at w n))" "tee_ok (px_phase (pw_reqs w ! n))"
    "files_safe (env_capture env) (ps_files (pw_server w))"
  using assms by (auto simp: px_files_inv_def)

text \<open>The ends of a request.\<close>

lemma files_end_error:
  assumes "files_safe (env_capture env) (ps_files s)" and "ctx_redacted (env_capture env) (fw_cap fw)"
  shows "files_safe (env_capture env) (ps_files (end_capture_error env dk now msg fw s))"
  using assms by (simp add: end_capture_error_def files_safe_error)

lemma files_errorHandler:
  assumes "files_safe (env_capture env) (ps_files s)" and "ctx_redacted (env_capture env) (fw_cap fw)"
    and "errorHandler env dk now ords err fw s = (resp, s')"
  shows "files_safe (env_capture env) (ps_files s')"
  using assms by (auto simp: errorHandler_def Let_def files_simps intro!: files_end_error)

lemma files_read_failed:
  assumes "files_safe (env_capture env) (ps_files s)" and "ctx_redacted (env_capture env) (fw_cap fw)"
    and "read_failed env dk dk' now ords err fw s = (resp, s')"
  shows "files_safe (env_capture env) (ps_files s')"
  using assms unfolding read_failed_def by (blast intro: files_errorHandler files_end_error)

lemma files_answer:
  assumes "files_safe (env_capture env) (ps_files s)" and "ctx_redacted (env_capture env) (fw_cap fw)"
  shows "files_safe (env_capture env) (ps_files (answer_buffered env dk now ords st d fw s))"
  using assms
  by (simp add: answer_buffered_def Let_def end_capture_success_def files_simps files_safe_success)

lemma files_closed:
  assumes "files_safe (env_capture env) (ps_files s)" and "ctx_redacted (env_capture env) (fw_cap fw)"
    and "tee_ok (Streaming h p tee)"
  shows "files_safe (env_capture env) (ps_files (stream_closed env dk now ords e g p tee fw s))"
  using assms tee_ok_capped [of h p]
  by (cases tee) (simp_all add: stream_closed_def Let_def end_capture_success_def files_simps files_safe_success streamed_capped)

lemma px_files_inv_step:
  assumes "px_step env w w'" and "px_files_inv env w"
  shows "px_files_inv env w'"
  using assms
proof (induction rule: px_step.induct)
  case (rejects ch health up r out s')
  then show ?case using ctx_ok_serve [OF rejects(1)] by (intro px_files_inv_server) (simp_all add: ctx_ok_def)
next
  case (admits ch health up r fw s')
  then show ?case using ctx_ok_serve [OF admits(1)] by (simp add: ctx_ok_def px_files_inv_def tee_ok_def)
next
  case (acquires n h s')
  then show ?case using files_acquire [OF acquires(2)] px_files_inv_at(3) [OF acquires(3)]
    by (intro px_files_inv_set) (auto simp: tee_ok_def)
next
  case (gives_up n dk now)
  then show ?case using px_files_inv_at [OF gives_up(2)]
    by (intro px_files_inv_set) (auto simp: tee_ok_def give_up_def files_simps intro!: files_end_error)
next
  case (fails n h dk now ords err resp s')
  then show ?case using px_files_inv_at [OF fails(3)]
    by (intro px_files_inv_set) (auto simp: tee_ok_def intro: files_errorHandler)
next
  case (read_fails n h dk dk' now ords err resp s')
  then show ?case using px_files_inv_at [OF read_fails(3)]
    by (intro px_files_inv_set) (auto simp: tee_ok_def intro: files_read_failed)
next
  case (answers n h status dk now ords data)
  then show ?case using px_files_inv_at [OF answers(3)]
    by (intro px_files_inv_set) (auto simp: tee_ok_def intro!: files_answer)
next
  case (opens n h level)
  then show ?case by (intro px_files_inv_set_only) (auto simp: tee_ok_new)
next
  case (feeds n h p tee now bytes)
  then show ?case using px_files_inv_at(2) [OF feeds(2), of n] by (intro px_files_inv_set_only) (auto intro: tee_ok_write)
next
  case (closes n h p tee dk now ords readErr clientGone)
  then show ?case using px_files_inv_at [OF closes(2), of n]
    by (intro px_files_inv_set) (auto simp: tee_ok_def [of "Answered _"] intro!: files_closed)
next
  case (returns n h)
  then show ?case using px_files_inv_at(3) [OF returns(2)]
    by (intro px_files_inv_set) (auto simp: tee_ok_def files_simps)
next
  case (reloads cfg)
  then show ?case by (intro px_files_inv_server) (simp_all add: files_simps)
next
  case arms
  then show ?case by (intro px_files_inv_server) simp_all
next
  case (monitors bal pf j j' bal')
  then show ?case by (intro px_files_inv_server) simp_all
qed

lemma px_files_inv_start: "px_files_inv env (px_start env cfg journal)"
  by (simp add: px_files_inv_def px_start_def server_New_def Let_def applyCaptureConfig_def files_simps files_safe_def)

lemma px_files_inv_reachable: "(px_step env)\<^sup>*\<^sup>* (px_start env cfg journal) w \<Longrightarrow> px_files_inv env w"
  by (induction rule: rtranclp_induct) (auto intro: px_files_inv_start px_files_inv_step)

section \<open>Prompt text that leaves the process\<close>

text \<open>
  The two places where the server keeps prompt text: the journal and the capture. In the hardened
  build there is no capture handle, so no request is ever captured.
\<close>

definition text_kept :: "Server \<Rightarrow> Capture option \<times> files \<times> Entry list option" where
  "text_kept s = (ps_capture s, ps_files s, ps_journal s)"

interpretation text_view: routing_view text_kept
  by unfold_locales (simp_all add: text_kept_def)

definition text_guarded :: "proxy_env \<Rightarrow> Server \<Rightarrow> bool" where
  "text_guarded env s \<longleftrightarrow>
     (\<forall>es e. ps_journal s = Some es \<longrightarrow> e \<in> set es \<longrightarrow> texts_ok (env_hardened env) e) \<and>
     (env_hardened env \<longrightarrow> ps_capture s = None \<and> ps_files s = [])"

lemma text_guarded_kept: "text_kept s' = text_kept s \<Longrightarrow> text_guarded env s' = text_guarded env s"
  by (simp add: text_kept_def text_guarded_def)

lemma kept_accounting [files_simps]:
  "text_kept (emit_metric i q a s) = text_kept s"
  "text_kept (release_bytes fw s) = text_kept s" "text_kept (finish_accounting now st fw s) = text_kept s"
  "text_kept (with_balancer f s) = text_kept s" "text_kept (settle_balancer now ords code t fw s) = text_kept s"
  "text_kept (s\<lparr>ps_emitted := ms\<rparr>) = text_kept s" "text_kept (s\<lparr>ps_bufferedBytes := n\<rparr>) = text_kept s"
  "text_kept (s\<lparr>ps_balancer := b\<rparr>) = text_kept s"
  by (simp_all add: text_kept_def emit_metric_def release_bytes_def finish_accounting_def with_balancer_def
      settle_balancer_def Let_def)

lemma kept_usage [files_simps]: "text_kept (extractNonStreamingUsage env d fw s) = text_kept s"
  by (simp add: extractNonStreamingUsage_def files_simps Let_def split: option.split prod.split)

lemma kept_gauges [files_simps]: "text_kept (admission_gauges a s) = text_kept s"
  by (simp add: admission_gauges_def Let_def files_simps split: option.split)

lemma kept_semaphores [files_simps]: "text_kept (releaseSemaphore h s) = text_kept s"
  by (simp add: releaseSemaphore_def text_kept_def split: option.split prod.split)

lemma kept_acquire: "acquireSemaphore b s = Some (h, s') \<Longrightarrow> text_kept s' = text_kept s"
  by (auto simp: acquireSemaphore_def text_kept_def split: option.splits prod.splits if_splits)

text \<open>With no capture handle nothing is captured.\<close>

lemma kept_end:
  "fw_cap fw = None \<Longrightarrow> end_capture_error env dk now msg fw s = s"
  "fw_cap fw = None \<Longrightarrow> end_capture_success env dk now rp fw s = s"
  by (simp_all add: end_capture_error_def end_capture_success_def finishError_def finishSuccess_def)

definition kept_or_uncaptured :: "proxy_env \<Rightarrow> forwarded \<Rightarrow> Server \<Rightarrow> Server \<Rightarrow> bool" where
  "kept_or_uncaptured env fw s s' \<longleftrightarrow>
     ps_capture s' = ps_capture s \<and> ps_journal s' = ps_journal s \<and> (fw_cap fw = None \<longrightarrow> ps_files s' = ps_files s)"

lemma kept_or_uncapturedI:
  "text_kept s1 = text_kept s \<Longrightarrow> kept_or_uncaptured env fw s s1"
  "text_kept s1 = text_kept s \<Longrightarrow> kept_or_uncaptured env fw s (end_capture_error env dk now msg fw s1)"
  "text_kept s1 = text_kept s \<Longrightarrow> kept_or_uncaptured env fw s (end_capture_success env dk now rp fw s1)"
  by (auto simp: kept_or_uncaptured_def text_kept_def end_capture_error_def end_capture_success_def
      finishError_def finishSuccess_def)

lemma kept_error:
  "errorHandler env dk now ords err fw s = (resp, s') \<Longrightarrow> kept_or_uncaptured env fw s s'"
  by (auto simp: errorHandler_def Let_def files_simps intro!: kept_or_uncapturedI(2))

lemma kept_read_failed:
  "read_failed env dk dk' now ords err fw s = (resp, s') \<Longrightarrow> kept_or_uncaptured env fw s s'"
  unfolding read_failed_def
  by (drule kept_error) (auto simp: kept_or_uncaptured_def end_capture_error_def finishError_def)

lemma kept_answer: "kept_or_uncaptured env fw s (answer_buffered env dk now ords st d fw s)"
  by (simp add: answer_buffered_def Let_def files_simps kept_or_uncapturedI(3))

lemma kept_close: "kept_or_uncaptured env fw s (stream_closed env dk now ords e g p tee fw s)"
  by (simp add: stream_closed_def Let_def files_simps kept_or_uncapturedI(1,3) split: option.split)

lemma kept_give_up: "kept_or_uncaptured env fw s (give_up env dk now fw s)"
  by (simp add: give_up_def files_simps kept_or_uncapturedI(2))

text \<open>Admission appends one entry to the journal.\<close>

definition text_entered :: "proxy_env \<Rightarrow> forwarded pipeline \<Rightarrow> Server \<Rightarrow> Server \<Rightarrow> bool" where
  "text_entered env out s s' \<longleftrightarrow> (text_guarded env s \<longrightarrow> text_guarded env s' \<and>
     (env_hardened env \<longrightarrow> (\<forall>fw. out = Proceed fw \<longrightarrow> fw_cap fw = None)))"

lemma journal_entry_texts: "texts_ok (env_hardened env) (journal_entry env rid p rd be)"
  using Analyze_texts [of "env_hardened env" "rd_body rd" p] by (simp add: journal_entry_def texts_ok_def)

lemma startCapture_kept:
  "startCapture ce r rid t0 vm rm b p st raw resolved s = (c, s') \<Longrightarrow>
     ps_journal s' = ps_journal s \<and> ps_files s' = ps_files s \<and> (ps_capture s = None \<longrightarrow> c = None \<and> ps_capture s' = None)"
  by (auto simp: startCapture_def split: option.splits prod.splits)

lemma text_entered_refused:
  "text_guarded env s' = text_guarded env s \<Longrightarrow> text_entered env (Responded resp) s s'"
  "text_guarded env s' = text_guarded env s \<Longrightarrow> text_entered env Panicked s s'"
  by (simp_all add: text_entered_def)

lemma text_guarded_journal:
  "text_guarded env s \<Longrightarrow> texts_ok (env_hardened env) e \<Longrightarrow>
     text_guarded env (s\<lparr>ps_journal := map_option (\<lambda>es. es @ [e]) (ps_journal s)\<rparr>)"
  by (auto simp: text_guarded_def)

lemma text_guarded_startCapture:
  assumes "startCapture ce r rid t0 vm rm b p st raw resolved s = (c, s')" and "text_guarded env s"
  shows "text_guarded env s' \<and> (env_hardened env \<longrightarrow> c = None)"
  using startCapture_kept [OF assms(1)] assms(2) by (auto simp: text_guarded_def)

lemma text_entered_admit:
  "text_entered env (fst (admit_request env ch r p st rd be body s)) s (snd (admit_request env ch r p st rd be body s))"
proof (cases "text_guarded env s")
  case guarded: True
  let ?s = "s\<lparr>ps_journal := map_option (\<lambda>es. es @ [journal_entry env (ch_rid ch) p rd be]) (ps_journal s)\<rparr>"
  have journal: "text_guarded env ?s" by (rule text_guarded_journal [OF guarded journal_entry_texts])
  show ?thesis
  proof (cases "env_marshal env (JObj body)")
    case None
    then show ?thesis using journal by (simp add: admit_request_def text_entered_def)
  next
    case (Some newBody)
    let ?s1 = "?s\<lparr>ps_bufferedBytes := ps_bufferedBytes ?s + int (length newBody)\<rparr>"
    have s1: "text_guarded env ?s1"
      using journal text_guarded_kept [of ?s1 ?s env] by (simp add: text_kept_def)
    show ?thesis
    proof (cases "env_url env (be_BaseURL be)")
      case (Inl e)
      then show ?thesis using Some s1 by (simp add: admit_request_def text_entered_def Let_def)
    next
      case (Inr target)
      let ?s2 = "admission_gauges (BackendAttrs (be_ID be) (rd_real rd)) ?s1"
      obtain c s3 where cap: "startCapture (env_capture env) r (ch_rid ch) (ch_now ch) (rd_model rd) (rd_real rd)
          (be_ID be) p st (in_RawBody r) newBody ?s2 = (c, s3)" by fastforce
      have "text_guarded env ?s2" using s1 text_guarded_kept [OF kept_gauges] by blast
      then have "text_guarded env s3 \<and> (env_hardened env \<longrightarrow> c = None)"
        by (rule text_guarded_startCapture [OF cap])
      with Some Inr cap show ?thesis by (simp add: admit_request_def text_entered_def Let_def)
    qed
  qed
qed (simp add: text_entered_def)

lemma text_entered_pbind:
  assumes m: "text_kept (snd m) = text_kept s"
    and f: "\<And>x s1. text_kept s1 = text_kept s \<Longrightarrow> text_entered env (fst (f x s1)) s (snd (f x s1))"
  shows "text_entered env (fst (pbind m f)) s (snd (pbind m f))"
proof -
  obtain out s1 where ms: "m = (out, s1)" by fastforce
  have "text_guarded env s1 = text_guarded env s" using m ms by (intro text_guarded_kept) simp
  then show ?thesis
    using f m ms by (cases out) (simp_all add: pbind_def text_entered_refused)
qed

lemma text_entered_proxyRequest:
  "text_entered env (fst (proxyRequest env ch p r s)) s (snd (proxyRequest env ch p r s))"
proof -
  have admit: "text_entered env (fst (admit_request env ch r q st rd be body s1)) s (snd (admit_request env ch r q st rd be body s1))"
    if "text_kept s1 = text_kept s" for q st rd be body s1
    using text_entered_admit [of env ch r q st rd be body s1] text_guarded_kept [OF that] by (simp add: text_entered_def)
  have rewritten: "text_entered env (fst (pbind (rw, s1) (\<lambda>(be, body). admit_request env ch r q st rd be body))) s
      (snd (pbind (rw, s1) (\<lambda>(be, body). admit_request env ch r q st rd be body)))"
    if "text_kept s1 = text_kept s" for rw s1 q st rd
    by (rule text_entered_pbind) (use that in \<open>simp_all add: admit split_beta\<close>)
  have routed: "text_entered env
      (fst (pbind (route_request env ch r q b0 s) (\<lambda>rd s1. pbind (rewrite_request env (ps_cfg s1) q st rd, s1)
        (\<lambda>(be, body). admit_request env ch r q st rd be body)))) s
      (snd (pbind (route_request env ch r q b0 s) (\<lambda>rd s1. pbind (rewrite_request env (ps_cfg s1) q st rd, s1)
        (\<lambda>(be, body). admit_request env ch r q st rd be body))))" for q b0 st
    by (rule text_entered_pbind) (simp_all add: text_view.view_route rewritten)
  show ?thesis
    by (simp add: proxyRequest_def Let_def text_entered_refused routed split: sum.split option.split)
qed

lemma text_entered_serve:
  assumes "serve env ch health up r s = (out, s')"
  shows "text_entered env out s s'"
proof -
  have "text_entered env (fst (serve env ch health up r s)) s (snd (serve env ch health up r s))"
    using text_entered_proxyRequest [of env ch _ r s]
    by (auto simp: serve_def text_entered_def [of _ "Responded _"] text_entered_def [of _ Panicked]
        split: endpoint.split option.split)
  with assms show ?thesis by simp
qed

definition text_inv :: "proxy_env \<Rightarrow> px_world \<Rightarrow> bool" where
  "text_inv env w \<longleftrightarrow> text_guarded env (pw_server w) \<and>
     (env_hardened env \<longrightarrow> (\<forall>r \<in> set (pw_reqs w). fw_cap (px_fw r) = None))"

lemma text_inv_server:
  "text_inv env w \<Longrightarrow> text_kept s' = text_kept (pw_server w) \<Longrightarrow> text_inv env (w\<lparr>pw_server := s'\<rparr>)"
  unfolding text_inv_def using text_guarded_kept [of s' "pw_server w" env] by simp

lemma text_inv_set: "text_inv env w \<Longrightarrow> n < length (pw_reqs w) \<Longrightarrow> text_inv env (px_set n ph w)"
  unfolding text_inv_def px_set_def
  by (auto dest!: set_update_subset_insert [THEN subsetD] dest: nth_mem)

lemma text_inv_kept:
  assumes inv: "text_inv env w" and n: "n < length (pw_reqs w)"
    and kept: "kept_or_uncaptured env (fw_at w n) (pw_server w) s'"
  shows "text_inv env ((px_set n ph w)\<lparr>pw_server := s'\<rparr>)"
proof -
  have "env_hardened env \<Longrightarrow> fw_cap (fw_at w n) = None" using inv n by (auto simp: text_inv_def)
  with inv kept have "text_guarded env s'"
    by (auto simp: text_inv_def text_guarded_def kept_or_uncaptured_def)
  with text_inv_set [OF inv n, of ph] show ?thesis by (simp add: text_inv_def)
qed

lemma text_inv_Reload: "text_inv env w \<Longrightarrow> text_inv env (w\<lparr>pw_server := Reload env cfg (pw_server w)\<rparr>)"
  by (auto simp: text_inv_def text_guarded_def Reload_def Let_def applyCaptureConfig_def buildSemaphores_def capture_New_def
      capture_New_hardened_def split: prod.split)

lemma text_inv_step:
  assumes "px_step env w w'" and "text_inv env w"
  shows "text_inv env w'"
  using assms
proof (induction rule: px_step.induct)
  case (rejects ch health up r out s')
  then show ?case using text_entered_serve [OF rejects(1)] by (simp add: text_entered_def text_inv_def)
next
  case (admits ch health up r fw s')
  then show ?case using text_entered_serve [OF admits(1)] by (auto simp: text_entered_def text_inv_def)
next
  case (acquires n h s')
  then show ?case using text_inv_server [OF text_inv_set [OF acquires(3)]] kept_acquire [OF acquires(2)]
    by (simp add: px_set_def)
next
  case (gives_up n dk now)
  then show ?case by (intro text_inv_kept kept_give_up) auto
next
  case (fails n h dk now ords err resp s')
  then show ?case by (intro text_inv_kept) (auto intro: kept_error)
next
  case (read_fails n h dk dk' now ords err resp s')
  then show ?case by (intro text_inv_kept) (auto intro: kept_read_failed)
next
  case (answers n h status dk now ords data)
  then show ?case by (intro text_inv_kept kept_answer) auto
next
  case (opens n h level)
  then show ?case by (intro text_inv_set) auto
next
  case (feeds n h p tee now bytes)
  then show ?case by (intro text_inv_set) auto
next
  case (closes n h p tee dk now ords readErr clientGone)
  then show ?case by (intro text_inv_kept kept_close) auto
next
  case (returns n h)
  then show ?case using text_inv_server [OF text_inv_set [OF returns(2)]] kept_semaphores [of h "pw_server w"]
    by (simp add: px_set_def)
next
  case (reloads cfg)
  then show ?case by (intro text_inv_Reload)
next
  case arms
  then show ?case by (auto simp: text_inv_def text_guarded_def Arm_def)
next
  case (monitors bal pf j j' bal')
  then show ?case by (intro text_inv_server) (simp_all add: text_kept_def)
qed

lemma text_inv_start: "text_inv env (px_start env cfg journal)"
  by (auto simp: text_inv_def text_guarded_def px_start_def server_New_def Let_def applyCaptureConfig_def buildSemaphores_def
      capture_New_def capture_New_hardened_def split: prod.split)

lemma text_inv_reachable: "(px_step env)\<^sup>*\<^sup>* (px_start env cfg journal) w \<Longrightarrow> text_inv env w"
  by (induction rule: rtranclp_induct) (auto intro: text_inv_start text_inv_step)

section \<open>Properties\<close>

text \<open>
  C17: capture files are complete and safe. Whatever requests, failures, reloads and capture signals are
  interleaved and however the file operations fail: every capture file that does not carry the
  suffix of a temporary file is the whole encoding of one payload, in which every credential and
  cookie header is redacted and the recorded response is at most 5 MB (before quoting).
\<close>

theorem captured_files_safe:
  assumes "(px_step env)\<^sup>*\<^sup>* (px_start env cfg journal) w"
    and "gm_get (ps_files (pw_server w)) path = Some bytes" and "\<not> HasSuffix path ''.tmp''"
  shows "\<exists>p. ce_indent (env_capture env) p = Some bytes \<and>
    (\<forall>k v. gm_get (rq_Headers (pl_Request p)) k = Some v \<longrightarrow>
       ToLower (ce_ulow (env_capture env)) k \<in> set sensitive_headers \<longrightarrow> v = ''[redacted]'') \<and>
    int (length (rp_SSE (pl_Response p))) \<le> 5 * 1024 * 1024 \<and>
    (\<exists>d. int (length d) \<le> 5 * 1024 * 1024 \<and> rp_Body (pl_Response p) = rawJSON (env_capture env) d)"
proof -
  have "files_safe (env_capture env) (ps_files (pw_server w))"
    using px_files_inv_reachable [OF assms(1)] by (simp add: px_files_inv_def)
  with assms(2,3) obtain p where "payload_safe (env_capture env) p" "ce_indent (env_capture env) p = Some bytes"
    by (auto simp: files_safe_def)
  then show ?thesis
    unfolding payload_safe_def headers_redacted_def response_capped_def MaxResponseBytes_def by auto
qed

text \<open>
  How much prompt text the server keeps. In every reachable state each journal entry holds at most
  2059 bytes of the system prompt and 8203 bytes of the last user message (the caps and the mark of
  a cut). In the hardened build it holds none of either, there is no capture handle and no capture
  file, the log level never exceeds the header level, and body and content lines are not logged at
  any level.
\<close>

theorem prompt_text_bounded:
  assumes "(px_step env)\<^sup>*\<^sup>* (px_start env cfg journal) w"
  shows "(\<forall>es e. ps_journal (pw_server w) = Some es \<longrightarrow> e \<in> set es \<longrightarrow>
      length (e_SystemText e) \<le> 2059 \<and> length (e_LastUserText e) \<le> 8203 \<and>
      (env_hardened env \<longrightarrow> e_SystemText e = '''' \<and> e_LastUserText e = '''')) \<and>
    (env_hardened env \<longrightarrow> ps_capture (pw_server w) = None \<and> ps_files (pw_server w) = []) \<and>
    logger_Apply True envLevel yamlLevel \<le> LevelHeaders \<and>
    log_Body True level line = [] \<and> log_Content True level line = []"
  using text_inv_reachable [OF assms] logger_Apply_range [of True envLevel yamlLevel]
  by (auto simp: text_inv_def text_guarded_def texts_ok_def maxSystemText_def maxLastUserText_def MaxAllowedLevel_def
      log_Body_def log_Content_def)

section \<open>A captured request\<close>

text \<open>The debug build with capture enabled: signal, one request, an unreachable backend.\<close>

definition debug_env :: proxy_env where
  "debug_env = sample_env\<lparr>env_hardened := False\<rparr>"

definition capturing_config :: Config where
  "capturing_config =
     passthrough_config\<lparr>cfg_SigMessageCapture := \<lparr>sc_Enabled = True, sc_OutputFolder = ''d'', sc_MaxMessages = 1\<rparr>\<rparr>"

definition good_disk :: disk where
  "good_disk = \<lparr>dk_write = WriteOk, dk_rename = None, dk_removable = True\<rparr>"

definition armed_server :: Server where
  "armed_server =
     (let s = server_New debug_env capturing_config True in s\<lparr>ps_capture := snd (Arm (ps_capture s))\<rparr>)"

lemma capturing_config_sel:
  "srv_APIKey (cfg_Server capturing_config) = []" "srv_PassthroughUnrouted (cfg_Server capturing_config)"
  "srv_MaxRequestBodyMB (cfg_Server capturing_config) = 0"
  "ShouldDropEmptyContent capturing_config None (Some (plain_backend ty)) = False"
  "DefaultBackend capturing_config = Some (plain_backend ''openai'')"
  "Resolve capturing_config m body = Inl (UnknownModel m)"
  by (simp_all add: capturing_config_def passthrough_config_def plain_backend_def ShouldDropEmptyContent_def
      DefaultBackend_def Resolve_def resolve.simps cfg_Route_def)

lemma debug_env_sel:
  "env_parse debug_env ''{}'' = Some (JObj [])" "env_marshal debug_env v = Some ''{}''"
  "env_url debug_env u = Inr \<lparr>tu_Scheme = ''http'', tu_Host = ''b''\<rparr>" "env_capture debug_env = sample_capture_env"
  by (simp_all add: debug_env_def sample_env_def)

lemma armed_server_sel:
  "ps_cfg armed_server = capturing_config" "ps_rtr armed_server = capturing_config" "ps_files armed_server = []"
  "ps_capture armed_server = Some \<lparr>cap_outputFolder = ''d'', cap_maxMessages = 1, cap_remaining = 1\<rparr>"
  "ps_semaphores armed_server = []" "ps_journal armed_server = Some []"
  by (simp_all add: armed_server_def server_New_def Let_def applyCaptureConfig_def buildSemaphores_def capture_New_def
      capture_New_debug_def capture_config_def capturing_config_def passthrough_config_def plain_backend_def debug_env_def
      sample_env_def Arm_def MaxAllowedMessages_def split: prod.split)

lemma armed_reserve:
  "Reserve (Some \<lparr>cap_outputFolder = ''d'', cap_maxMessages = 1, cap_remaining = 1\<rparr>) =
     (Some \<lparr>slot_folder = ''d'', slot_seq = 1, slot_total = 1\<rparr>,
      Some \<lparr>cap_outputFolder = ''d'', cap_maxMessages = 1, cap_remaining = 0\<rparr>)"
proof -
  have "\<not> (1 :: 32 word) <=s 0" by code_simp
  then show ?thesis by (simp add: Reserve_def reserve_attempt_def cas_remaining_def claimed_slot_def)
qed

lemma kept_capture_fields:
  "ps_capture (admission_gauges a s) = ps_capture s" "ps_journal (admission_gauges a s) = ps_journal s"
  "ps_semaphores (admission_gauges a s) = ps_semaphores s"
  using kept_gauges [of a s] by (simp_all add: text_kept_def admission_gauges_def Let_def split: option.split)

lemma armed_admits:
  "\<exists>fw s' cx e. serve debug_env sample_choices [] up sample_request armed_server = (Proceed fw, s') \<and>
     fw_backend fw = plain_backend ''openai'' \<and> fw_cap fw = Some cx \<and> slot_folder (cx_slot cx) = ''d'' \<and>
     pl_RequestID (cx_payload cx) = ''r'' \<and> pl_Timestamp (cx_payload cx) = ''t'' \<and>
     ps_semaphores s' = [] \<and> ps_files s' = [] \<and> ps_journal s' = Some [e]"
proof -
  have "endpoint_of ''/v1/completions'' = Proxied ''openai''" by (simp add: endpoint_of_def)
  then show ?thesis
    by (simp add: serve_def sample_request_def bearerAuth_def armed_server_sel capturing_config_sel debug_env_sel
        proxyRequest_def read_body_def decode_body_def route_request_def route_unresolved_def pbind_def
        rewrite_request_def checkEmptyMessages_def admit_request_def Let_def startCapture_def kept_capture_fields
        armed_reserve request_payload_def sample_choices_def sample_capture_env_def files_simps)
qed

definition armed_world :: px_world where
  "armed_world = (let w = px_start debug_env capturing_config True in w\<lparr>pw_server := armed_server\<rparr>)"

lemma armed_reachable: "(px_step debug_env)\<^sup>*\<^sup>* (px_start debug_env capturing_config True) armed_world"
  using px_step.arms [of debug_env "px_start debug_env capturing_config True"]
  by (auto simp: armed_world_def armed_server_def px_start_def Let_def)

theorem prompt_text_bounded_witness:
  "\<exists>w es e. (px_step debug_env)\<^sup>*\<^sup>* (px_start debug_env capturing_config True) w \<and>
     ps_journal (pw_server w) = Some es \<and> e \<in> set es \<and> length (e_LastUserText e) \<le> 8203"
proof -
  obtain fw s' e where admit: "serve debug_env sample_choices [] (\<lambda>_ _. Inl (502, [])) sample_request
      (pw_server armed_world) = (Proceed fw, s')" and journal: "ps_journal s' = Some [e]"
    using armed_admits [of "\<lambda>_ _. Inl (502, [])"] by (auto simp: armed_world_def Let_def)
  let ?w = "armed_world\<lparr>pw_server := s', pw_reqs := pw_reqs armed_world @ [\<lparr>px_fw = fw, px_phase = Waiting\<rparr>]\<rparr>"
  have run: "(px_step debug_env)\<^sup>*\<^sup>* (px_start debug_env capturing_config True) ?w"
    using armed_reachable px_step.admits [OF admit] by (rule rtranclp.rtrancl_into_rtrancl)
  from prompt_text_bounded [OF run, of None None 0 "[]"] have "length (e_LastUserText e) \<le> 8203"
    using journal by simp
  with run journal show ?thesis by (intro exI [of _ ?w] exI [of _ "[e]"] exI [of _ e]) simp
qed

lemma good_write:
  assumes "slot_folder sl = ''d''" and "pl_RequestID p = ''r''" and "pl_Timestamp p = ''t''"
  shows "gm_get (snd (write_payload sample_capture_env good_disk sl p [])) ''d/t-r.json'' = Some (rp_SSE (pl_Response p))"
  using assms
  by (simp add: write_payload_def Slot_Write_def good_disk_def sample_capture_env_def capture_file_name_def
      os_WriteFile_def os_Rename_def Let_def)

theorem captured_files_safe_witness:
  "\<exists>w p. (px_step debug_env)\<^sup>*\<^sup>* (px_start debug_env capturing_config True) w \<and>
     gm_get (ps_files (pw_server w)) ''d/t-r.json'' = ce_indent sample_capture_env p \<and>
     int (length (rp_SSE (pl_Response p))) \<le> 5 * 1024 * 1024"
proof -
  obtain fw s' cx where admit: "serve debug_env sample_choices [] (\<lambda>_ _. Inl (502, [])) sample_request
      (pw_server armed_world) = (Proceed fw, s')" and cx: "fw_cap fw = Some cx" "slot_folder (cx_slot cx) = ''d''"
      "pl_RequestID (cx_payload cx) = ''r''" "pl_Timestamp (cx_payload cx) = ''t''"
    and s': "ps_semaphores s' = []" "ps_files s' = []"
    using armed_admits [of "\<lambda>_ _. Inl (502, [])"] by (auto simp: armed_world_def Let_def)
  let ?w = "armed_world\<lparr>pw_server := s', pw_reqs := [\<lparr>px_fw = fw, px_phase = Waiting\<rparr>]\<rparr>"
  let ?w1 = "(px_set 0 GaveUp ?w)\<lparr>pw_server := give_up debug_env good_disk 0 (fw_at ?w 0) (pw_server ?w)\<rparr>"
  have none: "pw_reqs armed_world = []" by (simp add: armed_world_def px_start_def Let_def)
  have "(px_step debug_env)\<^sup>*\<^sup>* (px_start debug_env capturing_config True) ?w"
    using rtranclp.rtrancl_into_rtrancl [OF armed_reachable px_step.admits [OF admit]] by (simp add: none)
  then have run: "(px_step debug_env)\<^sup>*\<^sup>* (px_start debug_env capturing_config True) ?w1"
    by (rule rtranclp.rtrancl_into_rtrancl) (rule px_step.gives_up, simp)
  obtain q where "ps_files (pw_server ?w1) = snd (write_payload sample_capture_env good_disk (cx_slot cx) q [])"
    and q: "pl_RequestID q = ''r''" "pl_Timestamp q = ''t''"
    by (simp add: give_up_def end_capture_error_def finishError_def cx s' debug_env_sel files_simps)
  then have written: "gm_get (ps_files (pw_server ?w1)) ''d/t-r.json'' = Some (rp_SSE (pl_Response q))"
    using good_write [OF cx(2) q] by simp
  have "\<not> HasSuffix ''d/t-r.json'' ''.tmp''" by (simp add: HasSuffix_def suffix_def)
  from captured_files_safe [OF run written this] obtain p where
    "ce_indent sample_capture_env p = Some (rp_SSE (pl_Response q))"
    "int (length (rp_SSE (pl_Response p))) \<le> 5 * 1024 * 1024" by (auto simp: debug_env_sel)
  with run written show ?thesis by (intro exI [of _ ?w1] exI [of _ p]) simp
qed

end
