(* ===== verification/Config_Load.thy ===== *)
theory Config_Load
  imports Proxy_Config
begin

text \<open>
  The front half of \<open>Load\<close> in \<open>internal/config/config.go\<close>: reading the file, expanding
  variables, and turning \<open>backends\<close> and \<open>routes\<close> blocks written as maps into lists. The YAML library
  is a parameter: \<open>yparse\<close> and \<open>yprint\<close> between text and node trees, \<open>ydecode\<close> from text to the
  decoded configuration. A node tree keeps kinds and values; tags, styles and comments are not
  represented.
\<close>

section \<open>Environment variables\<close>

text \<open>
  \<open>ReplaceAllStringFunc\<close> with \<open>envVarRe\<close> (a dollar sign, an opening brace, one or more characters that are
  not closing braces, a closing brace): the leftmost match is replaced and the search goes on after it.
\<close>

function expandEnvVars :: "(string \<Rightarrow> string) \<Rightarrow> string \<Rightarrow> string" where
  "expandEnvVars getenv s =
     (if s = [] then []
      else
        let rest = drop 2 s;
            name = takeWhile (\<lambda>c. c \<noteq> CHR 0x7D) rest
        in if HasPrefix s [CHR 0x24, CHR 0x7B] \<and> name \<noteq> [] \<and> length name < length rest
           then getenv name @ expandEnvVars getenv (drop (length name + 1) rest)
           else hd s # expandEnvVars getenv (tl s))"
  by pat_completeness auto
termination
  by (relation "measure (\<lambda>(g, s). length s)") auto

declare expandEnvVars.simps [simp del]

lemma expandEnvVars_Nil [simp]: "expandEnvVars getenv [] = []"
  by (simp add: expandEnvVars.simps)

text \<open>A text without a dollar sign is unchanged; a variable is replaced by its value, which is not expanded again.\<close>

lemma expandEnvVars_plain: "CHR 0x24 \<notin> set s \<Longrightarrow> expandEnvVars getenv (s @ t) = s @ expandEnvVars getenv t"
proof (induction s)
  case (Cons c s)
  then have "\<not> HasPrefix (c # s @ t) [CHR 0x24, CHR 0x7B]" by (auto simp: HasPrefix_def)
  with Cons show ?case by (subst expandEnvVars.simps) (simp add: Let_def)
qed simp

lemma expandEnvVars_variable:
  assumes "name \<noteq> []" and "CHR 0x7D \<notin> set name"
  shows "expandEnvVars getenv ([CHR 0x24, CHR 0x7B] @ name @ [CHR 0x7D] @ t) = getenv name @ expandEnvVars getenv t"
proof -
  have "takeWhile (\<lambda>c. c \<noteq> CHR 0x7D) (name @ [CHR 0x7D] @ t) = name"
    using assms(2) by (subst takeWhile_append2) auto
  with assms show ?thesis
    by (subst expandEnvVars.simps) (simp add: Let_def HasPrefix_def)
qed

section \<open>Map blocks as lists\<close>

datatype ynode =
    YScalar string
  | YMapping "(ynode \<times> ynode) list"
  | YSequence "ynode list"
  | YAlias string

text \<open>The field \<open>Value\<close>, which is empty for mappings and sequences.\<close>

fun y_Value :: "ynode \<Rightarrow> string" where
  "y_Value (YScalar v) = v"
| "y_Value (YAlias v) = v"
| "y_Value (YMapping _) = ''''"
| "y_Value (YSequence _) = ''''"

definition y_fields :: "ynode \<Rightarrow> (ynode \<times> ynode) list" where
  "y_fields v = (case v of YMapping fs \<Rightarrow> fs | _ \<Rightarrow> [])"

definition has_field :: "string \<Rightarrow> (ynode \<times> ynode) list \<Rightarrow> bool" where
  "has_field name fs = list_ex (\<lambda>(k, _). y_Value k = name) fs"

definition list_entry :: "string \<Rightarrow> ynode \<times> ynode \<Rightarrow> ynode" where
  "list_entry keyField kv =
     YMapping ((if \<not> has_field keyField (y_fields (snd kv))
                then [(YScalar keyField, YScalar (y_Value (fst kv)))] else []) @ y_fields (snd kv))"

datatype load_error =
    ReadFailed
  | YamlInvalid
  | MixedSyntax string
  | YamlUnprintable
  | DecodeFailed
  | Rejected cfg_error
  | IndexPanic

fun list_block :: "string \<Rightarrow> string \<Rightarrow> ynode \<Rightarrow> load_error + ynode" where
  "list_block blockName keyField (YSequence xs) = Inr (YSequence xs)"
| "list_block blockName keyField (YMapping kvs) = Inr (YSequence (map (list_entry keyField) kvs))"
| "list_block blockName keyField _ = Inl (MixedSyntax blockName)"

fun list_blocks ::
  "string \<Rightarrow> string \<Rightarrow> (ynode \<times> ynode) list \<Rightarrow> load_error + (ynode \<times> ynode) list" where
  "list_blocks blockName keyField [] = Inr []"
| "list_blocks blockName keyField ((k, v) # kvs) =
     (case (if y_Value k = blockName then list_block blockName keyField v else Inr v) of
        Inl e \<Rightarrow> Inl e
      | Inr v' \<Rightarrow>
          (case list_blocks blockName keyField kvs of
             Inl e \<Rightarrow> Inl e
           | Inr kvs' \<Rightarrow> Inr ((k, v') # kvs')))"

text \<open>
  \<open>yparse\<close> returns \<open>Some None\<close> for a text without a document, on which indexing the content of the
  document node fails.
\<close>

definition normalizeMapToList ::
  "(string \<Rightarrow> ynode option option) \<Rightarrow> (ynode \<Rightarrow> string option) \<Rightarrow> string \<Rightarrow> string \<Rightarrow> string \<Rightarrow> load_error + string" where
  "normalizeMapToList yparse yprint yamlText blockName keyField =
     (case yparse yamlText of
        None \<Rightarrow> Inl YamlInvalid
      | Some None \<Rightarrow> Inl IndexPanic
      | Some (Some (YMapping kvs)) \<Rightarrow>
          (case list_blocks blockName keyField kvs of
             Inl e \<Rightarrow> Inl e
           | Inr kvs' \<Rightarrow>
               (case yprint (YMapping kvs') of
                  None \<Rightarrow> Inl YamlUnprintable
                | Some result \<Rightarrow> Inr (TrimSpace result)))
      | Some (Some _) \<Rightarrow> Inr yamlText)"

text \<open>\<open>Load\<close> from the content of the file.\<close>

definition Load_file ::
  "(string \<Rightarrow> string) \<Rightarrow> (string \<Rightarrow> ynode option option) \<Rightarrow> (ynode \<Rightarrow> string option) \<Rightarrow>
   (string \<Rightarrow> (Config \<times> (string, GroupConfig option) gomap) option) \<Rightarrow> (string \<Rightarrow> string option) \<Rightarrow>
   string option \<Rightarrow> load_error + Config" where
  "Load_file getenv yparse yprint ydecode url_norm content =
     (case content of
        None \<Rightarrow> Inl ReadFailed
      | Some raw \<Rightarrow>
          (case normalizeMapToList yparse yprint (expandEnvVars getenv raw) ''backends'' ''id'' of
             Inl e \<Rightarrow> Inl e
           | Inr t1 \<Rightarrow>
               (case normalizeMapToList yparse yprint t1 ''routes'' ''virtual_model'' of
                  Inl e \<Rightarrow> Inl e
                | Inr t2 \<Rightarrow>
                    (case ydecode t2 of
                       None \<Rightarrow> Inl DecodeFailed
                     | Some (cfg, rawGroups) \<Rightarrow>
                         (case Load url_norm rawGroups cfg of Inl e \<Rightarrow> Inl (Rejected e) | Inr c \<Rightarrow> Inr c)))))"

section \<open>Facts about the list form\<close>

lemma list_block_idem: "list_block b k v = Inr v' \<Longrightarrow> list_block b k v' = Inr v'"
  by (cases v) auto

lemma list_blocks_idem: "list_blocks b k kvs = Inr kvs' \<Longrightarrow> list_blocks b k kvs' = Inr kvs'"
proof (induction kvs arbitrary: kvs')
  case (Cons kv kvs)
  obtain key v where kv: "kv = (key, v)" by fastforce
  then obtain v' rest where v': "(if y_Value key = b then list_block b k v else Inr v) = Inr v'"
    and rest: "list_blocks b k kvs = Inr rest" and kvs': "kvs' = (key, v') # rest"
    using Cons.prems by (auto split: sum.splits)
  have "(if y_Value key = b then list_block b k v' else Inr v') = Inr v'"
    using v' by (auto split: if_splits intro: list_block_idem)
  with Cons.IH [OF rest] kvs' show ?case by simp
qed simp

text \<open>The blocks of another name are untouched.\<close>

lemma list_blocks_other:
  "list_blocks b k kvs = Inr kvs \<Longrightarrow> b \<noteq> b' \<Longrightarrow> list_blocks b' k' kvs = Inr kvs' \<Longrightarrow> list_blocks b k kvs' = Inr kvs'"
  by (induction kvs arbitrary: kvs') (auto split: sum.splits if_splits)

text \<open>Every entry has the key field: its own, or the key of the map.\<close>

lemma list_entry_field:
  "has_field keyField (y_fields (list_entry keyField kv))"
  by (simp add: list_entry_def has_field_def y_fields_def split: ynode.split)

lemma list_blocks_entries:
  assumes "list_blocks b k kvs = Inr kvs'" and "(key, YMapping es) \<in> set kvs" and "y_Value key = b"
  shows "(key, YSequence (map (list_entry k) es)) \<in> set kvs'"
  using assms by (induction kvs arbitrary: kvs') (auto split: sum.splits if_splits)

definition yaml_faithful :: "(string \<Rightarrow> ynode option option) \<Rightarrow> (ynode \<Rightarrow> string option) \<Rightarrow> ynode \<Rightarrow> bool" where
  "yaml_faithful yparse yprint n \<longleftrightarrow> (\<exists>t. yprint n = Some t \<and> yparse (TrimSpace t) = Some (Some n))"

lemma normalize_mapping:
  assumes "yparse t = Some (Some (YMapping kvs))" and "list_blocks b k kvs = Inr kvs'"
    and "yaml_faithful yparse yprint (YMapping kvs')"
  shows "\<exists>t'. normalizeMapToList yparse yprint t b k = Inr t' \<and> yparse t' = Some (Some (YMapping kvs')) \<and>
    (\<exists>p. yprint (YMapping kvs') = Some p \<and> t' = TrimSpace p)"
  using assms by (auto simp: normalizeMapToList_def yaml_faithful_def)

section \<open>Properties\<close>


text \<open>One backend and one route in map form, and the same in list form.\<close>

definition map_form :: "(ynode \<times> ynode) list" where
  "map_form =
     [(YScalar ''backends'', YMapping [(YScalar ''gpu'', YMapping [(YScalar ''type'', YScalar ''openai'')])]),
      (YScalar ''routes'', YMapping [(YScalar ''fast'', YMapping [(YScalar ''backend'', YScalar ''gpu'')])])]"

definition list_form :: "(ynode \<times> ynode) list" where
  "list_form =
     [(YScalar ''backends'', YSequence [YMapping [(YScalar ''id'', YScalar ''gpu''), (YScalar ''type'', YScalar ''openai'')]]),
      (YScalar ''routes'', YSequence [YMapping [(YScalar ''virtual_model'', YScalar ''fast''), (YScalar ''backend'', YScalar ''gpu'')]])]"

definition half_form :: "(ynode \<times> ynode) list" where
  "half_form = [list_form ! 0, map_form ! 1]"

text \<open>A library that knows three documents.\<close>

definition tiny_parse :: "string \<Rightarrow> ynode option option" where
  "tiny_parse t =
     (if t = ''m'' then Some (Some (YMapping map_form))
      else if t = ''h'' then Some (Some (YMapping half_form))
      else if t = ''l'' then Some (Some (YMapping list_form)) else None)"

definition tiny_print :: "ynode \<Rightarrow> string option" where
  "tiny_print n = (if n = YMapping half_form then Some ''h'' else if n = YMapping list_form then Some ''l'' else None)"


end
