(* ===== verification/Process_Main.thy ===== *)
theory Process_Main
  imports Proxy_Capture Config_Load
begin

text \<open>
  The process around the server, from \<open>cmd/hikyaku\<close>: start-up (\<open>main\<close>), the listeners it opens,
  the SIGHUP handler that reloads the configuration, the SIGUSR1 handler of the two builds, the
  shutdown and the start-up probes; and \<open>journal.New\<close>. \<open>process\<close> is the state while the signal loop runs; the result \<open>None\<close> of a handler
  is the end of the process. The environment, the YAML library, the exporters and the answers of
  probed backends are parameters.
\<close>

section \<open>Start\<close>

record main_env =
  mn_proxy :: proxy_env
  mn_getenv :: "string \<Rightarrow> string"
  mn_yparse :: "string \<Rightarrow> ynode option option"
  mn_yprint :: "ynode \<Rightarrow> string option"
  mn_ydecode :: "string \<Rightarrow> (Config \<times> (string, GroupConfig option) gomap) option"
  mn_url_norm :: "string \<Rightarrow> string option"
  mn_logLevel :: "int option"
  mn_exporter :: "string option"
  mn_meter :: "instrument_spec \<Rightarrow> string + nat"
  mn_stdout :: "string option"
  mn_otlp :: "string \<Rightarrow> string option"

definition config_Load :: "main_env \<Rightarrow> string option \<Rightarrow> load_error + Config" where
  "config_Load me content =
     Load_file (mn_getenv me) (mn_yparse me) (mn_yprint me) (mn_ydecode me) (mn_url_norm me) content"

definition level_of :: "main_env \<Rightarrow> Config \<Rightarrow> int" where
  "level_of me cfg = logger_Apply (env_hardened (mn_proxy me)) (mn_logLevel me) (srv_LogLevel (cfg_Server cfg))"

text \<open>
  \<open>journal.New\<close>: the exporters behind the journal, stdout always and OTLP with an endpoint. The
  constructors of the exporters are parameters, \<open>Some\<close> their error.
\<close>

datatype log_exporter = StdoutExporter | OtlpExporter string

definition journal_New :: "string option \<Rightarrow> (string \<Rightarrow> string option) \<Rightarrow> string \<Rightarrow> string + log_exporter list" where
  "journal_New stdoutlog otlploghttp otlpEndpoint =
     (case stdoutlog of
        Some err \<Rightarrow> Inl (''journal stdout exporter: '' @ err)
      | None \<Rightarrow>
          (let opts = [StdoutExporter] in
           if otlpEndpoint \<noteq> '''' then
             (case otlploghttp otlpEndpoint of
                Some err \<Rightarrow> Inl (''journal OTLP exporter: '' @ err)
              | None \<Rightarrow> Inr (opts @ [OtlpExporter otlpEndpoint]))
           else Inr opts))"

text \<open>The sockets that the process opens, the metrics one with the path it serves.\<close>

record listener =
  ln_host :: string
  ln_port :: int
  ln_tls :: bool
  ln_metrics :: "string option"

definition proxy_listener :: "Config \<Rightarrow> listener" where
  "proxy_listener cfg =
     (let srv = cfg_Server cfg in
      \<lparr>ln_host = srv_Host srv, ln_port = srv_Port srv,
       ln_tls = (tls_Cert (srv_TLS srv) \<noteq> '''' \<and> tls_Key (srv_TLS srv) \<noteq> ''''), ln_metrics = None\<rparr>)"

definition metrics_listener :: "Config \<Rightarrow> listener option" where
  "metrics_listener cfg =
     (let p = cfg_Prometheus cfg in
      if prom_Enabled p
      then Some \<lparr>ln_host = prom_Host p, ln_port = prom_Port p,
                 ln_tls = (tls_Cert (prom_TLS p) \<noteq> '''' \<and> tls_Key (prom_TLS p) \<noteq> ''''),
                 ln_metrics = Some (prom_Path p)\<rparr>
      else None)"

record process =
  pc_world :: px_world
  pc_level :: int
  pc_listeners :: "listener list"

datatype fatal =
    ConfigFatal load_error
  | PolicyFatal cfg_error
  | TelemetryFatal string
  | JournalFatal string

definition main_start :: "main_env \<Rightarrow> string option \<Rightarrow> fatal + process" where
  "main_start me content =
     (case config_Load me content of
        Inl e \<Rightarrow> Inl (ConfigFatal e)
      | Inr cfg \<Rightarrow>
          (case ValidateListenPolicy cfg of
             Inl e \<Rightarrow> Inl (PolicyFatal e)
           | Inr _ \<Rightarrow>
               (case telemetry_Init (mn_exporter me) (mn_meter me) of
                  Inl e \<Rightarrow> Inl (TelemetryFatal e)
                | Inr _ \<Rightarrow>
                    (case (if jr_Enabled (cfg_Journal cfg)
                           then map_sum id Some (journal_New (mn_stdout me) (mn_otlp me) (jr_OTLPEndpoint (cfg_Journal cfg)))
                           else Inr None) of
                       Inl e \<Rightarrow> Inl (JournalFatal e)
                     | Inr _ \<Rightarrow>
                         Inr \<lparr>pc_world = px_start (mn_proxy me) cfg (jr_Enabled (cfg_Journal cfg)),
                              pc_level = level_of me cfg,
                              pc_listeners = proxy_listener cfg # (case metrics_listener cfg of None \<Rightarrow> [] | Some l \<Rightarrow> [l])\<rparr>))))"

section \<open>Signals\<close>

abbreviation running_cfg :: "process \<Rightarrow> Config" where
  "running_cfg p \<equiv> ps_cfg (pw_server (pc_world p))"

text \<open>
  SIGHUP. A file that cannot be loaded or that breaks the listening policy leaves the old
  configuration in place. A panic in this goroutine is not recovered.
\<close>

definition handle_sighup :: "main_env \<Rightarrow> string option \<Rightarrow> process \<Rightarrow> process option" where
  "handle_sighup me content p =
     (let keep = p\<lparr>pc_level := level_of me (running_cfg p)\<rparr> in
      case config_Load me content of
        Inl IndexPanic \<Rightarrow> None
      | Inl e \<Rightarrow> Some keep
      | Inr newCfg \<Rightarrow>
          (case ValidateListenPolicy newCfg of
             Inl _ \<Rightarrow> Some keep
           | Inr _ \<Rightarrow>
               (let w = pc_world p in
                Some (p\<lparr>pc_world := w\<lparr>pw_server := Reload (mn_proxy me) newCfg (pw_server w)\<rparr>,
                        pc_level := level_of me newCfg\<rparr>))))"

text \<open>
  SIGUSR1. The debug build arms the capture window; the hardened build installs no handler, so the
  signal has its default action.
\<close>

definition handle_usr1 :: "main_env \<Rightarrow> process \<Rightarrow> process option" where
  "handle_usr1 me p =
     (if env_hardened (mn_proxy me) then None
      else
        let w = pc_world p; s = pw_server w in
        Some (case ps_capture s of
                None \<Rightarrow> p
              | Some c \<Rightarrow> p\<lparr>pc_world := w\<lparr>pw_server := s\<lparr>ps_capture := snd (Arm (Some c))\<rparr>\<rparr>\<rparr>))"

text \<open>The process runs: the server makes a step that is not a reload, or a signal arrives.\<close>

inductive proc_step :: "main_env \<Rightarrow> process \<Rightarrow> process \<Rightarrow> bool" for me p where
  runs: "px_step (mn_proxy me) (pc_world p) w' \<Longrightarrow> ps_cfg (pw_server w') = running_cfg p \<Longrightarrow>
     proc_step me p (p\<lparr>pc_world := w'\<rparr>)"
| sighup: "handle_sighup me content p = Some p' \<Longrightarrow> proc_step me p p'"
| usr1: "handle_usr1 me p = Some p' \<Longrightarrow> proc_step me p p'"

section \<open>Shutdown\<close>

text \<open>
  What \<open>main\<close> does after SIGINT or SIGTERM, in order, with the lines it logs. A server or a journal that
  fails to shut down is logged and skipped. \<open>Stop\<close> closes the channel of the balancer (it waits for the
  goroutines in the life cycle theory). The errors of the three \<open>Shutdown\<close> calls are parameters.
\<close>

definition shutdown_log :: "string \<Rightarrow> string option \<Rightarrow> string list" where
  "shutdown_log what err =
     (case err of None \<Rightarrow> [] | Some e \<Rightarrow> [''[hikyaku] '' @ what @ '' shutdown: '' @ e])"

definition main_shutdown ::
  "string option \<Rightarrow> string option \<Rightarrow> string option \<Rightarrow> process \<Rightarrow> process \<times> string list" where
  "main_shutdown proxyErr metricsErr journalErr p =
     (let w = pc_world p; s = pw_server w;
          metricsServer = list_ex (\<lambda>l. ln_metrics l \<noteq> None) (pc_listeners p)
      in (p\<lparr>pc_world := w\<lparr>pw_server :=
              s\<lparr>ps_balancer := map_option (\<lambda>bal. bal\<lparr>bal_done := True\<rparr>) (ps_balancer s)\<rparr>\<rparr>\<rparr>,
          [''[hikyaku] shutting down...''] @ shutdown_log ''proxy'' proxyErr @
          (if metricsServer then shutdown_log ''metrics'' metricsErr else []) @
          (if ps_journal s \<noteq> None then shutdown_log ''journal'' journalErr else [])))"

lemma main_shutdown_stops:
  assumes "main_shutdown proxyErr metricsErr journalErr p = (p', logs)"
  shows "running_cfg p' = running_cfg p \<and> pred_option bal_done (ps_balancer (pw_server (pc_world p'))) \<and>
    length logs \<le> 4 \<and> (proxyErr = None \<and> metricsErr = None \<and> journalErr = None \<longrightarrow> length logs = 1)"
  using assms
  by (auto simp: main_shutdown_def shutdown_log_def Let_def pred_option_def split: option.splits if_splits)

section \<open>Probes at start-up\<close>

text \<open>
  \<open>probeBackends\<close> writes one report per backend, with the virtual models routed to it. The answer of a
  backend to the probe is a parameter: the request cannot be built, is not answered, or is answered
  with a status and a body, from which \<open>models\<close> reads the listed model ids (none when it is not
  JSON of the expected shape).
\<close>

datatype probe_answer = RequestInvalid string | NoAnswer string | ProbeStatus int string

datatype probe_report =
    ProbeSkipped "(string \<times> string) list"
  | ProbeBadURL string
  | ProbeBadRequest string
  | ProbeUnreachable string "(string \<times> string) list"
  | ProbeNoModels "(string \<times> string) list"
  | ProbeHTTP int "(string \<times> string) list"
  | ProbeOK "string list" "(string \<times> string) list"

definition models_by_backend :: "Route list \<Rightarrow> (string, (string \<times> string) list) gomap" where
  "models_by_backend rs =
     fold (\<lambda>r m. if rt_AutoRoute r \<noteq> None then m
                 else gm_set (rt_Backend r)
                        (or_zero (gm_get m (rt_Backend r)) [] @ [(rt_VirtualModel r, rt_RealModel r)]) m) rs []"

definition probe_backend ::
  "(string \<Rightarrow> string + target_url) \<Rightarrow> (string \<Rightarrow> string option \<Rightarrow> probe_answer) \<Rightarrow> (string \<Rightarrow> string list) \<Rightarrow>
     (string, (string \<times> string) list) gomap \<Rightarrow> Backend \<Rightarrow> probe_report" where
  "probe_backend url ask models byBackend b =
     (let vms = or_zero (gm_get byBackend (be_ID b)) [] in
      if be_SkipProbe b then ProbeSkipped vms
      else case url (be_BaseURL b) of
        Inl e \<Rightarrow> ProbeBadURL e
      | Inr _ \<Rightarrow>
          (case ask (be_BaseURL b) (if be_APIKey b \<noteq> '''' then Some (''Bearer '' @ be_APIKey b) else None) of
             RequestInvalid e \<Rightarrow> ProbeBadRequest e
           | NoAnswer e \<Rightarrow> ProbeUnreachable e vms
           | ProbeStatus code body \<Rightarrow>
               (if code = 404 then ProbeNoModels vms
                else if code \<noteq> 200 then ProbeHTTP code vms
                else ProbeOK (models body) vms)))"

definition probeBackends ::
  "(string \<Rightarrow> string + target_url) \<Rightarrow> (string \<Rightarrow> string option \<Rightarrow> probe_answer) \<Rightarrow> (string \<Rightarrow> string list) \<Rightarrow>
     Config \<Rightarrow> (string \<times> probe_report) list" where
  "probeBackends url ask models cfg =
     map (\<lambda>b. (be_ID b, probe_backend url ask models (models_by_backend (cfg_Routes cfg)) b)) (cfg_Backends cfg)"

lemma models_by_backend_get:
  "or_zero (gm_get (models_by_backend rs) i) [] =
     map (\<lambda>r. (rt_VirtualModel r, rt_RealModel r)) (filter (\<lambda>r. rt_AutoRoute r = None \<and> rt_Backend r = i) rs)"
proof -
  let ?f = "\<lambda>r m. if rt_AutoRoute r \<noteq> None then m
    else gm_set (rt_Backend r) (or_zero (gm_get m (rt_Backend r)) [] @ [(rt_VirtualModel r, rt_RealModel r)]) m"
  have "or_zero (gm_get (fold ?f rs m) i) [] = or_zero (gm_get m i) [] @
      map (\<lambda>r. (rt_VirtualModel r, rt_RealModel r)) (filter (\<lambda>r. rt_AutoRoute r = None \<and> rt_Backend r = i) rs)" for m
    by (induction rs arbitrary: m) (auto simp: gomap_simps)
  from this [of "[]"] show ?thesis by (simp add: models_by_backend_def)
qed

section \<open>What holds while the process runs\<close>

definition proc_inv :: "main_env \<Rightarrow> process \<Rightarrow> process \<Rightarrow> bool" where
  "proc_inv me p0 p \<longleftrightarrow>
     (\<exists>content. config_Load me content = Inr (running_cfg p)) \<and> ValidateListenPolicy (running_cfg p) = Inr () \<and>
     pc_level p = level_of me (running_cfg p) \<and> pc_listeners p = pc_listeners p0 \<and>
     (px_step (mn_proxy me))\<^sup>*\<^sup>* (pc_world p0) (pc_world p)"

lemma Reload_cfg [simp]: "ps_cfg (Reload env cfg s) = cfg"
  by (simp add: Reload_def Let_def applyCaptureConfig_def buildSemaphores_def split: prod.split)

lemma server_New_cfg [simp]: "ps_cfg (server_New env cfg journal) = cfg"
  by (simp add: server_New_def Let_def applyCaptureConfig_def buildSemaphores_def split: prod.split)

lemma proc_inv_sighup:
  assumes "proc_inv me p0 p" and "handle_sighup me content p = Some p'"
  shows "proc_inv me p0 p'"
proof (cases "\<exists>cfg. config_Load me content = Inr cfg \<and> ValidateListenPolicy cfg = Inr ()")
  case True
  then obtain cfg where cfg: "config_Load me content = Inr cfg" "ValidateListenPolicy cfg = Inr ()" by blast
  let ?w = "(pc_world p)\<lparr>pw_server := Reload (mn_proxy me) cfg (pw_server (pc_world p))\<rparr>"
  have "p' = p\<lparr>pc_world := ?w, pc_level := level_of me cfg\<rparr>"
    using assms(2) cfg by (simp add: handle_sighup_def Let_def)
  moreover have "(px_step (mn_proxy me))\<^sup>*\<^sup>* (pc_world p0) ?w"
    using assms(1) px_step.reloads by (auto simp: proc_inv_def intro: rtranclp.rtrancl_into_rtrancl)
  ultimately show ?thesis using assms(1) cfg by (auto simp: proc_inv_def)
next
  case False
  then have "p' = p\<lparr>pc_level := level_of me (running_cfg p)\<rparr>"
    using assms(2) by (auto simp: handle_sighup_def Let_def split: sum.splits load_error.splits)
  with assms(1) show ?thesis by (simp add: proc_inv_def)
qed

lemma proc_inv_usr1:
  assumes "proc_inv me p0 p" and "handle_usr1 me p = Some p'"
  shows "proc_inv me p0 p'"
proof (cases "ps_capture (pw_server (pc_world p))")
  case None
  with assms show ?thesis by (auto simp: handle_usr1_def Let_def split: if_splits)
next
  case (Some c)
  let ?w = "(pc_world p)\<lparr>pw_server := (pw_server (pc_world p))\<lparr>ps_capture := snd (Arm (Some c))\<rparr>\<rparr>"
  have p': "p' = p\<lparr>pc_world := ?w\<rparr>" using assms(2) Some by (auto simp: handle_usr1_def Let_def split: if_splits)
  have "px_step (mn_proxy me) (pc_world p) ?w" using px_step.arms [of "mn_proxy me" "pc_world p"] Some by simp
  then have "(px_step (mn_proxy me))\<^sup>*\<^sup>* (pc_world p0) ?w"
    using assms(1) by (auto simp: proc_inv_def intro: rtranclp.rtrancl_into_rtrancl)
  with assms(1) p' show ?thesis by (simp add: proc_inv_def)
qed

lemma proc_inv_step: "proc_inv me p0 p \<Longrightarrow> proc_step me p p' \<Longrightarrow> proc_inv me p0 p'"
proof (erule proc_step.cases)
  fix w'
  assume inv: "proc_inv me p0 p" and p': "p' = p\<lparr>pc_world := w'\<rparr>"
    and "px_step (mn_proxy me) (pc_world p) w'" "ps_cfg (pw_server w') = running_cfg p"
  then show "proc_inv me p0 p'" by (auto simp: proc_inv_def intro: rtranclp.rtrancl_into_rtrancl)
qed (auto intro: proc_inv_sighup proc_inv_usr1)

lemma main_start_world:
  assumes "main_start me content = Inr p0"
  shows "\<exists>cfg. config_Load me content = Inr cfg \<and> ValidateListenPolicy cfg = Inr () \<and>
    pc_world p0 = px_start (mn_proxy me) cfg (jr_Enabled (cfg_Journal cfg))"
  using assms by (auto simp: main_start_def split: sum.splits option.splits if_splits)

lemma main_start_inv:
  assumes "main_start me content = Inr p0"
  shows "proc_inv me p0 p0"
  using assms
  by (auto simp: main_start_def proc_inv_def px_start_def split: sum.splits option.splits if_splits)

lemma proc_inv_reachable:
  assumes "main_start me content = Inr p0" and "(proc_step me)\<^sup>*\<^sup>* p0 p"
  shows "proc_inv me p0 p"
  using assms(2) by induction (auto intro: main_start_inv [OF assms(1)] proc_inv_step)

lemma main_start_listeners:
  assumes "main_start me content = Inr p0"
  shows "\<exists>cfg. config_Load me content = Inr cfg \<and> (\<forall>l \<in> set (pc_listeners p0). ln_tls l \<or>
     (ln_metrics l = None \<and> srv_AllowPlaintext (cfg_Server cfg)) \<or>
     (ln_metrics l \<noteq> None \<and> (isLoopbackHost (ln_host l) \<or> prom_AllowPlaintext (cfg_Prometheus cfg))))"
proof -
  obtain cfg where cfg: "config_Load me content = Inr cfg" "ValidateListenPolicy cfg = Inr ()"
    and ls: "pc_listeners p0 = proxy_listener cfg # (case metrics_listener cfg of None \<Rightarrow> [] | Some l \<Rightarrow> [l])"
    using assms by (auto simp: main_start_def split: sum.splits option.splits if_splits)
  with cfg(2) show ?thesis
    by (intro exI [of _ cfg])
      (auto simp: ValidateListenPolicy_iff proxy_listener_def metrics_listener_def Let_def split: if_splits)
qed

section \<open>Properties\<close>

text \<open>
  C18: the process only ever runs accepted configurations. After a successful start, whatever requests,
  reloads and capture signals follow: the running configuration was loaded and validated from some
  content of the file and passes the listening policy; the log level is the one it prescribes; the
  server is in a state reachable by its own steps; and every socket speaks TLS unless the starting
  configuration allows plaintext for it or it is the metrics port on a loopback host. A reload whose
  file cannot be loaded or breaks the policy changes nothing, with one exception: on a file without
  a YAML document the handler does not return and the process ends.
\<close>

theorem running_config_accepted:
  assumes start: "main_start me content = Inr p0" and run: "(proc_step me)\<^sup>*\<^sup>* p0 p"
  shows "(\<exists>c. config_Load me c = Inr (running_cfg p)) \<and> ValidateListenPolicy (running_cfg p) = Inr () \<and>
    pc_level p = level_of me (running_cfg p) \<and>
    (\<exists>cfg0. config_Load me content = Inr cfg0 \<and>
       (px_step (mn_proxy me))\<^sup>*\<^sup>* (px_start (mn_proxy me) cfg0 (jr_Enabled (cfg_Journal cfg0))) (pc_world p) \<and>
       (\<forall>l \<in> set (pc_listeners p). ln_tls l \<or> (ln_metrics l = None \<and> srv_AllowPlaintext (cfg_Server cfg0)) \<or>
          (ln_metrics l \<noteq> None \<and> (isLoopbackHost (ln_host l) \<or> prom_AllowPlaintext (cfg_Prometheus cfg0))))) \<and>
    (\<forall>c e. config_Load me c = Inl e \<longrightarrow>
       handle_sighup me c p = (if e = IndexPanic then None else Some p)) \<and>
    (\<forall>c cfg e. config_Load me c = Inr cfg \<longrightarrow> ValidateListenPolicy cfg = Inl e \<longrightarrow> handle_sighup me c p = Some p)"
proof -
  have inv: "proc_inv me p0 p" by (rule proc_inv_reachable [OF start run])
  obtain cfg0 where cfg0: "config_Load me content = Inr cfg0"
    "pc_world p0 = px_start (mn_proxy me) cfg0 (jr_Enabled (cfg_Journal cfg0))"
    using main_start_world [OF start] by blast
  have same: "p\<lparr>pc_level := level_of me (running_cfg p)\<rparr> = p" using inv by (simp add: proc_inv_def)
  have failed: "handle_sighup me c p = (if e = IndexPanic then None else Some p)"
    if "config_Load me c = Inl e" for c e
    using that same by (cases e) (simp_all add: handle_sighup_def)
  have refused: "handle_sighup me c p = Some p"
    if "config_Load me c = Inr cfg" "ValidateListenPolicy cfg = Inl e" for c cfg e
    using that same by (simp add: handle_sighup_def)
  from inv cfg0 main_start_listeners [OF start] failed refused show ?thesis
    by (auto simp: proc_inv_def)
qed

text \<open>A process on the sample configuration, in which every text is a document.\<close>

definition sample_main :: main_env where
  "sample_main =
     \<lparr>mn_proxy = sample_env, mn_getenv = (\<lambda>_. ''''),
      mn_yparse = (\<lambda>t. if t = '''' then Some None else Some (Some (YMapping []))), mn_yprint = (\<lambda>_. Some ''y''),
      mn_ydecode = (\<lambda>_. Some (sample_raw, [(''gpu'', None)])), mn_url_norm = Some, mn_logLevel = None,
      mn_exporter = None, mn_meter = (\<lambda>_. Inr 0), mn_stdout = None, mn_otlp = (\<lambda>_. None)\<rparr>"

lemma sample_main_loads: "config_Load sample_main (Some ''y'') = Inr sample_config"
proof -
  have "TrimSpace ''y'' = ''y''" by code_simp
  moreover have "expandEnvVars g ''y'' = ''y''" for g using expandEnvVars_plain [of "''y''" g "[]"] by simp
  ultimately show ?thesis
    by (simp add: config_Load_def Load_file_def normalizeMapToList_def sample_main_def sample_load)
qed

lemma sample_main_empty: "config_Load sample_main (Some '''') = Inl IndexPanic"
  by (simp add: config_Load_def Load_file_def normalizeMapToList_def sample_main_def)

lemma sample_main_starts: "\<exists>p. main_start sample_main (Some ''y'') = Inr p \<and> running_cfg p = sample_config"
proof -
  have policy: "ValidateListenPolicy sample_config = Inr ()" by (rule ValidateListenPolicy_iff_witness)
  have "jr_Enabled (cfg_Journal sample_config) = False"
    by (simp add: sample_config_def Load_def Let_def validate_def validateBackends_def validateRoutes_def
        applyDefaults_def sample_defs default_backend_def system_prompt_ops_def)
  with sample_main_loads policy show ?thesis
    by (simp add: main_start_def sample_main_def px_start_def telemetry_Init_def init_order_def)
qed

theorem running_config_accepted_witness:
  "\<exists>p. main_start sample_main (Some ''y'') = Inr p \<and> running_cfg p = sample_config \<and>
     handle_sighup sample_main None p = Some p \<and> handle_sighup sample_main (Some '''') p = None"
proof -
  obtain p where start: "main_start sample_main (Some ''y'') = Inr p" and cfg: "running_cfg p = sample_config"
    using sample_main_starts by blast
  have "config_Load sample_main None = Inl ReadFailed" by (simp add: config_Load_def Load_file_def)
  then show ?thesis
    using running_config_accepted [OF start rtranclp.rtrancl_refl] start cfg sample_main_empty by auto
qed

end
