(* ===== verification/Request_Logging.thy ===== *)
theory Request_Logging
  imports Request_Journal Header_Ops
begin

text \<open>
  What a request leaves in the log and in the journal: the log lines of \<open>proxyRequest\<close> and
  \<open>modifyResponse\<close> (\<open>internal/proxy/server.go\<close>) as lists of strings at a level and in a build, and
  the record that \<open>Journal.Log\<close> (\<open>internal/journal/journal.go\<close>) hands to its exporter. The texts of
  numbers and maps (\<open>%.3f\<close>, \<open>%v\<close>) are parameters.
\<close>

section \<open>The lines of a request\<close>

definition arrow :: string where
  "arrow = [CHR 0xE2, CHR 0x86, CHR 0x92]"

text \<open>Headers, in the order \<open>ks\<close> of the iteration over the map, and the first 80 bytes of the body.\<close>

definition incoming_log ::
  "bool \<Rightarrow> int \<Rightarrow> string \<Rightarrow> string \<Rightarrow> string \<Rightarrow> string list \<Rightarrow> header \<Rightarrow> string \<Rightarrow> string list" where
  "incoming_log hardened level rid meth path ks h rawBody =
     log_Headers level (''['' @ rid @ ''] '' @ meth @ '' '' @ path) @
     concat (map (\<lambda>(k, vs). concat (map (\<lambda>v. log_Headers level (''['' @ rid @ '']   '' @ k @ '': '' @ v)) vs)) (gm_range ks h)) @
     log_Body hardened level (''['' @ rid @ ''] '' @ meth @ '' '' @ path @ '' body: '' @
       (if length rawBody > 80 then take 80 rawBody else rawBody))"

definition transform_log ::
  "(obj \<Rightarrow> string) \<Rightarrow> int \<Rightarrow> string \<Rightarrow> Backend \<Rightarrow> string \<Rightarrow> string \<Rightarrow> obj option \<Rightarrow> string list" where
  "transform_log show_params level rid backend modelName realModel params =
     (let authType = (if be_APIKey backend \<noteq> '''' then auth_type backend else ''none'');
          line = ''['' @ rid @ ''] '' @ arrow @ '' backend='' @ be_ID backend @ '' target='' @ be_BaseURL backend @
                 '' model='' @ modelName @ arrow @ realModel @ '' auth='' @ authType
      in case params of
           Some ps \<Rightarrow> if length ps > 0 then log_Headers level (line @ '' params='' @ show_params ps)
                      else log_Headers level line
         | None \<Rightarrow> log_Headers level line)"

text \<open>The parts of a message as \<open>logMessageContent\<close> shows them.\<close>

definition part_label :: "json \<Rightarrow> string list" where
  "part_label p =
     (case p of
        JObj part \<Rightarrow>
          (case gm_get part ''type'' of
             Some (JStr t) \<Rightarrow>
               [if t = ''text'' then or_zero (get_str part ''text'') ''''
                else if t \<in> {''image_url'', ''image''} then ''[image]''
                else if t \<in> {''video_url'', ''video''} then ''[video]''
                else if t \<in> {''document'', ''file''} then ''[document]''
                else ''['' @ t @ '']'']
           | _ \<Rightarrow> [''[]''])
      | _ \<Rightarrow> [])"

definition message_log :: "bool \<Rightarrow> int \<Rightarrow> string \<Rightarrow> json \<Rightarrow> string list" where
  "message_log hardened level rid m =
     (case m of
        JObj msg \<Rightarrow>
          (let line = (\<lambda>txt. log_Content hardened level
                 (''[msg '' @ rid @ ''] role='' @ or_zero (get_str msg ''role'') '''' @ '' | '' @ txt))
           in case gm_get msg ''content'' of
                Some (JStr content) \<Rightarrow> line content
              | Some (JArr content) \<Rightarrow> line (join_strings '' '' (concat (map part_label content)))
              | _ \<Rightarrow> [])
      | _ \<Rightarrow> [])"

definition logMessageContent :: "bool \<Rightarrow> int \<Rightarrow> string \<Rightarrow> obj \<Rightarrow> string list" where
  "logMessageContent hardened level rid body =
     (case get_str body ''system'' of
        Some sys \<Rightarrow> if sys \<noteq> '''' then log_Content hardened level (''[msg '' @ rid @ ''] role=system | '' @ sys) else []
      | None \<Rightarrow> []) @
     concat (map (message_log hardened level rid) (or_zero (get_arr body ''messages'') []))"

definition request_log ::
  "(obj \<Rightarrow> string) \<Rightarrow> bool \<Rightarrow> int \<Rightarrow> string \<Rightarrow> string \<Rightarrow> string \<Rightarrow> string list \<Rightarrow> header \<Rightarrow> string \<Rightarrow> Backend \<Rightarrow>
     string \<Rightarrow> string \<Rightarrow> obj option \<Rightarrow> obj \<Rightarrow> string list" where
  "request_log show_params hardened level rid meth path ks h rawBody backend modelName realModel params body =
     incoming_log hardened level rid meth path ks h rawBody @
     transform_log show_params level rid backend modelName realModel params @
     (if level \<ge> LevelContent then logMessageContent hardened level rid body else [])"

section \<open>The lines of a response\<close>

definition anthropic_text :: "json \<Rightarrow> string" where
  "anthropic_text c = (case c of JObj block \<Rightarrow> or_zero (get_str block ''text'') '''' | _ \<Rightarrow> '''')"

definition response_text :: "string \<Rightarrow> obj \<Rightarrow> string" where
  "response_text backendType resp =
     (if backendType = ''anthropic''
      then concat (map anthropic_text (or_zero (get_arr resp ''content'') []))
      else case get_arr resp ''choices'' of
        Some (c # _) \<Rightarrow>
          (let choice = (case c of JObj m \<Rightarrow> m | _ \<Rightarrow> []);
               msg = or_zero (get_obj choice ''message'') []
           in or_zero (get_str msg ''content'') '''')
      | _ \<Rightarrow> '''')"

text \<open>\<open>unmarshal\<close> decodes a JSON object or null into a map (\<open>None\<close> is an error).\<close>

definition logNonStreamingResponse ::
  "(string \<Rightarrow> obj option) \<Rightarrow> bool \<Rightarrow> int \<Rightarrow> string \<Rightarrow> string \<Rightarrow> string \<Rightarrow> string list" where
  "logNonStreamingResponse unmarshal hardened level rid data backendType =
     (case unmarshal data of
        None \<Rightarrow> []
      | Some resp \<Rightarrow>
          (let txt = response_text backendType resp
           in if txt \<noteq> ''''
              then log_Content hardened level (''[resp '' @ rid @ ''] | '' @
                     (if length txt > 32768 then take 32768 txt @ '' [truncated]'' else txt))
              else []))"

definition request_line :: "string \<Rightarrow> string \<Rightarrow> string \<Rightarrow> string \<Rightarrow> string \<Rightarrow> string \<Rightarrow> string \<Rightarrow> string" where
  "request_line rid path virtualModel realModel backendID status dur =
     ''['' @ rid @ ''] POST '' @ path @ '' model='' @ virtualModel @ arrow @ realModel @ '' backend='' @ backendID @
     '' status='' @ status @ '' dur='' @ dur @ ''s''"

definition answer_log ::
  "(string \<Rightarrow> obj option) \<Rightarrow> bool \<Rightarrow> int \<Rightarrow> string \<Rightarrow> string \<Rightarrow> string \<Rightarrow> string \<Rightarrow> string \<Rightarrow> string \<Rightarrow> string \<Rightarrow> int \<Rightarrow>
     string \<Rightarrow> string list" where
  "answer_log unmarshal hardened level rid path virtualModel realModel backendID backendType dur status data =
     log_Request level (request_line rid path virtualModel realModel backendID (Itoa status) dur) @
     (if status \<noteq> 200 \<and> level \<ge> LevelRequest
      then log_Request level (''['' @ rid @ ''] upstream error body: '' @ take (min (length data) 1024) data) else []) @
     (if level \<ge> LevelContent then logNonStreamingResponse unmarshal hardened level rid data backendType else [])"

text \<open>The end of a streamed response; \<open>captured\<close> is \<open>ResponseText\<close> of a parser that captures content.\<close>

definition stream_log ::
  "bool \<Rightarrow> int \<Rightarrow> string \<Rightarrow> string \<Rightarrow> string \<Rightarrow> string \<Rightarrow> string \<Rightarrow> string \<Rightarrow> string option \<Rightarrow> string list" where
  "stream_log hardened level rid path virtualModel realModel backendID dur captured =
     log_Request level (request_line rid path virtualModel realModel backendID ''200'' dur @ '' stream=true'') @
     (case captured of
        None \<Rightarrow> []
      | Some txt \<Rightarrow> log_Content hardened level (''[resp '' @ rid @ ''] | '' @ txt))"

section \<open>The journal record\<close>

datatype attr_value = AttrString string | AttrBool bool | AttrInt int | AttrFloat real

definition param_attr :: "string \<times> json \<Rightarrow> (string \<times> attr_value) list" where
  "param_attr kv =
     (case snd kv of
        JNum x \<Rightarrow> [(''params.'' @ fst kv, AttrFloat x)]
      | JBool b \<Rightarrow> [(''params.'' @ fst kv, AttrBool b)]
      | JStr s \<Rightarrow> [(''params.'' @ fst kv, AttrString s)]
      | JInt i \<Rightarrow> [(''params.'' @ fst kv, AttrInt i)]
      | _ \<Rightarrow> [])"

definition Journal_Log :: "string list \<Rightarrow> Entry \<Rightarrow> (string \<times> attr_value) list" where
  "Journal_Log ks e =
     [(''request_id'', AttrString (e_RequestID e)), (''virtual_model'', AttrString (e_VirtualModel e)),
      (''real_model'', AttrString (e_RealModel e)), (''backend'', AttrString (e_Backend e)),
      (''protocol'', AttrString (e_Protocol e)), (''streaming'', AttrBool (e_Streaming e)),
      (''message_count'', AttrInt (e_MessageCount e)), (''system_chars'', AttrInt (e_SystemChars e)),
      (''last_user_chars'', AttrInt (e_LastUserChars e)), (''total_chars'', AttrInt (e_TotalChars e)),
      (''est_tokens'', AttrInt (e_EstTokens e)), (''has_tools'', AttrBool (e_HasTools e)),
      (''has_tool_choice'', AttrBool (e_HasToolChoice e)), (''code_fences'', AttrInt (e_CodeFences e)),
      (''json_blocks'', AttrInt (e_JSONBlocks e)), (''is_multimodal'', AttrBool (e_IsMultimodal e)),
      (''system_text'', AttrString (e_SystemText e)), (''last_user_text'', AttrString (e_LastUserText e))] @
     concat (map param_attr (gm_range ks (e_Params e)))"

section \<open>Facts\<close>

lemma log_Content_hardened [simp]: "log_Content True level line = []"
  by (simp add: log_Content_def)

lemma log_Body_hardened [simp]: "log_Body True level line = []"
  by (simp add: log_Body_def)

lemma message_log_hardened [simp]: "message_log True level rid m = []"
  by (simp add: message_log_def Let_def split: json.split option.split)

lemma logMessageContent_hardened: "logMessageContent True level rid body = []"
proof -
  have "concat (map (message_log True level rid) ms) = []" for ms by (induction ms) simp_all
  then show ?thesis by (simp add: logMessageContent_def split: option.split)
qed

lemma logNonStreamingResponse_hardened: "logNonStreamingResponse u True level rid d ty = []"
  by (simp add: logNonStreamingResponse_def Let_def split: option.split)

section \<open>Properties\<close>

text \<open>
  What the hardened build logs. At every level the lines of a request are the same for any two
  bodies and messages, and the lines of a successful response, buffered or streamed, are the same
  for any two responses: neither appears in the log. The exception is the answer of a backend with
  another status, of which the first 1024 bytes are logged from level 1 on, in this build too.
\<close>

theorem hardened_log_content_free:
  "request_log show_params True level rid meth path ks h rawBody backend m rm params body =
     request_log show_params True level rid meth path ks h rawBody' backend m rm params body' \<and>
   answer_log unmarshal True level rid path m rm b ty dur 200 data =
     answer_log unmarshal' True level rid path m rm b ty dur 200 data' \<and>
   stream_log True level rid path m rm b dur captured = stream_log True level rid path m rm b dur captured' \<and>
   (status \<noteq> 200 \<and> 1 \<le> level \<longrightarrow>
      answer_log unmarshal True level rid path m rm b ty dur status data =
        [''[req] '' @ request_line rid path m rm b (Itoa status) dur,
         ''[req] ['' @ rid @ ''] upstream error body: '' @ take 1024 data])"
  by (auto simp: request_log_def incoming_log_def answer_log_def stream_log_def logMessageContent_hardened
      logNonStreamingResponse_hardened log_Request_def LevelRequest_def min_def split: option.split)

theorem hardened_log_content_free_witness:
  "answer_log (\<lambda>_. None) True 1 ''r'' ''/v1/messages'' ''m'' ''m'' ''b'' ''openai'' ''0.001'' 400 ''secret'' =
     [''[req] '' @ request_line ''r'' ''/v1/messages'' ''m'' ''m'' ''b'' (Itoa 400) ''0.001'',
      ''[req] [r] upstream error body: secret'']"
  using hardened_log_content_free [of _ 1 "''r''" _ "''/v1/messages''" _ _ _ _ "''m''" "''m''" _ _ _ _ "\<lambda>_. None" "''b''"
      "''openai''" "''0.001''" "''secret''" _ _ _ _ 400]
  by simp

end
