(* ===== verification/Probe_Client.thy ===== *)
theory Probe_Client
  imports Lb_Monitor
begin

text \<open>
  The HTTP client of the probes, \<open>internal/balancer/health.go\<close>. The transport is a parameter \<open>send\<close>:
  the answer to a GET of a URL within a timeout, which is an error or a status with a body that may
  fail to be read. \<open>url_parse\<close> and \<open>resolve\<close> stand for \<open>net/url\<close>. The cycles at the end put a request
  and the job step that consumes its result together.
\<close>

type_synonym transport = "string \<Rightarrow> duration \<Rightarrow> string + (int \<times> (string + string))"

datatype scrape_error = TransportError string | ScrapeError int | BodyError string

text \<open>The body of a probe is drained; a failure to read it is ignored.\<close>

definition hc_probe :: "transport \<Rightarrow> string \<Rightarrow> duration \<Rightarrow> string + int" where
  "hc_probe send targetURL timeout =
     (case send targetURL timeout of
        Inl e \<Rightarrow> Inl e
      | Inr (statusCode, _) \<Rightarrow> Inr statusCode)"

definition scrapeMetrics :: "transport \<Rightarrow> string \<Rightarrow> duration \<Rightarrow> scrape_error + string" where
  "scrapeMetrics send targetURL timeout =
     (case send targetURL timeout of
        Inl e \<Rightarrow> Inl (TransportError e)
      | Inr (statusCode, body) \<Rightarrow>
          (if statusCode \<noteq> 200 then Inl (ScrapeError statusCode)
           else case body of Inl e \<Rightarrow> Inl (BodyError e) | Inr bs \<Rightarrow> Inr bs))"

definition resolveProbeURL ::
  "(string \<Rightarrow> 'u option) \<Rightarrow> ('u \<Rightarrow> 'u \<Rightarrow> string) \<Rightarrow> string \<Rightarrow> string \<Rightarrow> string" where
  "resolveProbeURL url_parse resolve baseURL probePath =
     (case url_parse baseURL of
        None \<Rightarrow> baseURL @ probePath
      | Some base \<Rightarrow>
          (case url_parse probePath of
             None \<Rightarrow> baseURL @ probePath
           | Some ref \<Rightarrow> resolve base ref))"

text \<open>One scrape and one health probe with their requests.\<close>

definition scrape_cycle ::
  "(string \<Rightarrow> string \<Rightarrow> string) \<Rightarrow> transport \<Rightarrow> (string \<Rightarrow> real option) \<Rightarrow> time \<Rightarrow> string list \<Rightarrow> scrapeJob \<Rightarrow> Balancer \<Rightarrow>
     scrapeJob \<times> Balancer" where
  "scrape_cycle resolveURL send parseFloat now ks job bal =
     doScrape parseFloat now ks
       (case scrapeMetrics send (resolveURL (sj_url job) (sj_path job)) (sj_timeout job) of
          Inl _ \<Rightarrow> None | Inr body \<Rightarrow> Some body) job bal"

definition health_cycle ::
  "(string \<Rightarrow> string \<Rightarrow> string) \<Rightarrow> transport \<Rightarrow> time \<Rightarrow> string list \<Rightarrow> healthJob \<Rightarrow> Balancer \<Rightarrow> healthJob \<times> Balancer" where
  "health_cycle resolveURL send now ks job bal =
     health_probe now ks
       (case hc_probe send (resolveURL (hj_url job) (hj_path job)) (hj_timeout job) of
          Inl _ \<Rightarrow> None | Inr status \<Rightarrow> Some status) job bal"

lemma scrapeMetrics_iff:
  "scrapeMetrics send u t = Inr body \<longleftrightarrow> send u t = Inr (200, Inr body)"
  by (auto simp: scrapeMetrics_def split: sum.splits prod.splits if_splits)

text \<open>A cycle resets the failure count exactly when the backend answers 200 (with a readable body).\<close>

lemma cycle_failures:
  "sj_failures (fst (scrape_cycle r send pf now ks sj bal)) =
     (if \<exists>body. send (r (sj_url sj) (sj_path sj)) (sj_timeout sj) = Inr (200, Inr body) then 0 else sj_failures sj + 1)"
  "hj_failures (fst (health_cycle r send now ks hj bal)) =
     (if \<exists>body. send (r (hj_url hj) (hj_path hj)) (hj_timeout hj) = Inr (200, body) then 0 else hj_failures hj + 1)"
proof -
  let ?u = "r (sj_url sj) (sj_path sj)"
  have "scrapeMetrics send ?u (sj_timeout sj) = Inr body \<longleftrightarrow> send ?u (sj_timeout sj) = Inr (200, Inr body)" for body
    by (rule scrapeMetrics_iff)
  then show "sj_failures (fst (scrape_cycle r send pf now ks sj bal)) =
      (if \<exists>body. send ?u (sj_timeout sj) = Inr (200, Inr body) then 0 else sj_failures sj + 1)"
    by (cases "scrapeMetrics send ?u (sj_timeout sj)") (auto simp: scrape_cycle_def doScrape_def Let_def)
  show "hj_failures (fst (health_cycle r send now ks hj bal)) =
      (if \<exists>body. send (r (hj_url hj) (hj_path hj)) (hj_timeout hj) = Inr (200, body) then 0 else hj_failures hj + 1)"
    by (auto simp: health_cycle_def hc_probe_def health_probe_def Let_def split: sum.splits prod.splits)
qed

end
