(* ===== verification/Lb_Lifecycle.thy ===== *)
theory Lb_Lifecycle
  imports Lb_System
begin

text \<open>
  The life of the monitoring goroutines of one balancer (\<open>internal/balancer/balancer.go\<close>): they are
  launched by \<open>New\<close>, probe once, create their tickers, and leave when \<open>Stop\<close> has closed the channel
  \<open>done\<close>; \<open>Stop\<close> waits for all of them on the wait group. Two operations can panic, and a panic in a
  goroutine ends the process: \<open>time.NewTicker\<close> on an interval that is not positive, and closing a
  closed channel. \<open>lc_inv\<close> ties the wait group, the channel and the callers of \<open>Stop\<close> together.
\<close>

section \<open>Goroutines and callers of Stop\<close>

datatype goroutine = Starting job | Ticking job | Exited

text \<open>The intervals of the tickers that a goroutine creates after its first probe.\<close>

fun tickers :: "job \<Rightarrow> duration list" where
  "tickers (JScrape j) = [sj_interval j]"
| "tickers (JHealth j) = (if hj_metricsScrapeEnabled j then [hj_metricsInterval j] else []) @ [hj_interval j]"
| "tickers (JAlive j) = [aj_interval j]"
| "tickers (JPassive i cooldown ramp) = [cooldown]"

definition tickers_ok :: "job \<Rightarrow> bool" where
  "tickers_ok j = list_all (\<lambda>d. 0 < d) (tickers j)"

datatype stopper = SClosing | SWaiting | SReturned

record lifecycle =
  lc_bal :: Balancer
  lc_reqs :: "request list"
  lc_routines :: "goroutine list"
  lc_wg :: int
  lc_stops :: "stopper list"
  lc_panic :: bool

text \<open>
  What the requests see of it, for the steps of \<open>lb_step\<close>: the jobs are scheduled here.
\<close>

definition lc_view :: "lifecycle \<Rightarrow> lb_world" where
  "lc_view w = \<lparr>w_bal = lc_bal w, w_jobs = [], w_reqs = lc_reqs w\<rparr>"

text \<open>
  \<open>switches\<close> is the health goroutine that hands over to a scrape goroutine: \<open>Add(1)\<close>, \<open>go\<close>, then its own
  \<open>Done\<close>. \<open>serves\<close> is any call of a request, which leaves the channel alone. A goroutine looks at the
  channel only between two ticks. After a panic nothing happens any more.
\<close>

inductive lc_step :: "(string \<Rightarrow> real option) \<Rightarrow> lifecycle \<Rightarrow> lifecycle \<Rightarrow> bool" for pf w where
  starts: "\<not> lc_panic w \<Longrightarrow> n < length (lc_routines w) \<Longrightarrow> lc_routines w ! n = Starting j \<Longrightarrow>
     job_step pf (lc_bal w) (False, j) (True, j') bal' \<Longrightarrow> tickers_ok j' \<Longrightarrow>
     lc_step pf w (w\<lparr>lc_bal := bal', lc_routines := (lc_routines w)[n := Ticking j']\<rparr>)"
| ticker_panics: "\<not> lc_panic w \<Longrightarrow> n < length (lc_routines w) \<Longrightarrow> lc_routines w ! n = Starting j \<Longrightarrow>
     job_step pf (lc_bal w) (False, j) (True, j') bal' \<Longrightarrow> \<not> tickers_ok j' \<Longrightarrow>
     lc_step pf w (w\<lparr>lc_bal := bal', lc_panic := True\<rparr>)"
| ticks: "\<not> lc_panic w \<Longrightarrow> n < length (lc_routines w) \<Longrightarrow> lc_routines w ! n = Ticking j \<Longrightarrow>
     job_step pf (lc_bal w) (True, j) (True, j') bal' \<Longrightarrow>
     lc_step pf w (w\<lparr>lc_bal := bal', lc_routines := (lc_routines w)[n := Ticking j']\<rparr>)"
| switches: "\<not> lc_panic w \<Longrightarrow> n < length (lc_routines w) \<Longrightarrow> lc_routines w ! n = Ticking j \<Longrightarrow>
     job_step pf (lc_bal w) (True, j) (False, j') bal' \<Longrightarrow>
     lc_step pf w (w\<lparr>lc_bal := bal', lc_routines := (lc_routines w)[n := Exited] @ [Starting j'],
       lc_wg := lc_wg w + 1 - 1\<rparr>)"
| exits: "\<not> lc_panic w \<Longrightarrow> n < length (lc_routines w) \<Longrightarrow> lc_routines w ! n = Ticking j \<Longrightarrow> bal_done (lc_bal w) \<Longrightarrow>
     lc_step pf w (w\<lparr>lc_routines := (lc_routines w)[n := Exited], lc_wg := lc_wg w - 1\<rparr>)"
| calls_stop: "\<not> lc_panic w \<Longrightarrow> lc_step pf w (w\<lparr>lc_stops := lc_stops w @ [SClosing]\<rparr>)"
| closes: "\<not> lc_panic w \<Longrightarrow> k < length (lc_stops w) \<Longrightarrow> lc_stops w ! k = SClosing \<Longrightarrow> \<not> bal_done (lc_bal w) \<Longrightarrow>
     lc_step pf w (w\<lparr>lc_bal := (lc_bal w)\<lparr>bal_done := True\<rparr>, lc_stops := (lc_stops w)[k := SWaiting]\<rparr>)"
| close_panics: "\<not> lc_panic w \<Longrightarrow> k < length (lc_stops w) \<Longrightarrow> lc_stops w ! k = SClosing \<Longrightarrow> bal_done (lc_bal w) \<Longrightarrow>
     lc_step pf w (w\<lparr>lc_panic := True\<rparr>)"
| stop_returns: "\<not> lc_panic w \<Longrightarrow> k < length (lc_stops w) \<Longrightarrow> lc_stops w ! k = SWaiting \<Longrightarrow> lc_wg w = 0 \<Longrightarrow>
     lc_step pf w (w\<lparr>lc_stops := (lc_stops w)[k := SReturned]\<rparr>)"
| serves: "\<not> lc_panic w \<Longrightarrow> lb_step pf (lc_view w) v \<Longrightarrow> bal_done (w_bal v) = bal_done (lc_bal w) \<Longrightarrow>
     lc_step pf w (w\<lparr>lc_bal := w_bal v, lc_reqs := w_reqs v\<rparr>)"

definition lc_launch :: "Balancer \<Rightarrow> job list \<Rightarrow> lifecycle" where
  "lc_launch bal jobs =
     \<lparr>lc_bal = bal, lc_reqs = [], lc_routines = map Starting jobs, lc_wg = int (length jobs), lc_stops = [], lc_panic = False\<rparr>"

definition lc_start :: "Config \<Rightarrow> (nat \<Rightarrow> string list) \<Rightarrow> (string \<Rightarrow> duration \<Rightarrow> string option) \<Rightarrow> lifecycle" where
  "lc_start cfg ords scrape = lc_launch (balancer_New cfg) (startMonitoring ords scrape cfg)"

section \<open>Steps of one job\<close>

lemma done_on_all [simp]: "bal_done (on_all i f bal) = bal_done bal"
  by (simp add: on_all_def)

lemma done_upd_group [simp]: "bal_done (upd_group g f bal) = bal_done bal"
  by (simp add: upd_group_def)

lemma done_markUnhealthy [simp]: "bal_done (markUnhealthy now ks i n bal) = bal_done bal"
  by (induction ks arbitrary: bal) (simp_all split: option.split)

lemma done_marks [simp]:
  "bal_done (markHealthy now i was ramp bal) = bal_done bal"
  "bal_done (updateMetrics now i a r w k bal) = bal_done bal"
  "bal_done (Lb_Monitor.passive_tick now i c r bal) = bal_done bal"
  by (simp_all add: markHealthy_def updateMetrics_def passive_tick_def Let_def)

named_theorems probe_defs \<open>what the goroutines do between two looks at the channel\<close>

declare alive_check_def [probe_defs] alive_tick_def [probe_defs] doScrape_def [probe_defs] scrape_tick_def [probe_defs]
  health_probe_def [probe_defs] health_start_def [probe_defs] health_tick_def [probe_defs] metrics_tick_def [probe_defs]

lemma job_step_done: "job_step pf bal j j' bal' \<Longrightarrow> bal_done bal' = bal_done bal"
  by (induction rule: job_step.induct) (auto simp: probe_defs Let_def split: if_splits option.splits)

text \<open>Only the change of a health goroutine to a scrape goroutine makes new tickers, every five seconds.\<close>

lemma job_step_tickers:
  assumes "job_step pf bal (f, j) (f', j') bal'"
  shows "f' \<Longrightarrow> tickers j' = tickers j" and "\<not> f' \<Longrightarrow> tickers_ok j'"
  using assms
  by (auto elim!: job_step.cases simp: probe_defs Let_def tickers_ok_def seconds_eq split: if_splits option.splits)

lemma job_starts:
  assumes "gm_wf (bal_groups bal)"
  shows "\<exists>j' bal'. job_step pf bal (False, j) (True, j') bal'"
proof -
  have ks: "range_order (gm_keys (bal_groups bal)) (bal_groups bal)" using assms by (simp add: range_order_def gm_wf_def)
  show ?thesis
  proof (cases j)
    case (JScrape s)
    then show ?thesis using job_step.scrape_start [OF ks] by (metis surj_pair)
  next
    case (JHealth h)
    then show ?thesis using job_step.health_start [OF ks] by (metis surj_pair)
  next
    case (JAlive a)
    then show ?thesis using job_step.alive_start [OF ks] by (metis surj_pair)
  next
    case (JPassive i c r)
    then show ?thesis using job_step.passive_start by blast
  qed
qed

section \<open>The invariant\<close>

fun live :: "goroutine \<Rightarrow> bool" where
  "live Exited = False"
| "live _ = True"

fun routine_ok :: "goroutine \<Rightarrow> bool" where
  "routine_ok (Starting j) = tickers_ok j"
| "routine_ok _ = True"

definition lc_inv :: "lifecycle \<Rightarrow> bool" where
  "lc_inv w \<longleftrightarrow>
     lb_inv (lc_view w) \<and>
     lc_wg w = int (length (filter live (lc_routines w))) \<and>
     length (filter (\<lambda>s. s \<noteq> SClosing) (lc_stops w)) = (if bal_done (lc_bal w) then 1 else 0) \<and>
     (SReturned \<in> set (lc_stops w) \<longrightarrow> filter live (lc_routines w) = [])"

lemma live_update:
  assumes "n < length rs" and "live (rs ! n)"
  shows "int (length (filter live (rs[n := Exited]))) = int (length (filter live rs)) - 1"
    and "live g \<Longrightarrow> length (filter live (rs[n := g])) = length (filter live rs)"
    and "filter live rs \<noteq> []"
proof -
  show "int (length (filter live (rs[n := Exited]))) = int (length (filter live rs)) - 1"
    using assms by (simp add: length_filter_update)
  show "length (filter live (rs[n := g])) = length (filter live rs)" if "live g"
    using length_filter_update [OF assms(1), of live g] assms(2) that by simp
  show "filter live rs \<noteq> []" using assms nth_mem by (auto simp: filter_empty_conv)
qed

lemma lb_inv_done:
  assumes "lb_inv v"
  shows "lb_inv (v\<lparr>w_bal := (w_bal v)\<lparr>bal_done := True\<rparr>\<rparr>)"
  using lb_step_inv [OF lb_step.stop assms] .

lemma lc_view_job_inv:
  assumes "lb_inv (lc_view w)" and "job_step pf (lc_bal w) j j' bal'"
  shows "lb_inv \<lparr>w_bal = bal', w_jobs = [], w_reqs = lc_reqs w\<rparr>"
  using lb_inv_same_bal(1) [OF assms(1)] frames_job_step [OF assms(2)] by (simp add: lc_view_def)

lemma lc_step_inv:
  assumes "lc_step pf w w'" and inv: "lc_inv w"
  shows "lc_inv w'"
  using assms(1)
proof cases
  case (starts n j j' bal')
  then show ?thesis
    using inv lc_view_job_inv live_update(2,3) [of n "lc_routines w"] job_step_done
    by (auto simp: lc_inv_def lc_view_def)
next
  case (ticker_panics n j j' bal')
  then show ?thesis using inv lc_view_job_inv job_step_done by (auto simp: lc_inv_def lc_view_def)
next
  case (ticks n j j' bal')
  then show ?thesis
    using inv lc_view_job_inv live_update(2,3) [of n "lc_routines w"] job_step_done
    by (auto simp: lc_inv_def lc_view_def)
next
  case (switches n j j' bal')
  then show ?thesis
    using inv lc_view_job_inv live_update(1,3) [of n "lc_routines w"] job_step_done
    by (auto simp: lc_inv_def lc_view_def)
next
  case (exits n j)
  then show ?thesis using inv live_update(1,3) [of n "lc_routines w"] by (auto simp: lc_inv_def lc_view_def)
next
  case calls_stop
  then show ?thesis using inv by (simp add: lc_inv_def lc_view_def)
next
  case (closes k)
  then show ?thesis
    using inv lb_inv_done [of "lc_view w"] length_filter_update [of k "lc_stops w" "\<lambda>s. s \<noteq> SClosing" SWaiting]
    by (auto simp: lc_inv_def lc_view_def dest!: set_update_subset_insert [THEN subsetD])
next
  case (close_panics k)
  then show ?thesis using inv by (simp add: lc_inv_def lc_view_def)
next
  case (stop_returns k)
  then show ?thesis
    using inv length_filter_update [of k "lc_stops w" "\<lambda>s. s \<noteq> SClosing" SReturned] by (auto simp: lc_inv_def lc_view_def)
next
  case (serves v)
  then have "lb_inv v" using inv lb_step_inv by (auto simp: lc_inv_def)
  moreover have "lc_view w' = v\<lparr>w_jobs := []\<rparr>" unfolding serves(1) lc_view_def by simp
  ultimately show ?thesis using inv serves lb_inv_same_bal(3) [of v "w_bal v"] by (auto simp: lc_inv_def)
qed

lemma lc_start_inv:
  assumes "gm_wf (cfg_Groups cfg)" and "distinct (map be_ID (cfg_Backends cfg))"
  shows "lc_inv (lc_start cfg ords scrape)"
proof -
  have "lb_inv ((lb_init cfg ords scrape)\<lparr>w_jobs := []\<rparr>)"
    using lb_inv_same_bal(3) [OF lb_init_inv [OF assms]] frames_refl by blast
  then show ?thesis
    by (simp add: lc_inv_def lc_start_def lc_launch_def lc_view_def lb_init_def balancer_New_def filter_map comp_def)
qed

lemma lc_reachable_inv:
  assumes "(lc_step pf)\<^sup>*\<^sup>* w w'" and "lc_inv w"
  shows "lc_inv w'"
  using assms by (induction rule: rtranclp_induct) (auto intro: lc_step_inv)

section \<open>Stop\<close>

text \<open>Nothing revives a goroutine.\<close>

lemma lc_step_quiet: "lc_step pf w w' \<Longrightarrow> filter live (lc_routines w) = [] \<Longrightarrow> lc_routines w' = lc_routines w"
  using live_update(3) by (auto elim!: lc_step.cases)

lemma lc_reachable_quiet:
  assumes "(lc_step pf)\<^sup>*\<^sup>* w w'" and "filter live (lc_routines w) = []"
  shows "lc_routines w' = lc_routines w"
  using assms(1) by (induction rule: rtranclp_induct) (use assms(2) lc_step_quiet in \<open>fastforce+\<close>)

text \<open>No ticker of a goroutine that has still to start can panic.\<close>

definition lc_safe :: "lifecycle \<Rightarrow> bool" where
  "lc_safe w \<longleftrightarrow> list_all routine_ok (lc_routines w)"

lemma tickers_ok_cong: "tickers j = tickers j' \<Longrightarrow> tickers_ok j = tickers_ok j'"
  by (simp add: tickers_ok_def)

lemma lc_step_safe: "lc_step pf w w' \<Longrightarrow> lc_safe w \<Longrightarrow> lc_safe w'"
  by (induction rule: lc_step.induct)
    (auto simp: lc_safe_def list_all_iff dest!: set_update_subset_insert [THEN subsetD] dest: job_step_tickers(2))

lemma lc_reachable_safe:
  assumes "(lc_step pf)\<^sup>*\<^sup>* w w'" and "lc_safe w"
  shows "lc_safe w'"
  using assms by (induction rule: rtranclp_induct) (auto intro: lc_step_safe)

text \<open>A live goroutine of a stopped balancer can leave, in at most two steps.\<close>

lemma leaves:
  assumes "\<not> lc_panic w" and "lc_safe w" and "lc_inv w" and "bal_done (lc_bal w)" and n: "n < length (lc_routines w)"
    and "live (lc_routines w ! n)"
  shows "\<exists>w' m. (lc_step pf ^^ m) w w' \<and> m \<le> 2 \<and> \<not> lc_panic w' \<and> bal_done (lc_bal w') \<and>
    lc_routines w' = (lc_routines w)[n := Exited] \<and> lc_stops w' = lc_stops w"
proof (cases "lc_routines w ! n")
  case (Ticking j)
  let ?w1 = "w\<lparr>lc_routines := (lc_routines w)[n := Exited], lc_wg := lc_wg w - 1\<rparr>"
  from Ticking assms have "lc_step pf w ?w1" by (intro lc_step.exits)
  then have "(lc_step pf ^^ 1) w ?w1" by (simp only: relpowp_1)
  then show ?thesis using assms(1,4) by (intro exI [of _ ?w1] exI [of _ 1]) simp
next
  case (Starting j)
  have "gm_wf (bal_groups (lc_bal w))" using assms(3) by (simp add: lc_inv_def lb_inv_def bal_wf_def lc_view_def)
  then obtain j' bal' where js: "job_step pf (lc_bal w) (False, j) (True, j') bal'" using job_starts by blast
  have "tickers_ok j" using assms(2) n Starting by (metis lc_safe_def list_all_length routine_ok.simps(1))
  with js have ok: "tickers_ok j'" using job_step_tickers(1) tickers_ok_cong by blast
  let ?w1 = "w\<lparr>lc_bal := bal', lc_routines := (lc_routines w)[n := Ticking j']\<rparr>"
  let ?w2 = "?w1\<lparr>lc_routines := (lc_routines ?w1)[n := Exited], lc_wg := lc_wg ?w1 - 1\<rparr>"
  have done1: "bal_done (lc_bal ?w1)" using job_step_done [OF js] assms(4) by simp
  have "lc_step pf w ?w1" by (rule lc_step.starts [OF assms(1) n Starting js ok])
  moreover have "lc_step pf ?w1 ?w2" by (rule lc_step.exits) (use assms(1) n done1 in simp_all)
  ultimately have "(lc_step pf ^^ 2) w ?w2" by (auto simp: numeral_2_eq_2)
  then show ?thesis using assms(1) done1 by (intro exI [of _ ?w2] exI [of _ 2]) simp
next
  case Exited
  with assms show ?thesis by simp
qed

lemma relpowp_trans: "(R ^^ m) a b \<Longrightarrow> (R ^^ n) b c \<Longrightarrow> (R ^^ (m + n)) a c"
  by (auto simp: relpowp_add)

lemma all_leave:
  assumes "\<not> lc_panic w" and "lc_safe w" and "lc_inv w" and "bal_done (lc_bal w)"
  shows "\<exists>w' m. (lc_step pf ^^ m) w w' \<and> m \<le> 2 * length (filter live (lc_routines w)) \<and> \<not> lc_panic w' \<and>
    filter live (lc_routines w') = [] \<and> lc_stops w' = lc_stops w"
  using assms
proof (induction "length (filter live (lc_routines w))" arbitrary: w)
  case 0
  then show ?case by (intro exI [of _ w] exI [of _ 0]) simp
next
  case (Suc k)
  have "filter live (lc_routines w) \<noteq> []" using Suc.hyps(2) by auto
  then obtain n where n: "n < length (lc_routines w)" "live (lc_routines w ! n)"
    by (auto simp: filter_empty_conv in_set_conv_nth)
  obtain w1 m1 where w1: "(lc_step pf ^^ m1) w w1" "m1 \<le> 2" "\<not> lc_panic w1" "bal_done (lc_bal w1)"
    "lc_routines w1 = (lc_routines w)[n := Exited]" "lc_stops w1 = lc_stops w"
    using leaves [OF Suc.prems n] by blast
  note reach = relpowp_imp_rtranclp [OF w1(1)]
  have len: "k = length (filter live (lc_routines w1))" using live_update(1) [OF n] Suc.hyps(2) w1(5) by simp
  obtain w2 m2 where w2: "(lc_step pf ^^ m2) w1 w2" "m2 \<le> 2 * k" "\<not> lc_panic w2"
    "filter live (lc_routines w2) = []" "lc_stops w2 = lc_stops w1"
    using Suc.hyps(1) [OF len w1(3) lc_reachable_safe [OF reach Suc.prems(2)] lc_reachable_inv [OF reach Suc.prems(3)] w1(4)]
      len by auto
  have "(lc_step pf ^^ (m1 + m2)) w w2" using w1(1) w2(1) by (rule relpowp_trans)
  moreover have "m1 + m2 \<le> 2 * length (filter live (lc_routines w))" using w1(2) w2(2) Suc.hyps(2) by simp
  ultimately show ?case using w2(3-5) w1(6) by metis
qed

lemma waiting_stop:
  assumes "lc_inv w" and "bal_done (lc_bal w)"
  shows "\<exists>k<length (lc_stops w). lc_stops w ! k \<noteq> SClosing"
proof -
  have "filter (\<lambda>s. s \<noteq> SClosing) (lc_stops w) \<noteq> []" using assms by (auto simp: lc_inv_def)
  then show ?thesis by (auto simp: filter_empty_conv in_set_conv_nth)
qed

lemma stop_can_return:
  assumes "\<not> lc_panic w" and "lc_safe w" and "lc_inv w" and "bal_done (lc_bal w)"
  shows "\<exists>w' m. (lc_step pf ^^ m) w w' \<and> m \<le> 2 * length (filter live (lc_routines w)) + 1 \<and>
    SReturned \<in> set (lc_stops w')"
proof -
  obtain w1 m where w1: "(lc_step pf ^^ m) w w1" "m \<le> 2 * length (filter live (lc_routines w))" "\<not> lc_panic w1"
    "filter live (lc_routines w1) = []" "lc_stops w1 = lc_stops w"
    using all_leave [OF assms] by blast
  obtain k where k: "k < length (lc_stops w)" "lc_stops w ! k \<noteq> SClosing" using waiting_stop [OF assms(3,4)] by blast
  have "lc_wg w1 = 0"
    using lc_reachable_inv [OF relpowp_imp_rtranclp [OF w1(1)] assms(3)] w1(4) by (simp add: lc_inv_def)
  show ?thesis
  proof (cases "lc_stops w ! k = SReturned")
    case True
    then have "SReturned \<in> set (lc_stops w)" using k(1) by (metis nth_mem)
    then show ?thesis by (intro exI [of _ w] exI [of _ 0]) simp
  next
    case False
    with k have "lc_stops w ! k = SWaiting" by (cases "lc_stops w ! k") auto
    then have "lc_step pf w1 (w1\<lparr>lc_stops := (lc_stops w1)[k := SReturned]\<rparr>)"
      using w1(3,5) k \<open>lc_wg w1 = 0\<close> by (intro lc_step.stop_returns) simp_all
    with w1(1) have "(lc_step pf ^^ Suc m) w (w1\<lparr>lc_stops := (lc_stops w1)[k := SReturned]\<rparr>)" by auto
    then show ?thesis
      using w1(2,5) k(1) by (intro exI [of _ "w1\<lparr>lc_stops := (lc_stops w1)[k := SReturned]\<rparr>"] exI [of _ "Suc m"])
        (auto simp: set_update_memI)
  qed
qed

text \<open>Without a panic of a ticker the only panic is a second close.\<close>

lemma lc_step_one_stop:
  assumes "lc_step pf w w'" and "lc_safe w" and "lc_inv w" and "\<not> lc_panic w" and "length (lc_stops w') \<le> 1"
  shows "\<not> lc_panic w'"
  using assms(1)
proof cases
  case (ticker_panics n j j' bal')
  have "tickers_ok j" using assms(2) ticker_panics by (metis lc_safe_def list_all_length routine_ok.simps(1))
  with ticker_panics show ?thesis using job_step_tickers(1) tickers_ok_cong by blast
next
  case (close_panics k)
  then have "lc_stops w = [SClosing]" using assms(5) by (cases "lc_stops w") auto
  with close_panics assms(3) show ?thesis by (simp add: lc_inv_def)
qed (use assms(4) in simp_all)

lemma lc_step_stops_grow: "lc_step pf w w' \<Longrightarrow> length (lc_stops w) \<le> length (lc_stops w')"
  by (auto elim: lc_step.cases)

lemma one_stop_no_panic:
  assumes "(lc_step pf)\<^sup>*\<^sup>* w w'" and "lc_safe w" and "lc_inv w" and "\<not> lc_panic w" and "length (lc_stops w') \<le> 1"
  shows "\<not> lc_panic w'"
  using assms(1,5)
proof (induction rule: rtranclp_induct)
  case base
  then show ?case using assms(4) by simp
next
  case (step w1 w2)
  then have "\<not> lc_panic w1" using lc_step_stops_grow by fastforce
  then show ?case
    using lc_step_one_stop step lc_reachable_safe [OF step(1) assms(2)] lc_reachable_inv [OF step(1) assms(3)] by blast
qed

text \<open>A caller of \<open>Stop\<close> that comes second never gets past the close.\<close>

lemma second_stop_stuck:
  assumes "(lc_step pf)\<^sup>*\<^sup>* w w'" and "bal_done (lc_bal w)" and "k < length (lc_stops w)" and "lc_stops w ! k = SClosing"
  shows "bal_done (lc_bal w') \<and> k < length (lc_stops w') \<and> lc_stops w' ! k = SClosing"
  using assms(1)
proof (induction rule: rtranclp_induct)
  case base
  then show ?case using assms by simp
next
  case (step w1 w2)
  from step(2,3) show ?case
    by (cases rule: lc_step.cases) (auto simp: job_step_done nth_list_update nth_append)
qed

section \<open>Which configurations have positive tickers\<close>

text \<open>
  The getters of the configuration replace what is not positive by a default, but
  \<open>health_check.interval_seconds\<close> is read directly, and only a zero is replaced. The upper bound is where
  a duration in nanoseconds overflows, after 292 years.
\<close>

definition max_seconds :: int where
  "max_seconds = 9223372036"

definition group_intervals_ok :: "Config \<Rightarrow> GroupConfig \<Rightarrow> bool" where
  "group_intervals_ok cfg g \<longleftrightarrow>
     0 \<le> hc_IntervalSeconds (grp_HealthCheck g) \<and> hc_IntervalSeconds (grp_HealthCheck g) \<le> max_seconds \<and>
     GetScrapeInterval g \<le> max_seconds \<and> al_IntervalSeconds (GetAliveConfig cfg g) \<le> max_seconds \<and>
     mc_RetryIntervalSec (GetMetricsConfig cfg (Some g)) \<le> max_seconds \<and>
     rc_RetryDelaySec (GetRecovery cfg (Some g)) \<le> max_seconds"

definition intervals_ok :: "Config \<Rightarrow> bool" where
  "intervals_ok cfg \<longleftrightarrow> list_all (\<lambda>(_, g). group_intervals_ok cfg g) (cfg_Groups cfg)"

lemma pos_or_pos: "0 < d \<Longrightarrow> 0 < pos_or x d"
  by (simp add: pos_or_def)

lemma getters_positive:
  "0 < GetScrapeInterval g" "0 < al_IntervalSeconds (GetAliveConfig cfg g)"
  "0 < mc_RetryIntervalSec (GetMetricsConfig cfg (Some g))" "0 < rc_RetryDelaySec (GetRecovery cfg (Some g))"
  by (simp_all add: GetScrapeInterval_def GetAliveConfig_def GetMetricsConfig_def GetRecovery_def pos_or_pos
      metrics_override_def recovery_override_def Let_def split: option.split)

lemma seconds_pos: "0 < n \<Longrightarrow> n \<le> max_seconds \<Longrightarrow> 0 < seconds n"
  by (simp add: max_seconds_def seconds_eq)

text \<open>The groups of a backend are groups of the configuration, at least one.\<close>

lemma backend_infos_groups:
  assumes "(i, u, gs) \<in> set (backend_infos ks cfg)"
  shows "gs \<noteq> [] \<and> set gs \<subseteq> snd ` set (cfg_Groups cfg)"
proof -
  let ?ok = "\<lambda>m :: (string, string \<times> GroupConfig list) gomap.
    \<forall>i u gs. gm_get m i = Some (u, gs) \<longrightarrow> gs \<noteq> [] \<and> set gs \<subseteq> snd ` set (cfg_Groups cfg)"
  let ?add = "\<lambda>g be m. case gm_get m (be_ID be) of None \<Rightarrow> gm_set (be_ID be) (be_BaseURL be, [g]) m
     | Some (u, gs) \<Rightarrow> gm_set (be_ID be) (u, gs @ [g]) m"
  have add: "?ok (?add g be m) \<and> gm_wf (?add g be m)" if "?ok m \<and> gm_wf m" "g \<in> snd ` set (cfg_Groups cfg)" for g be m
    using that by (auto simp: gm_get_set split: option.split)
  have adds: "?ok (fold (?add g) bs m) \<and> gm_wf (fold (?add g) bs m)"
    if "?ok m \<and> gm_wf m" and g: "g \<in> snd ` set (cfg_Groups cfg)" for g bs m
    using that(1)
  proof (induction bs arbitrary: m)
    case (Cons be bs)
    from add [OF Cons.prems g] show ?case unfolding fold_simps by (rule Cons.IH)
  qed simp
  have all: "?ok (fold (\<lambda>(name, g). fold (?add g) (GroupBackends cfg name)) ps m) \<and>
      gm_wf (fold (\<lambda>(name, g). fold (?add g) (GroupBackends cfg name)) ps m)"
    if "?ok m \<and> gm_wf m" "set ps \<subseteq> set (cfg_Groups cfg)" for ps m
    using that
  proof (induction ps arbitrary: m)
    case (Cons p ps)
    obtain name g where p: "p = (name, g)" by fastforce
    then have "g \<in> snd ` set (cfg_Groups cfg)" using Cons.prems(2) by force
    from adds [OF Cons.prems(1) this] Cons.prems(2) show ?case
      unfolding p fold_simps split_conv by (intro Cons.IH) simp_all
  qed simp
  have "set (gm_range ks (cfg_Groups cfg)) \<subseteq> set (cfg_Groups cfg)" by (auto simp: gm_range_mem dest: map_of_SomeD)
  from all [OF _ this, of "[]"] show ?thesis
    using assms unfolding backend_infos_def by (auto simp: gm_get_iff)
qed

lemma info_intervals:
  assumes "intervals_ok cfg" and "(i, u, gs) \<in> set (backend_infos ks cfg)"
  shows "group_intervals_ok cfg (gs ! 0)" and "find P gs = Some g \<Longrightarrow> group_intervals_ok cfg g"
proof -
  have all: "group_intervals_ok cfg g" if "g \<in> set gs" for g
    using backend_infos_groups [OF assms(2)] assms(1) that by (fastforce simp: intervals_ok_def list_all_iff)
  show "group_intervals_ok cfg (gs ! 0)" using backend_infos_groups [OF assms(2)] by (intro all) simp
  show "group_intervals_ok cfg g" if "find P gs = Some g" using that by (intro all) (metis find_Some_iff nth_mem)
qed

definition interval_or :: "int \<Rightarrow> int \<Rightarrow> duration" where
  "interval_or n d = (if seconds n = 0 then seconds d else seconds n)"

lemma interval_or_pos: "0 \<le> n \<Longrightarrow> n \<le> max_seconds \<Longrightarrow> 0 < d \<Longrightarrow> d \<le> max_seconds \<Longrightarrow> 0 < interval_or n d"
  by (auto simp: interval_or_def seconds_eq max_seconds_def)

lemma monitor_job_intervals:
  assumes "monitor_job cfg scrape (i, u, gs) = Some j"
  shows "case j of
      Inl s \<Rightarrow> \<exists>sc. find ScrapeEnabled gs = Some sc \<and> sj_interval s = interval_or (GetScrapeInterval sc) 5
    | Inr h \<Rightarrow> hj_interval h = interval_or (hc_IntervalSeconds (grp_HealthCheck (gs ! 0))) 10 \<and>
        (hj_metricsScrapeEnabled h \<longrightarrow> (\<exists>sc. find ScrapeEnabled gs = Some sc \<and>
           hj_metricsInterval h = interval_or (mc_RetryIntervalSec (GetMetricsConfig cfg (Some sc))) 120))"
proof (cases "find ScrapeEnabled gs")
  case None
  with assms show ?thesis
    by (cases "hc_Enabled (grp_HealthCheck (gs ! 0)) = ''false''")
      (auto simp: monitor_job_def Let_def interval_or_def split del: if_split)
next
  case (Some sc)
  with assms show ?thesis
    by (cases "hc_Enabled (grp_HealthCheck (gs ! 0)) = ''false''"; cases "scrape (u @ GetScrapePath sc) (seconds 3)";
        cases "scrape (u @ GetScrapePath sc) (seconds 3) = Some []")
      (auto simp: monitor_job_def Let_def interval_or_def split del: if_split)
qed

lemma monitor_job_tickers:
  assumes "intervals_ok cfg" and "info \<in> set (backend_infos ks cfg)" and "monitor_job cfg scrape info = Some j"
  shows "tickers_ok (case_sum JScrape JHealth j)"
proof -
  obtain i u gs where info: "info = (i, u, gs)" using prod_cases3 by blast
  note ok = info_intervals [OF assms(1) assms(2) [unfolded info]]
  have pos: "0 < interval_or (hc_IntervalSeconds (grp_HealthCheck (gs ! 0))) 10"
    "find ScrapeEnabled gs = Some sc \<Longrightarrow> 0 < interval_or (GetScrapeInterval sc) 5"
    "find ScrapeEnabled gs = Some sc \<Longrightarrow> 0 < interval_or (mc_RetryIntervalSec (GetMetricsConfig cfg (Some sc))) 120" for sc
    using ok(1) ok(2) [of ScrapeEnabled sc] getters_positive(1) [of sc] getters_positive(3) [of cfg sc]
    by (auto intro!: interval_or_pos simp: group_intervals_ok_def, simp_all add: max_seconds_def)
  show ?thesis
    using monitor_job_intervals [OF assms(3) [unfolded info]] pos by (cases j) (auto simp: tickers_ok_def)
qed

lemma alive_job_tickers:
  assumes "intervals_ok cfg" and "info \<in> set (backend_infos ks cfg)" and "alive_job cfg info = Some j"
  shows "tickers_ok (JAlive j)"
proof -
  obtain i u gs where info: "info = (i, u, gs)" using prod_cases3 by blast
  have "0 < seconds (al_IntervalSeconds (GetAliveConfig cfg (gs ! 0)))"
    using info_intervals(1) [OF assms(1) assms(2) [unfolded info]]
    by (intro seconds_pos getters_positive) (simp add: group_intervals_ok_def)
  then show ?thesis using assms(3) by (auto simp: info alive_job_def Let_def tickers_ok_def split: if_splits)
qed

lemma passive_job_tickers:
  assumes "intervals_ok cfg" and "info \<in> set (backend_infos ks cfg)" and "passive_job cfg info = Some (i, c, r)"
  shows "tickers_ok (JPassive i c r)"
proof -
  obtain i' u gs where info: "info = (i', u, gs)" using prod_cases3 by blast
  show ?thesis
    using assms(3) info_intervals(1) [OF assms(1) assms(2) [unfolded info]] seconds_pos [OF getters_positive(4)]
      getters_positive(4) [of cfg "gs ! 0"]
    by (auto simp: info passive_job_def Let_def tickers_ok_def group_intervals_ok_def split: if_splits)
qed

lemma startMonitoring_tickers:
  assumes "intervals_ok cfg"
  shows "list_all tickers_ok (startMonitoring ords scrape cfg)"
  using monitor_job_tickers [OF assms] alive_job_tickers [OF assms] passive_job_tickers [OF assms]
  by (auto simp: startMonitoring_def list_all_iff List.map_filter_def)

lemma lc_start_safe: "lc_safe (lc_start cfg ords scrape) \<longleftrightarrow> list_all tickers_ok (startMonitoring ords scrape cfg)"
  by (simp add: lc_safe_def lc_start_def lc_launch_def list_all_iff)

section \<open>Properties\<close>

lemmas lc_start_defs = lc_start_def lc_launch_def balancer_New_def

lemma lc_reach_inv:
  assumes "(lc_step pf)\<^sup>*\<^sup>* (lc_start cfg ords scrape) w"
    and "gm_wf (cfg_Groups cfg)" and "distinct (map be_ID (cfg_Backends cfg))"
  shows "lc_inv w"
  using lc_reachable_inv [OF assms(1) lc_start_inv [OF assms(2,3)]] .

lemma lc_reach_safe:
  assumes "(lc_step pf)\<^sup>*\<^sup>* (lc_start cfg ords scrape) w" and "intervals_ok cfg"
  shows "lc_safe w"
  using lc_reachable_safe [OF assms(1)] startMonitoring_tickers [OF assms(2)] by (simp add: lc_start_safe)

text \<open>A first call of \<open>Stop\<close> that has closed the channel.\<close>

lemma lc_first_close:
  fixes cfg ords scrape
  defines "w \<equiv> lc_start cfg ords scrape"
  shows "(lc_step pf)\<^sup>*\<^sup>* w (w\<lparr>lc_bal := (lc_bal w)\<lparr>bal_done := True\<rparr>, lc_stops := [SWaiting]\<rparr>)"
proof -
  let ?w1 = "w\<lparr>lc_stops := lc_stops w @ [SClosing]\<rparr>"
  have "lc_step pf w ?w1" by (rule lc_step.calls_stop) (simp add: w_def lc_start_defs)
  moreover have "lc_step pf ?w1 (?w1\<lparr>lc_bal := (lc_bal ?w1)\<lparr>bal_done := True\<rparr>, lc_stops := (lc_stops ?w1)[0 := SWaiting]\<rparr>)"
    by (rule lc_step.closes) (simp_all add: w_def lc_start_defs)
  moreover have "lc_stops w = []" by (simp add: w_def lc_start_defs)
  ultimately show ?thesis by (auto intro: converse_rtranclp_into_rtranclp)
qed

lemma sample_intervals: "intervals_ok sample_config"
proof -
  have "cfg_Groups sample_config = [(''gpu'', default_group None)]"
    "lb_Metrics (cfg_LoadBalancing sample_config) = lb_Metrics (cfg_LoadBalancing sample_raw)"
    "lb_Recovery (cfg_LoadBalancing sample_config) = lb_Recovery (cfg_LoadBalancing sample_raw)"
    by (simp_all add: sample_config_def Load_def Let_def validate_def validateBackends_def validateRoutes_def
      applyDefaults_def sample_defs default_backend_def system_prompt_ops_def gm_map_values_def)
  then show ?thesis
    by (simp add: intervals_ok_def group_intervals_ok_def max_seconds_def default_group_def zero_GroupConfig_def
        GetScrapeInterval_def GetAliveConfig_def GetMetricsConfig_def GetRecovery_def metrics_override_def
        recovery_override_def pos_or_def or_default_def sample_raw_def)
qed

text \<open>
  C12: \<open>Stop\<close> ends the monitoring and can always finish. In every state that a new balancer reaches,
  under every interleaving of requests, probes, hand-overs and callers of \<open>Stop\<close>, the wait group counts
  the goroutines that are alive. Once a call of \<open>Stop\<close> has returned, all goroutines have left, and none
  is ever alive again. With intervals in range, from every state with the channel closed and no panic, all
  goroutines can leave and a call of \<open>Stop\<close> can return, in at most two steps for every goroutine alive and one more.
\<close>

theorem stop_quiesces:
  assumes "(lc_step pf)\<^sup>*\<^sup>* (lc_start cfg ords scrape) w"
    and "gm_wf (cfg_Groups cfg)" and "distinct (map be_ID (cfg_Backends cfg))"
  shows "lc_wg w = int (length (filter live (lc_routines w))) \<and>
    (SReturned \<in> set (lc_stops w) \<longrightarrow>
      (\<forall>w'. (lc_step pf)\<^sup>*\<^sup>* w w' \<longrightarrow> (\<forall>g\<in>set (lc_routines w'). g = Exited))) \<and>
    (intervals_ok cfg \<and> bal_done (lc_bal w) \<and> \<not> lc_panic w \<longrightarrow>
      (\<exists>w' m. (lc_step pf ^^ m) w w' \<and> m \<le> 2 * length (filter live (lc_routines w)) + 1 \<and>
         SReturned \<in> set (lc_stops w')))"
proof -
  have inv: "lc_inv w" using lc_reach_inv [OF assms] .
  have "g = Exited" if "SReturned \<in> set (lc_stops w)" "(lc_step pf)\<^sup>*\<^sup>* w w'" "g \<in> set (lc_routines w')" for w' g
  proof -
    have quiet: "filter live (lc_routines w) = []" using inv that(1) by (simp add: lc_inv_def)
    with lc_reachable_quiet [OF that(2)] that(3) show ?thesis by (cases g) (auto simp: filter_empty_conv)
  qed
  then show ?thesis using inv stop_can_return lc_reach_safe [OF assms(1)] by (auto simp: lc_inv_def)
qed

theorem stop_quiesces_witness:
  "\<exists>w. (lc_step parse_digit)\<^sup>*\<^sup>* (lc_start sample_config (\<lambda>_. [''gpu'']) (\<lambda>_ _. None)) w \<and>
     SReturned \<in> set (lc_stops w) \<and> (\<forall>g\<in>set (lc_routines w). g = Exited)"
proof -
  let ?w = "lc_start sample_config (\<lambda>_. [''gpu'']) (\<lambda>_ _. None)"
  let ?w2 = "?w\<lparr>lc_bal := (lc_bal ?w)\<lparr>bal_done := True\<rparr>, lc_stops := [SWaiting]\<rparr>"
  note run = lc_first_close [of parse_digit sample_config "\<lambda>_. [''gpu'']" "\<lambda>_ _. None"]
  have "\<not> lc_panic ?w2" by (simp add: lc_start_defs)
  then obtain w m where w: "(lc_step parse_digit ^^ m) ?w2 w" "SReturned \<in> set (lc_stops w)"
    using stop_quiesces [OF run sample_config_groups(1,2)] sample_intervals by auto
  have reach: "(lc_step parse_digit)\<^sup>*\<^sup>* ?w w" using run relpowp_imp_rtranclp [OF w(1)] by (rule rtranclp_trans)
  with stop_quiesces [OF reach sample_config_groups(1,2)] w(2) show ?thesis by blast
qed

text \<open>
  C23: when the monitoring ends the process. While \<open>Stop\<close> has at most one caller, a panic is reachable
  exactly if one of the goroutines that \<open>New\<close> launches has a ticker whose interval is not positive.
\<close>

theorem monitor_panics_iff:
  assumes "gm_wf (cfg_Groups cfg)" and "distinct (map be_ID (cfg_Backends cfg))"
  shows "(\<exists>w. (lc_step pf)\<^sup>*\<^sup>* (lc_start cfg ords scrape) w \<and> lc_panic w \<and> length (lc_stops w) \<le> 1) \<longleftrightarrow>
    list_ex (\<lambda>j. \<not> tickers_ok j) (startMonitoring ords scrape cfg)"
proof
  let ?w = "lc_start cfg ords scrape" and ?jobs = "startMonitoring ords scrape cfg"
  assume "list_ex (\<lambda>j. \<not> tickers_ok j) ?jobs"
  then obtain n where n: "n < length ?jobs" "\<not> tickers_ok (?jobs ! n)" by (auto simp: list_ex_length)
  have "gm_wf (bal_groups (lc_bal ?w))"
    using balancer_New_wf [OF assms(1)] by (simp add: lc_start_def lc_launch_def bal_wf_def)
  then obtain j' bal' where js: "job_step pf (lc_bal ?w) (False, ?jobs ! n) (True, j') bal'" using job_starts by blast
  have "\<not> tickers_ok j'" using job_step_tickers(1) [OF js] n(2) tickers_ok_cong by blast
  with js n(1) have "lc_step pf ?w (?w\<lparr>lc_bal := bal', lc_panic := True\<rparr>)"
    by (intro lc_step.ticker_panics [where n = n]) (simp_all add: lc_start_defs)
  then show "\<exists>w. (lc_step pf)\<^sup>*\<^sup>* ?w w \<and> lc_panic w \<and> length (lc_stops w) \<le> 1"
    by (intro exI [of _ "?w\<lparr>lc_bal := bal', lc_panic := True\<rparr>"]) (simp add: lc_start_defs r_into_rtranclp)
next
  assume "\<exists>w. (lc_step pf)\<^sup>*\<^sup>* (lc_start cfg ords scrape) w \<and> lc_panic w \<and> length (lc_stops w) \<le> 1"
  moreover have "\<not> lc_panic (lc_start cfg ords scrape)" by (simp add: lc_start_defs)
  ultimately have "\<not> lc_safe (lc_start cfg ords scrape)" using one_stop_no_panic lc_start_inv [OF assms] by blast
  then show "list_ex (\<lambda>j. \<not> tickers_ok j) (startMonitoring ords scrape cfg)"
    by (auto simp: lc_start_safe list_all_iff list_ex_iff)
qed

text \<open>The sample configuration with \<open>interval_seconds: -1\<close>, which \<open>Load\<close> accepts.\<close>

definition negative_group :: GroupConfig where
  "negative_group = zero_GroupConfig\<lparr>grp_HealthCheck := (grp_HealthCheck zero_GroupConfig)\<lparr>hc_IntervalSeconds := - 1\<rparr>\<rparr>"

lemma negative_load:
  "\<exists>cfg. Load Some [(''gpu'', Some negative_group)] sample_raw = Inr cfg \<and>
     cfg_Groups cfg = [(''gpu'', default_group (Some negative_group))] \<and>
     map be_ID (GroupBackends cfg ''gpu'') = [''g1'', ''g2''] \<and> distinct (map be_ID (cfg_Backends cfg))"
  by (simp add: Load_def Let_def validate_def validateBackends_def validateRoutes_def
      applyDefaults_def sample_defs default_backend_def system_prompt_ops_def gm_map_values_def GroupBackends_def)

lemma monitor_job_started:
  assumes "info \<in> set (backend_infos (ords 0) cfg)" and "monitor_job cfg scrape info = Some j"
  shows "case_sum JScrape JHealth j \<in> set (startMonitoring ords scrape cfg)"
proof -
  have "j \<in> set (List.map_filter (monitor_job cfg scrape) (backend_infos (ords 0) cfg))"
    using assms unfolding List.map_filter_def set_map set_filter comp_def by (intro image_eqI [of _ _ info]) simp_all
  then show ?thesis unfolding startMonitoring_def by simp
qed

lemma negative_jobs:
  assumes "cfg_Groups cfg = [(''gpu'', default_group (Some negative_group))]"
    and "map be_ID (GroupBackends cfg ''gpu'') = [''g1'', ''g2'']"
  shows "list_ex (\<lambda>j. \<not> tickers_ok j) (startMonitoring (\<lambda>_. [''gpu'']) (\<lambda>_ _. None) cfg)"
proof -
  let ?g = "default_group (Some negative_group)"
  obtain b1 b2 where bs: "GroupBackends cfg ''gpu'' = [b1, b2]" "be_ID b1 = ''g1''" "be_ID b2 = ''g2''"
    using assms(2) by auto
  have "backend_infos [''gpu''] cfg = [(''g1'', be_BaseURL b1, [default_group (Some negative_group)]),
      (''g2'', be_BaseURL b2, [default_group (Some negative_group)])]"
    using assms(1) bs by (simp add: backend_infos_def gm_range_def List.map_filter_def)
  then have info: "(''g1'', be_BaseURL b1, [?g]) \<in> set (backend_infos [''gpu''] cfg)" by simp
  have g: "hc_Enabled (grp_HealthCheck ?g) \<noteq> ''false''" "hc_IntervalSeconds (grp_HealthCheck ?g) = - 1" "\<not> ScrapeEnabled ?g"
    by (simp_all add: negative_group_def zero_GroupConfig_def default_group_def ScrapeEnabled_def or_default_def Let_def)
  then obtain j where j: "monitor_job cfg (\<lambda>_ _. None) (''g1'', be_BaseURL b1, [?g]) = Some j"
    by (simp add: monitor_job_def Let_def split del: if_split)
  have "seconds (- 1) = - 1000000000" by (simp add: seconds_def wrap64_def)
  with monitor_job_intervals [OF j] g have "\<not> tickers_ok (case_sum JScrape JHealth j)"
    by (cases j) (auto simp: interval_or_def tickers_ok_def)
  moreover have "case_sum JScrape JHealth j \<in> set (startMonitoring (\<lambda>_. [''gpu'']) (\<lambda>_ _. None) cfg)"
    by (rule monitor_job_started [OF _ j]) (use info in simp)
  ultimately show ?thesis unfolding list_ex_iff by (rule bexI)
qed

theorem monitor_panics_iff_witness:
  "\<exists>cfg w. Load Some [(''gpu'', Some negative_group)] sample_raw = Inr cfg \<and>
     (lc_step parse_digit)\<^sup>*\<^sup>* (lc_start cfg (\<lambda>_. [''gpu'']) (\<lambda>_ _. None)) w \<and> lc_panic w"
proof -
  obtain cfg where cfg: "Load Some [(''gpu'', Some negative_group)] sample_raw = Inr cfg"
    "cfg_Groups cfg = [(''gpu'', default_group (Some negative_group))]"
    "map be_ID (GroupBackends cfg ''gpu'') = [''g1'', ''g2'']" "distinct (map be_ID (cfg_Backends cfg))"
    using negative_load by (elim exE conjE)
  have "gm_wf (cfg_Groups cfg)" by (simp add: cfg(2) gm_wf_def)
  from monitor_panics_iff [where pf = parse_digit, OF this cfg(4), THEN iffD2, OF negative_jobs [OF cfg(2,3)]] obtain w
    where "(lc_step parse_digit)\<^sup>*\<^sup>* (lc_start cfg (\<lambda>_. [''gpu'']) (\<lambda>_ _. None)) w" "lc_panic w"
    by (elim exE conjE)
  with cfg(1) show ?thesis by (intro exI conjI)
qed

text \<open>
  C24: \<open>Stop\<close> may be called once. With intervals in range nothing panics while \<open>Stop\<close> has one caller. A
  caller that finds the channel closed can only panic: that step is there, and the call never returns.
\<close>

theorem stop_once:
  assumes "(lc_step pf)\<^sup>*\<^sup>* (lc_start cfg ords scrape) w"
    and "gm_wf (cfg_Groups cfg)" and "distinct (map be_ID (cfg_Backends cfg))" and "intervals_ok cfg"
  shows "(length (lc_stops w) \<le> 1 \<longrightarrow> \<not> lc_panic w) \<and>
    (\<forall>k<length (lc_stops w). lc_stops w ! k = SClosing \<and> bal_done (lc_bal w) \<and> \<not> lc_panic w \<longrightarrow>
       (\<exists>w'. lc_step pf w w' \<and> lc_panic w') \<and>
       (\<forall>w'. (lc_step pf)\<^sup>*\<^sup>* w w' \<longrightarrow> lc_stops w' ! k = SClosing))"
proof -
  have "lc_safe (lc_start cfg ords scrape)" using startMonitoring_tickers [OF assms(4)] by (simp add: lc_start_safe)
  moreover have "\<not> lc_panic (lc_start cfg ords scrape)" by (simp add: lc_start_defs)
  ultimately have "length (lc_stops w) \<le> 1 \<longrightarrow> \<not> lc_panic w"
    using one_stop_no_panic [OF assms(1)] lc_start_inv [OF assms(2,3)] by blast
  moreover have "\<exists>w'. lc_step pf w w' \<and> lc_panic w'"
    if "k < length (lc_stops w)" "lc_stops w ! k = SClosing" "bal_done (lc_bal w)" "\<not> lc_panic w" for k
    using lc_step.close_panics [OF that(4,1,2,3), of pf] by (intro exI conjI) auto
  ultimately show ?thesis using second_stop_stuck by blast
qed

theorem stop_once_witness:
  "\<exists>w. (lc_step parse_digit)\<^sup>*\<^sup>* (lc_start sample_config (\<lambda>_. [''gpu'']) (\<lambda>_ _. None)) w \<and>
     \<not> lc_panic w \<and> (\<exists>w'. lc_step parse_digit w w' \<and> lc_panic w')"
proof -
  let ?w = "lc_start sample_config (\<lambda>_. [''gpu'']) (\<lambda>_ _. None)"
  let ?w1 = "?w\<lparr>lc_bal := (lc_bal ?w)\<lparr>bal_done := True\<rparr>, lc_stops := [SWaiting]\<rparr>"
  let ?w2 = "?w1\<lparr>lc_stops := lc_stops ?w1 @ [SClosing]\<rparr>"
  note run = lc_first_close [of parse_digit sample_config "\<lambda>_. [''gpu'']" "\<lambda>_ _. None"]
  have ok: "\<not> lc_panic ?w1" using stop_once [OF run sample_config_groups(1,2) sample_intervals] by simp
  from run lc_step.calls_stop [OF this] have reach: "(lc_step parse_digit)\<^sup>*\<^sup>* ?w ?w2" by (rule rtranclp.rtrancl_into_rtrancl)
  have "\<not> lc_panic ?w2" "1 < length (lc_stops ?w2)" "lc_stops ?w2 ! 1 = SClosing" "bal_done (lc_bal ?w2)"
    using ok by simp_all
  with stop_once [OF reach sample_config_groups(1,2) sample_intervals] reach show ?thesis by blast
qed

end
