(* ===== verification/Port_Range.thy ===== *)
theory Port_Range
  imports Config_Load
begin

text \<open>
  The \<open>ports\<close> field of a backend (\<open>PortRange.UnmarshalYAML\<close> in \<open>internal/config/config.go\<close>): a number, a
  list of numbers or a range, with \<open>strconv.Atoi\<close> and \<open>strings.SplitN\<close> of the standard library. The
  counter of the range loop is a 64-bit integer, so the loop need not end: it is a partial function,
  and the result \<open>None\<close> is a call that never returns.
\<close>

section \<open>Numbers\<close>

definition digit_value :: "char \<Rightarrow> nat option" where
  "digit_value c =
     (let n = (of_char c :: nat) in if 48 \<le> n \<and> n \<le> 57 then Some (n - 48) else None)"

fun parse_digits :: "nat \<Rightarrow> string \<Rightarrow> nat option" where
  "parse_digits n [] = Some n"
| "parse_digits n (c # cs) =
     (case digit_value c of None \<Rightarrow> None | Some d \<Rightarrow> parse_digits (10 * n + d) cs)"

text \<open>\<open>strconv.Atoi\<close>: an optional sign, at least one digit, a value that fits in 64 bits.\<close>

definition split_sign :: "string \<Rightarrow> bool \<times> string" where
  "split_sign s =
     (case s of
        [] \<Rightarrow> (False, [])
      | c # cs \<Rightarrow> if c = CHR ''-'' then (True, cs) else if c = CHR ''+'' then (False, cs) else (False, s))"

definition Atoi :: "string \<Rightarrow> int option" where
  "Atoi s =
     (case split_sign s of
        (neg, ds) \<Rightarrow>
          (if ds = [] then None
           else case parse_digits 0 ds of
             None \<Rightarrow> None
           | Some n \<Rightarrow>
               (let i = (if neg then - int n else int n)
                in if - (2 ^ 63) \<le> i \<and> i < 2 ^ 63 then Some i else None)))"

section \<open>The ports field\<close>

datatype ports_error =
    PortsSyntax string
  | PortsBadRange string
  | PortsNonInteger string
  | PortsKind

text \<open>\<open>for i := lo; i <= hi; i++ \{ *p = append( *p, i) \}\<close>\<close>

partial_function (option) port_loop :: "int \<Rightarrow> int \<Rightarrow> int list \<Rightarrow> int list option" where
  "port_loop i hi p = (if i \<le> hi then port_loop (wrap64 (i + 1)) hi (p @ [i]) else Some p)"

fun append_ports :: "int list \<Rightarrow> ynode list \<Rightarrow> ports_error + int list" where
  "append_ports p [] = Inr p"
| "append_ports p (child # children) =
     (case Atoi (y_Value child) of
        None \<Rightarrow> Inl (PortsNonInteger (y_Value child))
      | Some n \<Rightarrow> append_ports (p @ [n]) children)"

definition parse_range :: "int list \<Rightarrow> string \<Rightarrow> (ports_error + int list) option" where
  "parse_range p v =
     (case str_index v ''-'' of
        None \<Rightarrow> Some (Inl (PortsSyntax v))
      | Some k \<Rightarrow>
          (case (Atoi (TrimSpace (take k v)), Atoi (TrimSpace (drop (Suc k) v))) of
             (Some lo, Some hi) \<Rightarrow>
               (if lo > hi then Some (Inl (PortsBadRange v))
                else map_option Inr (port_loop lo hi p))
           | _ \<Rightarrow> Some (Inl (PortsBadRange v))))"

definition PortRange_UnmarshalYAML :: "int list \<Rightarrow> ynode \<Rightarrow> (ports_error + int list) option" where
  "PortRange_UnmarshalYAML p value =
     (case value of
        YScalar v \<Rightarrow> (case Atoi v of Some n \<Rightarrow> Some (Inr [n]) | None \<Rightarrow> parse_range p v)
      | YSequence children \<Rightarrow> Some (append_ports p children)
      | _ \<Rightarrow> Some (Inl PortsKind))"

section \<open>Decimal texts\<close>

lemma digit_value_digit: "d < 10 \<Longrightarrow> digit_value (char_of (48 + d :: nat)) = Some d"
  by (simp add: digit_value_def Let_def of_char_of)

lemma parse_digits_append:
  "parse_digits n (xs @ ys) = (case parse_digits n xs of None \<Rightarrow> None | Some m \<Rightarrow> parse_digits m ys)"
  by (induction n xs rule: parse_digits.induct) (auto split: option.split)

lemma parse_nat_decimal: "parse_digits 0 (nat_decimal n) = Some n"
proof (induction n rule: nat_decimal.induct)
  case (1 n)
  show ?case
  proof (cases "n < 10")
    case True
    then show ?thesis by (subst nat_decimal.simps) (simp add: digit_value_digit)
  next
    case False
    with 1 show ?thesis by (subst nat_decimal.simps) (simp add: parse_digits_append digit_value_digit)
  qed
qed


lemma parse_digits_chars: "parse_digits n s \<noteq> None \<Longrightarrow> c \<in> set s \<Longrightarrow> digit_value c \<noteq> None"
  by (induction n s rule: parse_digits.induct) (auto split: option.splits)

lemma nat_decimal_digits: "c \<in> set (nat_decimal n) \<Longrightarrow> digit_value c \<noteq> None"
  using parse_digits_chars [of 0 "nat_decimal n" c] by (simp add: parse_nat_decimal)

lemma nat_decimal_nonempty [simp]: "nat_decimal n \<noteq> []"
  by (subst nat_decimal.simps) simp

lemma no_digits [simp]: "digit_value (CHR ''-'') = None" "digit_value (CHR ''+'') = None"
  by (simp_all add: digit_value_def)

lemma split_sign_digits:
  assumes "s \<noteq> []" and "\<And>c. c \<in> set s \<Longrightarrow> digit_value c \<noteq> None"
  shows "split_sign s = (False, s)"
proof -
  have "digit_value (hd s) \<noteq> None" using assms by simp
  then have "hd s \<noteq> CHR ''-''" "hd s \<noteq> CHR ''+''" using no_digits by metis+
  then show ?thesis by (cases s) (simp_all add: split_sign_def)
qed

lemma split_sign_decimal: "split_sign (nat_decimal n) = (False, nat_decimal n)"
  by (intro split_sign_digits nat_decimal_nonempty nat_decimal_digits)

lemma Atoi_nat: "int n < 2 ^ 63 \<Longrightarrow> Atoi (nat_decimal n) = Some (int n)"
  by (simp add: Atoi_def split_sign_decimal parse_nat_decimal)

lemma Atoi_Itoa: "- (2 ^ 63) \<le> i \<Longrightarrow> i < 2 ^ 63 \<Longrightarrow> Atoi (Itoa i) = Some i"
proof (cases "i < 0")
  case True
  then have "split_sign (Itoa i) = (True, nat_decimal (nat (- i)))" by (simp add: Itoa_def split_sign_def)
  moreover assume "- (2 ^ 63) \<le> i"
  ultimately show ?thesis using True by (simp add: Atoi_def parse_nat_decimal)
next
  case False
  moreover assume "i < 2 ^ 63"
  ultimately show ?thesis using Atoi_nat [of "nat i"] by (simp add: Itoa_def)
qed

text \<open>A text of digits has no space at its ends.\<close>

lemma strip_left_stops:
  assumes "\<And>p. p \<in> set encs \<Longrightarrow> \<not> (p \<noteq> [] \<and> prefix p s)"
  shows "strip_left encs s = s"
proof -
  have "find (\<lambda>p. p \<noteq> [] \<and> prefix p s) encs = None" using assms by (auto simp: find_None_iff)
  then show ?thesis by (subst strip_left.simps) simp
qed

lemma strip_left_first:
  assumes "list_all (\<lambda>p. p = [] \<or> hd p \<noteq> hd s) encs" and "s \<noteq> []"
  shows "strip_left encs s = s"
proof (rule strip_left_stops)
  fix p
  assume "p \<in> set encs"
  with assms show "\<not> (p \<noteq> [] \<and> prefix p s)" by (auto simp: list_all_iff prefix_def neq_Nil_conv)
qed

lemma spaces_no_digits:
  "list_all (\<lambda>p. digit_value (hd p) = None \<and> digit_value (last p) = None \<and> p \<noteq> []) space_encodings"
  by (simp add: space_encodings_def digit_value_def)

lemma TrimSpace_digits:
  assumes "s \<noteq> []" and "\<And>c. c \<in> set s \<Longrightarrow> digit_value c \<noteq> None"
  shows "TrimSpace s = s"
proof -
  have digits: "digit_value (hd s) \<noteq> None" "digit_value (last s) \<noteq> None" using assms by auto
  have "strip_left space_encodings s = s"
    using spaces_no_digits digits(1) assms(1) by (intro strip_left_first) (auto simp: list_all_iff)
  moreover have "strip_left (map rev space_encodings) (rev s) = rev s"
    using spaces_no_digits digits(2) assms(1)
    by (intro strip_left_first) (auto simp: list_all_iff hd_rev)
  ultimately show ?thesis by (simp add: TrimSpace_def)
qed

lemma str_index_dash:
  "(\<And>c. c \<in> set a \<Longrightarrow> c \<noteq> CHR ''-'') \<Longrightarrow> str_index (a @ CHR ''-'' # b) ''-'' = Some (length a)"
  by (induction a) auto

section \<open>The range loop\<close>

lemma port_loop_returns: "hi < 2 ^ 63 - 1 \<Longrightarrow> - (2 ^ 63) \<le> i \<Longrightarrow> port_loop i hi p = Some (p @ [i..hi])"
proof (induction "nat (hi + 1 - i)" arbitrary: i p)
  case 0
  then show ?case by (subst port_loop.simps) simp
next
  case (Suc n)
  then have le: "i \<le> hi" by simp
  with Suc.prems have next_i: "wrap64 (i + 1) = i + 1" by (simp add: wrap64_id)
  have "port_loop (i + 1) hi (p @ [i]) = Some ((p @ [i]) @ [i + 1..hi])"
    using Suc by (intro Suc.hyps(1)) simp_all
  with le next_i show ?case by (subst port_loop.simps) (simp add: upto_rec1)
qed

lemma port_loop_result: "port_loop i hi p = Some q \<Longrightarrow> i < 2 ^ 63 \<Longrightarrow> hi < 2 ^ 63 - 1"
proof (induction rule: port_loop.raw_induct [rotated 1, consumes 1])
  case (1 loop i hi p q)
  show ?case
  proof (cases "i \<le> hi")
    case True
    then have "loop (wrap64 (i + 1)) hi (p @ [i]) = Some q" using 1(2) by simp
    then show ?thesis using 1(1) by (simp add: wrap64_def)
  next
    case False
    then show ?thesis using 1(3) by simp
  qed
qed

lemma port_loop_diverges: "i < 2 ^ 63 \<Longrightarrow> hi = 2 ^ 63 - 1 \<Longrightarrow> port_loop i hi p = None"
  using port_loop_result [of i hi p] by (cases "port_loop i hi p") auto

section \<open>Properties\<close>

lemma parse_range_text:
  assumes "0 \<le> lo" and "lo \<le> hi" and "hi < 2 ^ 63"
  shows "parse_range p (Itoa lo @ ''-'' @ Itoa hi) = map_option Inr (port_loop lo hi p)"
proof -
  have digits: "Itoa lo = nat_decimal (nat lo)" "Itoa hi = nat_decimal (nat hi)" using assms by (simp_all add: Itoa_def)
  have "c \<noteq> CHR ''-''" if "c \<in> set (Itoa lo)" for c
    using nat_decimal_digits [of c "nat lo"] that digits(1) no_digits(1) by metis
  then have split: "str_index (Itoa lo @ CHR ''-'' # Itoa hi) ''-'' = Some (length (Itoa lo))" by (rule str_index_dash)
  have trim: "TrimSpace (nat_decimal k) = nat_decimal k" for k
    by (intro TrimSpace_digits nat_decimal_nonempty nat_decimal_digits)
  have "Atoi (TrimSpace (Itoa lo)) = Some lo" "Atoi (TrimSpace (Itoa hi)) = Some hi"
    using assms Atoi_nat [of "nat lo"] Atoi_nat [of "nat hi"] by (simp_all add: digits trim)
  with split assms(2) show ?thesis by (simp add: parse_range_def)
qed

lemma range_is_no_number: "Atoi (nat_decimal n @ CHR ''-'' # s) = None"
proof -
  have "split_sign (nat_decimal n @ CHR ''-'' # s) = (False, nat_decimal n @ CHR ''-'' # s)"
    using split_sign_decimal [of n] nat_decimal_nonempty [of n]
    by (cases "nat_decimal n") (auto simp: split_sign_def split: if_splits)
  then show ?thesis by (simp add: Atoi_def parse_digits_append split: option.split)
qed

lemma append_ports_Itoa:
  "list_all (\<lambda>n. - (2 ^ 63) \<le> n \<and> n < 2 ^ 63) ns \<Longrightarrow> append_ports p (map (YScalar \<circ> Itoa) ns) = Inr (p @ ns)"
  by (induction ns arbitrary: p) (simp_all add: Atoi_Itoa)

text \<open>
  C31: what is written in a \<open>ports\<close> field is what is read. A 64-bit number is read as that one port, a
  list of numbers as that list, and a range between two non-negative numbers as every number from the
  lower to the upper one, in order. The exception is a range up to the largest 64-bit integer: the
  counter of the loop wraps around below the bound and reading the configuration never ends.
\<close>

theorem ports_read_as_written:
  "(- (2 ^ 63) \<le> n \<and> n < 2 ^ 63 \<longrightarrow> PortRange_UnmarshalYAML [] (YScalar (Itoa n)) = Some (Inr [n])) \<and>
   (list_all (\<lambda>n. - (2 ^ 63) \<le> n \<and> n < 2 ^ 63) ns \<longrightarrow>
      PortRange_UnmarshalYAML [] (YSequence (map (YScalar \<circ> Itoa) ns)) = Some (Inr ns)) \<and>
   (0 \<le> lo \<and> lo \<le> hi \<and> hi < 2 ^ 63 \<longrightarrow>
      PortRange_UnmarshalYAML [] (YScalar (Itoa lo @ ''-'' @ Itoa hi)) =
        (if hi < 2 ^ 63 - 1 then Some (Inr [lo..hi]) else None))"
  (is "?one \<and> ?list \<and> (?in \<longrightarrow> ?range = _)")
proof (intro conjI impI)
  assume r: ?in
  then have "Atoi (Itoa lo @ ''-'' @ Itoa hi) = None" by (simp add: Itoa_def range_is_no_number)
  then have "?range = map_option Inr (port_loop lo hi [])"
    using r parse_range_text [of lo hi "[]"] by (simp add: PortRange_UnmarshalYAML_def)
  moreover have "port_loop lo hi [] = (if hi < 2 ^ 63 - 1 then Some [lo..hi] else None)"
  proof (cases "hi < 2 ^ 63 - 1")
    case True
    with r show ?thesis by (simp add: port_loop_returns)
  next
    case False
    with r have "hi = 2 ^ 63 - 1" by linarith
    with r False show ?thesis using port_loop_diverges [of lo hi "[]"] by simp
  qed
  ultimately show "?range = (if hi < 2 ^ 63 - 1 then Some (Inr [lo..hi]) else None)" by simp
qed (simp_all add: PortRange_UnmarshalYAML_def Atoi_Itoa append_ports_Itoa)

theorem ports_read_as_written_witness:
  "PortRange_UnmarshalYAML [] (YScalar (Itoa 3040)) = Some (Inr [3040]) \<and>
   PortRange_UnmarshalYAML [] (YSequence (map (YScalar \<circ> Itoa) [3040, 3042])) = Some (Inr [3040, 3042]) \<and>
   PortRange_UnmarshalYAML [] (YScalar (Itoa 3040 @ ''-'' @ Itoa 3042)) = Some (Inr [3040, 3041, 3042])"
proof -
  have "[3040..3042] = [3040, 3041, 3042 :: int]" by (simp add: upto_rec1)
  then show ?thesis using ports_read_as_written [of 3040 "[3040, 3042]" 3040 3042] by simp
qed

end
