(* ===== verification/Spec2Isabelle.thy ===== *)
theory Spec2Isabelle
  imports Proxy_Counters Proxy_Metrics Process_Main Request_Logging Probe_Client Lb_Lifecycle Port_Range
begin

text \<open>
  Verification of the hikyaku LLM proxy (Go, \<open>src/internal\<close> and \<open>src/cmd/hikyaku\<close>): a reverse proxy that
  maps virtual models to backends, balances load over groups of backends with session affinity,
  rewrites requests, counts what it does and can record messages for debugging.

  \<^bold>\<open>How the program is put together.\<close> A process (\<open>cmd/hikyaku/main.go\<close>) loads a configuration, opens
  its listeners and handles signals. Every request runs through the pipeline of
  \<open>internal/proxy/server.go\<close>: authentication, reading and decoding the body, routing
  (\<open>internal/router\<close>), defenders (\<open>defender.go\<close>), selection of a backend (\<open>internal/balancer\<close>),
  rewriting of the body, the journal, admission (gauges, capture slot, semaphore) and the reverse
  proxy, whose response is buffered or parsed as a stream (\<open>stream.go\<close>). Three ends close the
  accounts of a request. Monitoring goroutines probe the backends meanwhile, and a reload replaces
  everything that was built from the configuration.

  \<^bold>\<open>Theories and sources.\<close> Names of definitions follow the source; record fields carry a prefix.
  \<^item> \<open>Go_Prelude\<close>: wrap-around of \<open>int64\<close>, durations, Go maps as association lists with an explicit
    order of iteration, strings as bytes, number texts; the collections \<open>time_simps\<close>, \<open>gomap_simps\<close>.
    \<open>Json_Values\<close>: decoded JSON, type assertions, \<open>deepMergeInto\<close>. \<open>Http_Header\<close>: \<open>http.Header\<close>.
  \<^item> \<open>Affinity_Store\<close> (\<open>balancer/store.go\<close>): the LRU store, a map into a list of heap nodes.
    \<open>Affinity_Key\<close> (\<open>affinity_key.go\<close>), \<open>Backend_State\<close> (\<open>state.go\<close>, \<open>flow_stats.go\<close>),
    \<open>Load_Selection\<close> (\<open>select.go\<close>, \<open>simple_selectors.go\<close>, \<open>sticky_selector.go\<close>),
    \<open>Metrics_Parser\<close> (\<open>parser.go\<close>), \<open>Lb_Balancer\<close> (\<open>balancer.go\<close>: groups, selection, counters,
    pins, health), \<open>Lb_Monitor\<close> (\<open>balancer.go\<close>, \<open>alive_checker.go\<close>: the jobs), \<open>Probe_Client\<close>
    (\<open>health.go\<close>), \<open>Lb_System\<close>: requests and jobs interleaved on one balancer. \<open>Lb_Lifecycle\<close>: the
    goroutines of the jobs from \<open>New\<close> to \<open>Stop\<close>, with tickers, channel, wait group and panics.
  \<^item> \<open>Proxy_Config\<close>, \<open>Config_Load\<close> (\<open>config/config.go\<close>, \<open>config/group.go\<close>): schema, defaults,
    validation, policies; expansion of variables and of map blocks. \<open>Port_Range\<close>: the \<open>ports\<close> field.
    \<open>Model_Router\<close> (\<open>router/router.go\<close>).
  \<^item> \<open>Request_Defender\<close> (\<open>proxy/defender.go\<close>), \<open>Body_Rewrite\<close> and \<open>Header_Ops\<close> (\<open>proxy/server.go\<close>),
    \<open>Sse_Stream\<close> (\<open>proxy/stream.go\<close>), \<open>Telemetry_Metrics\<close> (\<open>telemetry/metrics.go\<close>),
    \<open>Message_Capture\<close> (\<open>capture/\<close>), \<open>Capture_Payload\<close> (snapshots and the capture helpers of
    \<open>server.go\<close>), \<open>Request_Journal\<close> (\<open>journal/analyze.go\<close>, \<open>logger/\<close>), \<open>Request_Logging\<close> (log lines of
    \<open>server.go\<close>, \<open>journal/journal.go\<close>).
  \<^item> \<open>Proxy_Server\<close> (\<open>proxy/server.go\<close>, \<open>ollama.go\<close>): the state of the server, reload, semaphores, the
    pipeline and the ends of a request. \<open>Proxy_System\<close>: any number of requests, each in a phase
    between admission and return, interleaved with reloads, signals and monitoring
    (\<open>px_step\<close>). \<open>Proxy_Counters\<close>: the pipeline against the counters of the balancer.
    \<open>Proxy_Metrics\<close>: its measurements against the instruments, and the way of a request to its end.
    \<open>Proxy_Capture\<close>: the files and texts that the system leaves. \<open>Process_Main\<close>
    (\<open>cmd/hikyaku\<close>): start-up, \<open>journal.New\<close>, listeners, SIGHUP, SIGUSR1, shutdown, start-up probes.

  \<^bold>\<open>Interfaces.\<close> Where one component relies on another, the contract is a locale, interpreted on the
  model's own definitions: the affinity store (\<open>affinity_store\<close>), a
  selection strategy (\<open>selector\<close>, for the four strategies and their dispatch), a sink that keeps a prefix (\<open>capped_sink\<close>, for the capture buffer and for the content buffer of the
  SSE parser), a stream parser (\<open>stream_parser\<close>, for SSE and Ollama), and the frame of routing
  (\<open>routing_view\<close>, for the books, the files, the kept texts and the measurements).

  \<^bold>\<open>What the lemmas show.\<close>
  \<^item> Balancing: the store refines a recency list; sessions stay on their backend and leave it when it
    fails; selections pick the least loaded backend of the best tier; a group with a backend is always
    served; counters equal the requests under way in every interleaving; failed probes do not touch a
    working backend; outcomes decide health; \<open>Stop\<close> ends all goroutines and can always return; when
    the monitoring can panic.
  \<^item> Requests: routing of loaded configurations, parameter precedence, deep merge, system prompts,
    thinking parameters, Ollama options, header operations and credentials, defenders, empty messages.
  \<^item> Streams: the parser does not depend on the cut of the stream, counts once, and the wrappers
    neither lose nor reorder bytes.
  \<^item> Server and process: the books balance, requests end and give their slots back, measurements fit
    their instruments, requests need the token, capture windows are bounded,
    capture files are whole and redacted, rejected reloads change nothing, the hardened build keeps
    no prompt text.
  \<^item> Several theorems state what the code does where its documentation says otherwise: counters that
    leak after a refusal or fall below zero after a reload, loops that never escalate, recoveries that
    never ramp up, error answers in the hardened log, a reload of an empty file that ends the process,
    a negative health interval that ends it, a second \<open>Stop\<close>, a range of ports that is never read.

  \<^bold>\<open>Bounds and recursion.\<close> No fuel is used: loops are structural recursion or functions with a
  measure (\<open>feed_loop\<close> and \<open>expandEnvVars\<close> by the length of the input, \<open>resolve\<close> by the depth that the
  code itself limits to 2, the eviction of the store by its size). The range loop of the \<open>ports\<close> field
  need not end and is a partial function; that it returns, and when it does not, is proved. The
  compare-and-swap loop of \<open>Reserve\<close>, the reader goroutine of the idle-timeout body, the monitoring
  goroutines and the requests of the server are step relations; their theorems hold for every reachable state. Widths are kept where they matter:
  64-bit hashes and round-robin counters, the 32-bit capture counter, wrapping durations and body
  limits. Token, byte and request counts are unbounded integers, floating-point values are reals.

  \<^bold>\<open>Parameters.\<close> JSON and YAML codecs, SHA-256, number formatting and parsing of floats, URL parsing
  and resolution, lower-casing of non-ASCII text, time formats, the file system outcomes, the HTTP
  transport, exporters, instants and the iteration order of Go maps are arguments. Hypotheses about
  them are named (\<open>range_order\<close>, \<open>urls_parse\<close>, \<open>yaml_faithful\<close>) and instantiated in the witnesses.

  \<^bold>\<open>Not modelled.\<close> The exporters and the meter behind \<open>telemetry.Init\<close> and \<open>journal.New\<close>, the HTTP servers and
  the reverse proxy of the standard library (represented by the order of the hooks they call),
  banners, operational log lines, path cleaning of \<open>ServeMux\<close>, data races on
  unguarded fields, and the aliasing of configuration maps that \<open>deepMergeInto\<close> stores in a body.
\<close>

section \<open>Properties of the whole process\<close>



end
